(* ===== verification/Datad_Prelude.thy ===== *)
theory Datad_Prelude
  imports Main "HOL-Library.Word" "HOL-Library.Char_ord" "HOL-Library.List_Lexorder"
    "HOL-Library.Code_Target_Nat"
begin

text \<open>
  Shared ground of the development: the part of the Rust language and standard library
  that the modelled components use.

  \<^item> A Rust \<open>str\<close> is a sequence of UTF-8 bytes, modelled by \<open>string\<close> (a list of
    8-bit characters): \<open>len\<close> is \<open>length\<close>, and the order of \<open>String\<close> is the
    lexicographic order of \<open>List_Lexorder\<close> over \<open>Char_ord\<close>.  Operations that look at
    Unicode scalar values (\<open>chars\<close>, \<open>trim\<close>, \<open>is_control\<close>) go through
    \<open>utf8_chars\<close>.
  \<^item> A byte slice \<open>&[u8]\<close> is a list of \<open>8 word\<close>.
  \<^item> \<open>u64\<close>/\<open>usize\<close> quantities without bit operations are natural numbers;
    \<open>saturating_sub\<close> is then subtraction on \<open>nat\<close>, and the operations that can reach
    the top of the range (\<open>+\<close>, \<open>saturating_add\<close>) are the functions below.
  \<^item> \<open>Result<T, E>\<close> is \<open>'e + 't\<close> (\<open>Inl\<close> the error), \<open>Option<T>\<close> is \<open>'t option\<close>.
\<close>

unbundle bit_operations_syntax

type_synonym u8 = "8 word"
type_synonym u16 = "16 word"
type_synonym u32 = "32 word"
type_synonym u64 = "64 word"
type_synonym bytes = "8 word list"

named_theorems rust_std \<open>definitional unfoldings of the Rust standard library model\<close>
named_theorems persist_laws \<open>what every operation of a persistent component keeps\<close>

section \<open>Machine integers as natural numbers\<close>

definition u64_max :: nat where
  "u64_max = 2 ^ 64 - 1"

definition i64_max :: int where
  "i64_max = 2 ^ 63 - 1"

definition i64_min :: int where
  "i64_min = - (2 ^ 63)"

text \<open>\<open>a + b\<close> on \<open>u64\<close> in the release profile (no overflow checks): wrap-around.\<close>

definition wadd64 :: "nat \<Rightarrow> nat \<Rightarrow> nat" where
  "wadd64 a b = (a + b) mod 2 ^ 64"

definition sat_add64 :: "nat \<Rightarrow> nat \<Rightarrow> nat" where
  "sat_add64 a b = min (a + b) u64_max"

definition checked_add64 :: "nat \<Rightarrow> nat \<Rightarrow> nat option" where
  "checked_add64 a b = (if a + b \<le> u64_max then Some (a + b) else None)"

lemma wadd64_small: "a + b < 2 ^ 64 \<Longrightarrow> wadd64 a b = a + b"
  by (simp add: wadd64_def)

lemma sat_add64_small: "a + b \<le> u64_max \<Longrightarrow> sat_add64 a b = a + b"
  by (simp add: sat_add64_def)

lemma sat_add64_le: "sat_add64 a b \<le> a + b" "sat_add64 a b \<le> u64_max"
  by (simp_all add: sat_add64_def)

lemma sat_add64_mono: "a \<le> a' \<Longrightarrow> sat_add64 a b \<le> sat_add64 a' b"
  by (auto simp: sat_add64_def)

text \<open>Rust's \<open>/\<close> on signed integers truncates towards zero.\<close>

definition tdiv :: "int \<Rightarrow> int \<Rightarrow> int" where
  "tdiv a b = sgn a * sgn b * (\<bar>a\<bar> div \<bar>b\<bar>)"

lemma tdiv_nonneg: "0 \<le> a \<Longrightarrow> 0 < b \<Longrightarrow> tdiv a b = a div b"
  by (cases "a = 0") (auto simp: tdiv_def)

text \<open>\<open>i64\<close> arithmetic without overflow checks.\<close>

definition wrap_i64 :: "int \<Rightarrow> int" where
  "wrap_i64 i = (i + 2 ^ 63) mod 2 ^ 64 - 2 ^ 63"

lemma wrap_i64_small: "- (2 ^ 63) \<le> i \<Longrightarrow> i < 2 ^ 63 \<Longrightarrow> wrap_i64 i = i"
  by (simp add: wrap_i64_def)

definition wsub_i64 :: "int \<Rightarrow> int \<Rightarrow> int" where
  "wsub_i64 a b = wrap_i64 (a - b)"

section \<open>Bytes of big-endian integers\<close>

definition be16 :: "u8 \<Rightarrow> u8 \<Rightarrow> u16" where
  "be16 a b = (push_bit 8 (ucast a)) OR ucast b"

definition be32 :: "u8 \<Rightarrow> u8 \<Rightarrow> u8 \<Rightarrow> u8 \<Rightarrow> u32" where
  "be32 a b c d = (push_bit 24 (ucast a)) OR (push_bit 16 (ucast b)) OR (push_bit 8 (ucast c)) OR ucast d"

fun be_nat :: "bytes \<Rightarrow> nat" where
  "be_nat [] = 0"
| "be_nat (b # bs) = unat b * 256 ^ length bs + be_nat bs"

text \<open>\<open>to_be_bytes\<close> of an integer of \<open>n\<close> bytes.\<close>

primrec to_be :: "nat \<Rightarrow> nat \<Rightarrow> bytes" where
  "to_be 0 v = []"
| "to_be (Suc n) v = word_of_nat (v div 256 ^ n) # to_be n v"

lemma length_to_be [simp]: "length (to_be n v) = n"
  by (induction n) simp_all

lemma be_nat_to_be: "be_nat (to_be n v) = v mod 256 ^ n"
proof (induction n)
  case (Suc n)
  have "be_nat (to_be (Suc n) v) = (v div 256 ^ n) mod 256 * 256 ^ n + v mod 256 ^ n"
    using Suc by (simp add: unat_of_nat)
  also have "\<dots> = v mod (256 ^ n * 256)"
    using mod_mult2_eq [of v "256 ^ n" 256] by (simp add: mult.commute)
  finally show ?case by (simp add: mult.commute)
qed simp

lemma be_nat_bound: "be_nat bs < 256 ^ length bs"
proof (induction bs)
  case (Cons b bs)
  have "unat b < 256" using unsigned_less [of b] by simp
  then have "unat b * 256 ^ length bs + be_nat bs < (unat b + 1) * 256 ^ length bs"
    using Cons by simp
  also have "\<dots> \<le> 256 * 256 ^ length bs"
    using \<open>unat b < 256\<close> by (intro mult_right_mono) auto
  finally show ?case by simp
qed simp

lemma to_be_be_nat: "length bs = n \<Longrightarrow> to_be n (be_nat bs + k * 256 ^ n) = bs"
proof (induction bs arbitrary: n k)
  case (Cons b bs)
  obtain m where n: "n = Suc m" and m: "length bs = m" using Cons.prems by auto
  have small: "be_nat bs < 256 ^ m" using be_nat_bound [of bs] m by simp
  have split: "be_nat (b # bs) + k * 256 ^ n = be_nat bs + (unat b + k * 256) * 256 ^ m"
    using m n by (simp add: algebra_simps)
  have "(be_nat bs + (unat b + k * 256) * 256 ^ m) div 256 ^ m = unat b + k * 256"
    using small by simp
  moreover have "to_be m (be_nat bs + (unat b + k * 256) * 256 ^ m) = bs"
    by (rule Cons.IH [OF m])
  moreover have "word_of_nat (unat b + k * 256) = b"
  proof -
    have "(of_nat (unat b + k * 256) :: u8) = of_nat (unat b) + of_nat k * of_nat 256"
      by simp
    also have "(of_nat 256 :: u8) = 0" by simp
    finally show ?thesis by simp
  qed
  ultimately show ?case
    unfolding n to_be.simps split [unfolded n] by simp
qed simp

lemma to_be_inverse [simp]: "length bs = n \<Longrightarrow> to_be n (be_nat bs) = bs"
  using to_be_be_nat [of bs n 0] by simp

text \<open>Two's complement reading of an \<open>n\<close>-bit pattern (\<open>iN::from_be_bytes\<close>) and its inverse.\<close>

definition to_signed :: "nat \<Rightarrow> nat \<Rightarrow> int" where
  "to_signed w v = (if v < 2 ^ (w - 1) then int v else int v - 2 ^ w)"

definition of_signed :: "nat \<Rightarrow> int \<Rightarrow> nat" where
  "of_signed w i = nat (i mod 2 ^ w)"

lemma to_signed_of_signed:
  assumes "0 < w" "- (2 ^ (w - 1)) \<le> i" "i < 2 ^ (w - 1)"
  shows "to_signed w (of_signed w i) = i"
proof -
  have pw: "(2::int) ^ w = 2 * 2 ^ (w - 1)"
    using assms(1) by (cases w) auto
  show ?thesis
  proof (cases "0 \<le> i")
    case True
    then have "i mod 2 ^ w = i" using assms(3) pw by (intro mod_pos_pos_trivial) auto
    then show ?thesis using True assms(3)
      by (auto simp: to_signed_def of_signed_def nat_less_iff zless_nat_eq_int_zless)
  next
    case False
    have "i mod 2 ^ w = (i + 2 ^ w) mod 2 ^ w" by simp
    also have "\<dots> = i + 2 ^ w"
      using False assms(2) pw by (intro mod_pos_pos_trivial) auto
    finally show ?thesis using False assms(2) pw
      by (auto simp: to_signed_def of_signed_def nat_less_iff)
  qed
qed

end
