(* ===== verification/Rust_Str.thy ===== *)
theory Rust_Str
  imports Datad_Prelude
begin

text \<open>
  The string operations of the Rust standard library that the components call, over UTF-8
  byte strings: scalar values, \<open>from_utf8_lossy\<close>, trimming, splitting, prefix and
  suffix stripping, ASCII classes and integer parsing.
\<close>

section \<open>Characters\<close>

definition cval :: "char \<Rightarrow> nat" where
  [rust_std]: "cval c = of_char c"

definition is_ascii_digit :: "char \<Rightarrow> bool" where
  [rust_std]: "is_ascii_digit c \<longleftrightarrow> 48 \<le> cval c \<and> cval c \<le> 57"

definition is_ascii_lower :: "char \<Rightarrow> bool" where
  [rust_std]: "is_ascii_lower c \<longleftrightarrow> 97 \<le> cval c \<and> cval c \<le> 122"

definition is_ascii_upper :: "char \<Rightarrow> bool" where
  [rust_std]: "is_ascii_upper c \<longleftrightarrow> 65 \<le> cval c \<and> cval c \<le> 90"

definition is_ascii_alphanumeric :: "char \<Rightarrow> bool" where
  [rust_std]: "is_ascii_alphanumeric c \<longleftrightarrow> is_ascii_digit c \<or> is_ascii_lower c \<or> is_ascii_upper c"

definition is_ascii_hexdigit :: "char \<Rightarrow> bool" where
  [rust_std]: "is_ascii_hexdigit c \<longleftrightarrow> is_ascii_digit c \<or> (97 \<le> cval c \<and> cval c \<le> 102)
     \<or> (65 \<le> cval c \<and> cval c \<le> 70)"

definition is_ascii_control :: "char \<Rightarrow> bool" where
  "is_ascii_control c \<longleftrightarrow> cval c < 32 \<or> cval c = 127"

definition is_ascii_whitespace :: "char \<Rightarrow> bool" where
  "is_ascii_whitespace c \<longleftrightarrow> cval c = 32 \<or> cval c = 9 \<or> cval c = 10 \<or> cval c = 12 \<or> cval c = 13"

definition is_ascii :: "string \<Rightarrow> bool" where
  "is_ascii s = list_all (\<lambda>c. cval c < 128) s"

definition to_ascii_lower :: "char \<Rightarrow> char" where
  [rust_std]: "to_ascii_lower c = (if is_ascii_upper c then char_of (cval c + 32) else c)"

definition to_ascii_upper :: "char \<Rightarrow> char" where
  "to_ascii_upper c = (if is_ascii_lower c then char_of (cval c - 32) else c)"

definition to_ascii_lowercase :: "string \<Rightarrow> string" where
  [rust_std]: "to_ascii_lowercase s = map to_ascii_lower s"

definition str_bytes :: "string \<Rightarrow> bytes" where
  "str_bytes s = map (\<lambda>c. word_of_nat (cval c)) s"

definition bytes_str :: "bytes \<Rightarrow> string" where
  "bytes_str bs = map (\<lambda>b. char_of (unat b)) bs"

lemma length_str_bytes [simp]: "length (str_bytes s) = length s"
  by (simp add: str_bytes_def)

lemma length_bytes_str [simp]: "length (bytes_str s) = length s"
  by (simp add: bytes_str_def)

lemma cval_less: "cval c < 256"
  unfolding cval_def using of_char_mod_256 [of c, where ?'a = nat] by (metis mod_less_divisor zero_less_numeral)

lemma bytes_str_str_bytes [simp]: "bytes_str (str_bytes s) = s"
proof -
  have "char_of (unat (word_of_nat (cval c) :: u8)) = c" for c
    using cval_less [of c] by (simp add: unat_of_nat cval_def)
  then show ?thesis by (simp add: bytes_str_def str_bytes_def comp_def map_idI)
qed

lemma str_bytes_bytes_str [simp]: "str_bytes (bytes_str bs) = bs"
proof -
  have "word_of_nat (cval (char_of (unat b))) = b" for b :: u8
    using unsigned_less [of b, where ?'a = nat] by (simp add: cval_def)
  then show ?thesis by (simp add: bytes_str_def str_bytes_def comp_def map_idI)
qed

section \<open>UTF-8\<close>

definition byte_in :: "string \<Rightarrow> nat \<Rightarrow> nat \<Rightarrow> nat \<Rightarrow> bool" where
  "byte_in s i lo hi \<longleftrightarrow> i < length s \<and> lo \<le> cval (s ! i) \<and> cval (s ! i) \<le> hi"

text \<open>
  The first scalar value of a byte string: whether it is well formed, and how many bytes it
  (or the maximal ill-formed prefix that \<open>from_utf8_lossy\<close> replaces at once) takes.
\<close>

definition utf8_head :: "char \<Rightarrow> string \<Rightarrow> bool \<times> nat" where
  "utf8_head c cs =
     (let b = cval c in
      if b < 128 then (True, 1)
      else if 194 \<le> b \<and> b \<le> 223 then (if byte_in cs 0 128 191 then (True, 2) else (False, 1))
      else if 224 \<le> b \<and> b \<le> 239 then
        (if \<not> byte_in cs 0 (if b = 224 then 160 else 128) (if b = 237 then 159 else 191) then (False, 1)
         else if \<not> byte_in cs 1 128 191 then (False, 2) else (True, 3))
      else if 240 \<le> b \<and> b \<le> 244 then
        (if \<not> byte_in cs 0 (if b = 240 then 144 else 128) (if b = 244 then 143 else 191) then (False, 1)
         else if \<not> byte_in cs 1 128 191 then (False, 2)
         else if \<not> byte_in cs 2 128 191 then (False, 3) else (True, 4))
      else (False, 1))"

lemma utf8_head_pos: "0 < snd (utf8_head c cs)"
  by (simp add: utf8_head_def Let_def)

function utf8_pieces :: "string \<Rightarrow> (bool \<times> string) list" where
  "utf8_pieces [] = []"
| "utf8_pieces (c # cs) =
     (let (ok, n) = utf8_head c cs
      in (ok, take n (c # cs)) # utf8_pieces (drop n (c # cs)))"
  by pat_completeness auto
termination
proof (relation "measure length")
  fix c :: char and cs :: string and x ok n
  assume "x = utf8_head c cs" "(ok, n) = x"
  then have "0 < n" using utf8_head_pos [of c cs] by (metis snd_conv)
  then show "(drop n (c # cs), c # cs) \<in> measure length" by simp
qed simp

definition utf8_valid :: "string \<Rightarrow> bool" where
  "utf8_valid s = list_all fst (utf8_pieces s)"

definition utf8_chars :: "string \<Rightarrow> string list" where
  "utf8_chars s = map snd (utf8_pieces s)"

definition from_utf8_lossy :: "string \<Rightarrow> string" where
  "from_utf8_lossy s =
     concat (map (\<lambda>(ok, p). if ok then p else [char_of (239::nat), char_of (191::nat), char_of (189::nat)])
       (utf8_pieces s))"

lemma concat_utf8_chars [simp]: "concat (utf8_chars s) = s"
proof (induction s rule: utf8_pieces.induct)
  case (2 c cs)
  obtain ok n where h: "utf8_head c cs = (ok, n)" by (cases "utf8_head c cs")
  have "concat (utf8_chars (drop n (c # cs))) = drop n (c # cs)"
    using "2.IH" h by simp
  then show ?case using h append_take_drop_id [of n "c # cs"]
    by (simp add: utf8_chars_def)
qed (simp add: utf8_chars_def)

lemma from_utf8_lossy_valid: "utf8_valid s \<Longrightarrow> from_utf8_lossy s = s"
proof -
  assume "utf8_valid s"
  then have "map (\<lambda>(ok, p). if ok then p else [char_of (239::nat), char_of (191::nat), char_of (189::nat)])
      (utf8_pieces s) = utf8_chars s"
    unfolding utf8_valid_def utf8_chars_def by (auto simp: list_all_iff)
  then show ?thesis unfolding from_utf8_lossy_def by simp
qed

fun code_point :: "string \<Rightarrow> nat" where
  "code_point [a] = cval a"
| "code_point [a, b] = (cval a - 192) * 64 + (cval b - 128)"
| "code_point [a, b, c] = (cval a - 224) * 4096 + (cval b - 128) * 64 + (cval c - 128)"
| "code_point [a, b, c, d] =
     (cval a - 240) * 262144 + (cval b - 128) * 4096 + (cval c - 128) * 64 + (cval d - 128)"
| "code_point s = 0"

text \<open>\<open>char::is_control\<close> (general category Cc) and \<open>char::is_whitespace\<close> (White_Space).\<close>

definition cp_control :: "nat \<Rightarrow> bool" where
  "cp_control n \<longleftrightarrow> n < 32 \<or> (127 \<le> n \<and> n < 160)"

definition cp_whitespace :: "nat \<Rightarrow> bool" where
  "cp_whitespace n \<longleftrightarrow> (9 \<le> n \<and> n \<le> 13) \<or> n = 32 \<or> n = 133 \<or> n = 160 \<or> n = 5760
     \<or> (8192 \<le> n \<and> n \<le> 8202) \<or> n = 8232 \<or> n = 8233 \<or> n = 8239 \<or> n = 8287 \<or> n = 12288"

definition has_control :: "string \<Rightarrow> bool" where
  "has_control s = list_ex (\<lambda>p. cp_control (code_point p)) (utf8_chars s)"

definition ws_char :: "string \<Rightarrow> bool" where
  "ws_char p = cp_whitespace (code_point p)"

definition trim :: "string \<Rightarrow> string" where
  "trim s = concat (rev (dropWhile ws_char (rev (dropWhile ws_char (utf8_chars s)))))"

text \<open>The UTF-16 code units of a string (\<open>str::encode_utf16\<close>).\<close>

definition cp_utf16 :: "nat \<Rightarrow> nat list" where
  "cp_utf16 n = (if n < 65536 then [n]
     else [55296 + (n - 65536) div 1024, 56320 + (n - 65536) mod 1024])"

definition encode_utf16 :: "string \<Rightarrow> nat list" where
  "encode_utf16 s = concat (map (\<lambda>p. cp_utf16 (code_point p)) (utf8_chars s))"

text \<open>One UTF-16 unit as \<open>{unit:04X}\<close>.\<close>

definition hex_upper :: "nat \<Rightarrow> char" where
  "hex_upper n = (if n < 10 then char_of (48 + n) else char_of (55 + n))"

definition hex4 :: "nat \<Rightarrow> string" where
  "hex4 u = [hex_upper (u div 4096 mod 16), hex_upper (u div 256 mod 16),
             hex_upper (u div 16 mod 16), hex_upper (u mod 16)]"

section \<open>Splitting and stripping\<close>

fun join :: "string \<Rightarrow> string list \<Rightarrow> string" where
  "join sep [] = []"
| "join sep [s] = s"
| "join sep (s # ss) = s @ sep @ join sep ss"

fun strip_prefix :: "string \<Rightarrow> string \<Rightarrow> string option" where
  "strip_prefix [] s = Some s"
| "strip_prefix (p # ps) [] = None"
| "strip_prefix (p # ps) (c # cs) = (if p = c then strip_prefix ps cs else None)"

definition starts_with :: "string \<Rightarrow> string \<Rightarrow> bool" where
  "starts_with p s = (strip_prefix p s \<noteq> None)"

definition strip_suffix :: "string \<Rightarrow> string \<Rightarrow> string option" where
  "strip_suffix p s = map_option rev (strip_prefix (rev p) (rev s))"

definition ends_with :: "string \<Rightarrow> string \<Rightarrow> bool" where
  "ends_with p s = (strip_suffix p s \<noteq> None)"

lemma strip_prefix_Some: "strip_prefix p s = Some r \<longleftrightarrow> s = p @ r"
  by (induction p s rule: strip_prefix.induct) auto

fun str_contains :: "string \<Rightarrow> string \<Rightarrow> bool" where
  "str_contains p [] = (p = [])"
| "str_contains p (c # cs) = (starts_with p (c # cs) \<or> str_contains p cs)"

text \<open>\<open>str::split(c)\<close>: never empty, one more piece than separators.\<close>

fun split_on :: "char \<Rightarrow> string \<Rightarrow> string list" where
  "split_on x [] = [[]]"
| "split_on x (c # cs) =
     (if c = x then [] # split_on x cs
      else (case split_on x cs of [] \<Rightarrow> [[c]] | p # ps \<Rightarrow> (c # p) # ps))"

definition split_once :: "char \<Rightarrow> string \<Rightarrow> (string \<times> string) option" where
  "split_once x s =
     (let k = takeWhile (\<lambda>c. c \<noteq> x) s
      in if length k < length s then Some (k, drop (Suc (length k)) s) else None)"

definition rsplit_once :: "char \<Rightarrow> string \<Rightarrow> (string \<times> string) option" where
  "rsplit_once x s = map_option (\<lambda>(a, b). (rev b, rev a)) (split_once x (rev s))"

function group_words :: "string list \<Rightarrow> string list" where
  "group_words [] = []"
| "group_words (p # ps) =
     (if ws_char p then group_words ps
      else concat (p # takeWhile (\<lambda>q. \<not> ws_char q) ps) # group_words (dropWhile (\<lambda>q. \<not> ws_char q) ps))"
  by pat_completeness auto
termination
  by (relation "measure length") (auto simp: le_imp_less_Suc length_dropWhile_le)

definition split_whitespace :: "string \<Rightarrow> string list" where
  "split_whitespace s = group_words (utf8_chars s)"

function split_ascii_whitespace :: "string \<Rightarrow> string list" where
  "split_ascii_whitespace [] = []"
| "split_ascii_whitespace (c # cs) =
     (if is_ascii_whitespace c then split_ascii_whitespace cs
      else (c # takeWhile (\<lambda>d. \<not> is_ascii_whitespace d) cs)
        # split_ascii_whitespace (dropWhile (\<lambda>d. \<not> is_ascii_whitespace d) cs))"
  by pat_completeness auto
termination
  by (relation "measure length") (auto simp: le_imp_less_Suc length_dropWhile_le)

definition chomp_cr :: "string \<Rightarrow> string" where
  "chomp_cr s = (case strip_suffix [char_of (13::nat)] s of Some r \<Rightarrow> r | None \<Rightarrow> s)"

definition lines :: "string \<Rightarrow> string list" where
  "lines s =
     (let ps = split_on (char_of (10::nat)) s;
          qs = (if last ps = [] then butlast ps else ps)
      in map chomp_cr qs)"

section \<open>Parsing integers\<close>

definition digit_val :: "char \<Rightarrow> nat" where
  "digit_val c = cval c - 48"

definition digits_val :: "string \<Rightarrow> nat" where
  "digits_val s = foldl (\<lambda>a c. 10 * a + digit_val c) 0 s"

definition parse_digits :: "string \<Rightarrow> nat option" where
  "parse_digits s = (if s \<noteq> [] \<and> list_all is_ascii_digit s then Some (digits_val s) else None)"

definition drop_plus :: "string \<Rightarrow> string" where
  "drop_plus s = (case s of [] \<Rightarrow> [] | c # cs \<Rightarrow> if c = CHR ''+'' then cs else s)"

text \<open>\<open>str::parse\<close> for an unsigned type with the given maximum and for \<open>i64\<close>.\<close>

definition parse_unsigned :: "nat \<Rightarrow> string \<Rightarrow> nat option" where
  "parse_unsigned m s =
     (case parse_digits (drop_plus s) of Some n \<Rightarrow> if n \<le> m then Some n else None | None \<Rightarrow> None)"

definition parse_i64 :: "string \<Rightarrow> int option" where
  "parse_i64 s =
     (case (case s of [] \<Rightarrow> None
            | c # cs \<Rightarrow> if c = CHR ''-'' then map_option (\<lambda>n. - int n) (parse_digits cs)
                        else map_option int (parse_digits (drop_plus s))) of
        Some i \<Rightarrow> if i64_min \<le> i \<and> i \<le> i64_max then Some i else None
      | None \<Rightarrow> None)"

lemma parse_unsigned_le: "parse_unsigned m s = Some n \<Longrightarrow> n \<le> m"
  by (auto simp: parse_unsigned_def split: option.splits if_splits)

text \<open>Decimal rendering of a natural number (\<open>format!\<close> with \<open>{}\<close>).\<close>

fun show_nat :: "nat \<Rightarrow> string" where
  "show_nat n = (if n < 10 then [char_of (48 + n)] else show_nat (n div 10) @ [char_of (48 + n mod 10)])"

declare show_nat.simps [simp del]

definition show_int :: "int \<Rightarrow> string" where
  "show_int i = (if i < 0 then CHR ''-'' # show_nat (nat (- i)) else show_nat (nat i))"

section \<open>Rendering and parsing are inverse\<close>

lemma digit_char: "d < 10 \<Longrightarrow> is_ascii_digit (char_of (48 + d)) \<and> digit_val (char_of (48 + d)) = d"
  by (simp add: is_ascii_digit_def digit_val_def cval_def)

lemma digits_val_snoc: "digits_val (s @ [c]) = 10 * digits_val s + digit_val c"
  by (simp add: digits_val_def)

lemma show_nat_digits: "list_all is_ascii_digit (show_nat n) \<and> digits_val (show_nat n) = n \<and> show_nat n \<noteq> []"
proof (induction n rule: show_nat.induct)
  case (1 n)
  show ?case
  proof (cases "n < 10")
    case True
    then show ?thesis using digit_char [of n] by (simp add: show_nat.simps [of n] digits_val_def)
  next
    case False
    then show ?thesis using 1 digit_char [of "n mod 10"] by (simp add: show_nat.simps [of n] digits_val_snoc)
  qed
qed

lemma parse_digits_show: "parse_digits (show_nat n) = Some n"
  using show_nat_digits [of n] by (simp add: parse_digits_def)

lemma parse_i64_show_int:
  assumes "i64_min \<le> i" "i \<le> i64_max"
  shows "parse_i64 (show_int i) = Some i"
proof (cases "i < 0")
  case True
  then show ?thesis using assms parse_digits_show [of "nat (- i)"] by (simp add: parse_i64_def show_int_def)
next
  case False
  obtain c cs where s: "show_nat (nat i) = c # cs" "is_ascii_digit c"
    using show_nat_digits [of "nat i"] by (cases "show_nat (nat i)") auto
  have "c \<noteq> CHR ''-''" "c \<noteq> CHR ''+''" using s(2) by (auto simp: is_ascii_digit_def cval_def)
  then have "drop_plus (show_nat (nat i)) = show_nat (nat i)" "c \<noteq> CHR ''-''" using s(1) by (simp_all add: drop_plus_def)
  then show ?thesis using False assms s(1) parse_digits_show [of "nat i"] by (simp add: parse_i64_def show_int_def)
qed

lemma show_nat_inj: "show_nat m = show_nat n \<Longrightarrow> m = n"
  using show_nat_digits by metis

lemma split_on_piece: "x \<notin> set a \<Longrightarrow> split_on x (a @ x # b) = a # split_on x b"
  by (induction a) auto

lemma split_on_nonempty: "split_on x s \<noteq> []"
  by (induction s) (auto split: list.splits)

lemma lines_concat:
  assumes "\<forall>l\<in>set ls. char_of (10 :: nat) \<notin> set l \<and> chomp_cr l = l"
  shows "lines (concat (map (\<lambda>l. l @ [char_of (10 :: nat)]) ls)) = ls"
proof -
  have "split_on (char_of (10 :: nat)) (concat (map (\<lambda>l. l @ [char_of (10 :: nat)]) ls)) = ls @ [[]]"
    using assms by (induction ls) (simp_all add: split_on_piece)
  then show ?thesis using assms by (simp add: lines_def map_idI)
qed

lemma contains_length: "str_contains p t \<Longrightarrow> length p \<le> length t"
proof (induction t)
  case (Cons c t)
  have "strip_prefix p s = Some r \<Longrightarrow> length p \<le> length s" for p s r
    by (induction p s rule: strip_prefix.induct) (auto split: if_splits)
  then show ?case using Cons by (fastforce simp: starts_with_def)
qed simp

text \<open>A literal given by its scalar values, in UTF-8.\<close>

definition utf8_encode :: "nat \<Rightarrow> string" where
  "utf8_encode c =
     map char_of (if c < 128 then [c]
       else if c < 2048 then [192 + c div 64, 128 + c mod 64]
       else if c < 65536 then [224 + c div 4096, 128 + c div 64 mod 64, 128 + c mod 64]
       else [240 + c div 262144, 128 + c div 4096 mod 64, 128 + c div 64 mod 64, 128 + c mod 64 :: nat])"

definition ustr :: "nat list \<Rightarrow> string" where
  "ustr cs = concat (map utf8_encode cs)"

end
