(* ===== verification/Json_Value.thy ===== *)
theory Json_Value
  imports Rust_Str
begin

text \<open>
  The JSON values the components exchange with \<open>ubus\<close>, with their clients and with
  their files: the constructors of \<open>serde_json::Value\<close> that the sources match on, and
  the accessors they call.  An object is a key-ordered association list, the
  \<open>BTreeMap\<close> behind \<open>serde_json::Map\<close> (the crate is built without
  \<open>preserve_order\<close>).  A number is an integer of the joint range of \<open>u64\<close> and
  \<open>i64\<close> or the bit pattern of an \<open>f64\<close>.  Parsing and printing JSON text is not
  modelled: where a component does it, the function is a parameter.
\<close>

datatype json_number = NInt int | NFloat u64

datatype json =
    JNull
  | JBool bool
  | JNumber json_number
  | JString string
  | JArray "json list"
  | JObject "(string \<times> json) list"

type_synonym json_map = "(string \<times> json) list"

fun num_i64 :: "json_number \<Rightarrow> int option" where
  "num_i64 (NInt i) = (if i64_min \<le> i \<and> i \<le> i64_max then Some i else None)"
| "num_i64 (NFloat _) = None"

fun num_u64 :: "json_number \<Rightarrow> nat option" where
  "num_u64 (NInt i) = (if 0 \<le> i \<and> i \<le> int u64_max then Some (nat i) else None)"
| "num_u64 (NFloat _) = None"

fun as_str :: "json \<Rightarrow> string option" where
  "as_str (JString s) = Some s"
| "as_str _ = None"

fun as_bool :: "json \<Rightarrow> bool option" where
  "as_bool (JBool b) = Some b"
| "as_bool _ = None"

fun as_i64 :: "json \<Rightarrow> int option" where
  "as_i64 (JNumber n) = num_i64 n"
| "as_i64 _ = None"

fun as_u64 :: "json \<Rightarrow> nat option" where
  "as_u64 (JNumber n) = num_u64 n"
| "as_u64 _ = None"

fun as_array :: "json \<Rightarrow> json list option" where
  "as_array (JArray xs) = Some xs"
| "as_array _ = None"

fun as_object :: "json \<Rightarrow> json_map option" where
  "as_object (JObject m) = Some m"
| "as_object _ = None"

fun is_object :: "json \<Rightarrow> bool" where
  "is_object (JObject m) = True"
| "is_object _ = False"

text \<open>\<open>Value::get(key)\<close>: \<open>None\<close> on anything but an object.\<close>

definition jget :: "json \<Rightarrow> string \<Rightarrow> json option" where
  "jget v k = Option.bind (as_object v) (\<lambda>m. map_of m k)"

lemma jget_Object [simp]: "jget (JObject m) k = map_of m k"
  by (simp add: jget_def)

abbreviation jint :: "int \<Rightarrow> json" where
  "jint i \<equiv> JNumber (NInt i)"

section \<open>Ordered maps\<close>

fun map_insert :: "'k::linorder \<Rightarrow> 'v \<Rightarrow> ('k \<times> 'v) list \<Rightarrow> ('k \<times> 'v) list" where
  "map_insert k v [] = [(k, v)]"
| "map_insert k v ((k', v') # m) =
     (if k = k' then (k, v) # m
      else if k < k' then (k, v) # (k', v') # m
      else (k', v') # map_insert k v m)"

definition map_remove :: "'k \<Rightarrow> ('k \<times> 'v) list \<Rightarrow> ('k \<times> 'v) list" where
  "map_remove k m = filter (\<lambda>(k', _). k' \<noteq> k) m"

definition keys :: "('k \<times> 'v) list \<Rightarrow> 'k list" where
  "keys m = map fst m"

definition ordered_map :: "('k::linorder \<times> 'v) list \<Rightarrow> bool" where
  "ordered_map m = sorted_wrt (<) (keys m)"

lemma ordered_map_Nil [simp]: "ordered_map []"
  by (simp add: ordered_map_def keys_def)

lemma ordered_map_Cons [simp]:
  "ordered_map ((k, v) # m) \<longleftrightarrow> (\<forall>k'\<in>set (keys m). k < k') \<and> ordered_map m"
  by (simp add: ordered_map_def keys_def)

lemma keys_simps [simp]: "keys [] = []" "keys ((k, v) # m) = k # keys m" "keys (m @ n) = keys m @ keys n"
  by (simp_all add: keys_def)

lemma ordered_map_distinct: "ordered_map m \<Longrightarrow> distinct (keys m)"
  by (induction m) auto

lemma set_keys_insert [simp]: "set (keys (map_insert k v m)) = insert k (set (keys m))"
  by (induction k v m rule: map_insert.induct) auto

lemma map_of_insert [simp]: "map_of (map_insert k v m) = (map_of m)(k \<mapsto> v)"
  by (induction k v m rule: map_insert.induct) (auto simp: fun_upd_twist)

lemma ordered_map_insert [simp, intro]: "ordered_map m \<Longrightarrow> ordered_map (map_insert k v m)"
  by (induction k v m rule: map_insert.induct) auto

lemma map_of_remove [simp]: "map_of (map_remove k m) = (map_of m)(k := None)"
  by (induction m) (auto simp: map_remove_def)

lemma keys_remove: "keys (map_remove k m) = filter (\<lambda>k'. k' \<noteq> k) (keys m)"
  by (induction m) (auto simp: map_remove_def)

lemma ordered_map_remove [simp, intro]: "ordered_map m \<Longrightarrow> ordered_map (map_remove k m)"
  by (simp add: ordered_map_def keys_remove sorted_wrt_filter)

lemma map_insert_append:
  "\<forall>k'\<in>set (keys m). k' < k \<Longrightarrow> map_insert k v m = m @ [(k, v)]"
  by (induction k v m rule: map_insert.induct) auto

lemma length_map_insert: "length (map_insert k v m) \<le> Suc (length m)"
  by (induction k v m rule: map_insert.induct) auto

lemma length_keys [simp]: "length (keys m) = length m"
  by (simp add: keys_def)

lemma map_of_keys: "k \<in> set (keys m) \<longleftrightarrow> map_of m k \<noteq> None"
  by (induction m) auto

lemma fold_map_insert:
  "ordered_map (acc @ m) \<Longrightarrow> fold (\<lambda>(k, v). map_insert k v) m acc = acc @ m"
proof (induction m arbitrary: acc)
  case (Cons kv m)
  obtain k v where kv: "kv = (k, v)" by force
  have "\<forall>k'\<in>set (keys acc). k' < k"
    using Cons.prems kv by (auto simp: ordered_map_def sorted_wrt_append)
  then show ?case using Cons.IH [of "acc @ [(k, v)]"] Cons.prems kv
    by (simp add: map_insert_append)
qed simp

lemma map_of_fold_insert:
  "map_of (fold (\<lambda>(k, v). map_insert k v) kvs acc) = map_of acc ++ map_of (rev kvs)"
  by (induction kvs arbitrary: acc) (auto simp: map_add_def fun_eq_iff split: option.split)

lemma set_keys_fold_insert:
  "set (keys (fold (\<lambda>(k, v). map_insert k v) kvs acc)) = set (keys acc) \<union> set (keys kvs)"
  by (induction kvs arbitrary: acc) auto

text \<open>\<open>json!({...})\<close>: keys inserted in the order they are written.\<close>

definition jobj :: "(string \<times> json) list \<Rightarrow> json" where
  "jobj kvs = JObject (fold (\<lambda>(k, v). map_insert k v) kvs [])"

definition jopt :: "('a \<Rightarrow> json) \<Rightarrow> 'a option \<Rightarrow> json" where
  "jopt f x = (case x of None \<Rightarrow> JNull | Some v \<Rightarrow> f v)"

definition jindex :: "json \<Rightarrow> string \<Rightarrow> json" where
  "jindex v k = (case jget v k of Some x \<Rightarrow> x | None \<Rightarrow> JNull)"

text \<open>
  \<open>value[key] = x\<close>.  A null becomes an object; on anything else but an object the code would panic, which
  does not happen here because the members were read before.\<close>

fun jassign :: "json \<Rightarrow> string \<Rightarrow> json \<Rightarrow> json" where
  "jassign (JObject m) k x = JObject (map_insert k x m)"
| "jassign JNull k x = JObject [(k, x)]"
| "jassign v k x = v"

section \<open>Well-formed values\<close>

text \<open>
  What every \<open>Value\<close> of the program satisfies by its type: integers in range, strings in
  UTF-8, object keys in order.
\<close>

fun json_ok :: "json \<Rightarrow> bool" where
  "json_ok (JNumber (NInt i)) \<longleftrightarrow> i64_min \<le> i \<and> i \<le> int u64_max"
| "json_ok (JString s) \<longleftrightarrow> utf8_valid s"
| "json_ok (JArray xs) \<longleftrightarrow> list_all json_ok xs"
| "json_ok (JObject m) \<longleftrightarrow> ordered_map m \<and> list_all (\<lambda>kv. utf8_valid (fst kv) \<and> json_ok (snd kv)) m"
| "json_ok _ \<longleftrightarrow> True"

section \<open>Snapshots\<close>

text \<open>\<open>Snapshot\<close> of \<open>model.rs\<close>: the values a collection round publishes to the components.\<close>

record snapshot =
  snap_ts :: int
  snap_fields :: json_map

end
