(* ===== verification/Rust_Net.thy ===== *)
theory Rust_Net
  imports Rust_Str
begin

text \<open>
  Textual IP addresses as \<open>std::net\<close> parses them: the recursive-descent parser of
  \<open>core::net::parser\<close> (numbers with a digit limit, dotted quads without leading zeros,
  IPv6 groups with one \<open>::\<close> and an embedded dotted quad), and the address classes the
  components ask for.
\<close>

datatype ip_addr = V4 "nat list" | V6 "nat list"

definition hex_val :: "char \<Rightarrow> nat" where
  "hex_val c = (if is_ascii_digit c then cval c - 48
     else if is_ascii_lower c then cval c - 87 else cval c - 55)"

definition digits_of :: "nat \<Rightarrow> string \<Rightarrow> string" where
  "digits_of radix s = takeWhile (if radix = 10 then is_ascii_digit else is_ascii_hexdigit) s"

text \<open>\<open>Parser::read_number\<close>: at least one and at most \<open>max_digits\<close> digits, no overflow.\<close>

definition read_number :: "nat \<Rightarrow> nat \<Rightarrow> bool \<Rightarrow> nat \<Rightarrow> string \<Rightarrow> (nat \<times> string) option" where
  "read_number radix max_digits allow_zero_prefix mx s =
     (let ds = digits_of radix s;
          v = foldl (\<lambda>a c. radix * a + hex_val c) 0 ds
      in if ds = [] \<or> length ds > max_digits \<or> v > mx
            \<or> (\<not> allow_zero_prefix \<and> hd ds = CHR ''0'' \<and> length ds > 1)
         then None else Some (v, drop (length ds) s))"

definition read_char :: "char \<Rightarrow> string \<Rightarrow> string option" where
  "read_char c s = (case s of [] \<Rightarrow> None | x # xs \<Rightarrow> if x = c then Some xs else None)"

definition read_sep :: "char \<Rightarrow> nat \<Rightarrow> string \<Rightarrow> string option" where
  "read_sep c i s = (if i = 0 then Some s else read_char c s)"

fun read_octets :: "nat \<Rightarrow> nat \<Rightarrow> string \<Rightarrow> (nat list \<times> string) option" where
  "read_octets i 0 s = Some ([], s)"
| "read_octets i (Suc n) s =
     (case Option.bind (read_sep CHR ''.'' i s) (read_number 10 3 False 255) of
        None \<Rightarrow> None
      | Some (v, r) \<Rightarrow> map_option (\<lambda>(vs, r'). (v # vs, r')) (read_octets (Suc i) n r))"

definition read_ipv4 :: "string \<Rightarrow> (nat list \<times> string) option" where
  "read_ipv4 s = read_octets 0 4 s"

text \<open>\<open>read_groups\<close>: up to \<open>n\<close> more groups from index \<open>i\<close>; an embedded dotted quad ends them.\<close>

fun read_groups :: "nat \<Rightarrow> nat \<Rightarrow> string \<Rightarrow> nat list \<times> bool \<times> string" where
  "read_groups i 0 s = ([], False, s)"
| "read_groups i (Suc n) s =
     (case (if n > 0 then Option.bind (read_sep CHR '':'' i s) read_ipv4 else None) of
        Some ([a, b, c, d], r) \<Rightarrow> ([256 * a + b, 256 * c + d], True, r)
      | _ \<Rightarrow>
        (case Option.bind (read_sep CHR '':'' i s) (read_number 16 4 True 65535) of
           None \<Rightarrow> ([], False, s)
         | Some (g, r) \<Rightarrow> (let (gs, v4, r') = read_groups (Suc i) n r in (g # gs, v4, r'))))"

definition read_ipv6 :: "string \<Rightarrow> (nat list \<times> string) option" where
  "read_ipv6 s =
     (let (hd_gs, v4, r) = read_groups 0 8 s
      in if length hd_gs = 8 then Some (hd_gs, r)
         else if v4 then None
         else (case Option.bind (read_char CHR '':'' r) (read_char CHR '':'') of
                 None \<Rightarrow> None
               | Some r1 \<Rightarrow>
                   (let (tl_gs, _, r2) = read_groups 0 (8 - (length hd_gs + 1)) r1
                    in Some (hd_gs @ replicate (8 - length hd_gs - length tl_gs) 0 @ tl_gs, r2))))"

definition parse_ip :: "string \<Rightarrow> ip_addr option" where
  "parse_ip s =
     (case read_ipv4 s of
        Some (o4, r) \<Rightarrow> if r = [] then Some (V4 o4) else None
      | None \<Rightarrow>
          (case read_ipv6 s of
             Some (g, r) \<Rightarrow> if r = [] then Some (V6 g) else None
           | None \<Rightarrow> None))"

section \<open>Address classes\<close>

definition v4_private :: "nat list \<Rightarrow> bool" where
  "v4_private v \<longleftrightarrow> v ! 0 = 10 \<or> (v ! 0 = 172 \<and> 16 \<le> v ! 1 \<and> v ! 1 \<le> 31) \<or> (v ! 0 = 192 \<and> v ! 1 = 168)"

definition v4_loopback :: "nat list \<Rightarrow> bool" where
  "v4_loopback v \<longleftrightarrow> v ! 0 = 127"

definition v4_link_local :: "nat list \<Rightarrow> bool" where
  "v4_link_local v \<longleftrightarrow> v ! 0 = 169 \<and> v ! 1 = 254"

definition v4_unspecified :: "nat list \<Rightarrow> bool" where
  "v4_unspecified v \<longleftrightarrow> v = [0, 0, 0, 0]"

definition v4_broadcast :: "nat list \<Rightarrow> bool" where
  "v4_broadcast v \<longleftrightarrow> v = [255, 255, 255, 255]"

definition v4_multicast :: "nat list \<Rightarrow> bool" where
  "v4_multicast v \<longleftrightarrow> 224 \<le> v ! 0 \<and> v ! 0 \<le> 239"

definition v6_mapped :: "nat list \<Rightarrow> nat list option" where
  "v6_mapped g =
     (if take 6 g = [0, 0, 0, 0, 0, 65535]
      then Some [g ! 6 div 256, g ! 6 mod 256, g ! 7 div 256, g ! 7 mod 256] else None)"

definition v6_loopback :: "nat list \<Rightarrow> bool" where
  "v6_loopback v \<longleftrightarrow> v = [0, 0, 0, 0, 0, 0, 0, 1]"

definition v6_unspecified :: "nat list \<Rightarrow> bool" where
  "v6_unspecified v \<longleftrightarrow> v = [0, 0, 0, 0, 0, 0, 0, 0]"

definition v6_multicast :: "nat list \<Rightarrow> bool" where
  "v6_multicast v \<longleftrightarrow> and (v ! 0) 65280 = 65280"

section \<open>Shape of parsed addresses\<close>

lemma read_number_le: "read_number r d z m s = Some (v, rest) \<Longrightarrow> v \<le> m"
  by (auto simp: read_number_def Let_def split: if_splits)

lemma read_octets_shape:
  "read_octets i n s = Some (vs, r) \<Longrightarrow> length vs = n \<and> (\<forall>v\<in>set vs. v \<le> 255)"
  by (induction i n s arbitrary: vs r rule: read_octets.induct)
     (fastforce split: option.splits dest: read_number_le simp: Option.bind_eq_Some_conv)+

lemma read_groups_shape:
  "read_groups i n s = (gs, v4, r) \<Longrightarrow> length gs \<le> n \<and> (\<forall>g\<in>set gs. g \<le> 65535)"
proof (induction n arbitrary: i s gs v4 r)
  case (Suc n)
  let ?q = "if n > 0 then Option.bind (read_sep CHR '':'' i s) read_ipv4 else None"
  show ?case
  proof (cases "\<exists>a b c d r'. ?q = Some ([a, b, c, d], r')")
    case True
    then obtain a b c d r' where q: "?q = Some ([a, b, c, d], r')" by blast
    then have "n > 0" "a \<le> 255 \<and> b \<le> 255 \<and> c \<le> 255 \<and> d \<le> 255"
      using read_octets_shape
      by (fastforce simp: Option.bind_eq_Some_conv read_ipv4_def split: if_splits)+
    then show ?thesis using Suc.prems q by auto
  next
    case False
    then have eq: "read_groups i (Suc n) s =
        (case Option.bind (read_sep CHR '':'' i s) (read_number 16 4 True 65535) of
           None \<Rightarrow> ([], False, s)
         | Some (g, r) \<Rightarrow> (let (gs, v4, r') = read_groups (Suc i) n r in (g # gs, v4, r')))"
      by (cases ?q) (auto split: list.splits)
    show ?thesis
    proof (cases "Option.bind (read_sep CHR '':'' i s) (read_number 16 4 True 65535)")
      case None
      then show ?thesis using Suc.prems eq by simp
    next
      case (Some gr)
      obtain g r1 where gr: "gr = (g, r1)" by force
      obtain gs1 v1 r2 where rec: "read_groups (Suc i) n r1 = (gs1, v1, r2)" by (metis prod_cases3)
      have "g \<le> 65535" using Some gr read_number_le by (fastforce simp: Option.bind_eq_Some_conv)
      moreover have "length gs1 \<le> n \<and> (\<forall>g\<in>set gs1. g \<le> 65535)"
        using rec by (rule Suc.IH)
      ultimately show ?thesis using Suc.prems eq Some gr rec by auto
    qed
  qed
qed simp

section \<open>Parsed URLs\<close>

text \<open>What the sources ask of \<open>reqwest::Url\<close>; the parser itself is a parameter of its clients.\<close>

record url =
  url_scheme :: string
  url_username :: string
  url_password :: "string option"
  url_query :: "string option"
  url_fragment :: "string option"
  url_port :: "nat option"
  url_host_str :: "string option"

text \<open>With the path and the serialised origin, for the clients that look at them.\<close>

record origin_url = url +
  url_path :: string
  url_origin :: string

type_synonym url_parser = "string \<Rightarrow> origin_url option"

end
