(* ===== verification/Interfaces.thy ===== *)
theory Interfaces
  imports Datad_Prelude
begin

text \<open>
  The contracts several components of the daemon share, as locales.

  \<^item> \<open>durable\<close> and \<open>recoverable\<close>: a component keeps a record in memory and a copy
    in a file, and changes the first only after the second was written (the network
    recovery budget, the daily reboot plan, the task list).
  \<^item> \<open>window_limiter\<close>: at most \<open>limit\<close> actions in any \<open>window\<close> of time, from a
    pruned list of the instants of past actions (recovery actions per hour, vendor logins
    per minute).
  \<^item> \<open>bounded_log\<close>: an append-only list that drops its oldest entries beyond a capacity
    (update status events, activity journal).
  \<^item> \<open>prefix_codec\<close>: messages written one after the other on a byte stream and read back
    by a decoder that consumes a prefix (blob attributes, ubus frames).
\<close>

section \<open>Write first, then change memory\<close>

text \<open>
  What a file holds for the component that reads it: nothing, something the reader refuses
  (not a regular file, too large, not the expected JSON), or a record.
\<close>

datatype 'd disk = Missing | Corrupt | Holds 'd

locale durable =
  fixes mem :: "'s \<Rightarrow> 'd"
    and flash :: "'s \<Rightarrow> 'd disk"
    and step :: "'e \<Rightarrow> 's \<Rightarrow> 's"
  assumes commit:
    "mem (step e s) = mem s \<and> flash (step e s) = flash s \<or> flash (step e s) = Holds (mem (step e s))"
begin

lemma step_synced: "flash s = Holds (mem s) \<Longrightarrow> flash (step e s) = Holds (mem (step e s))"
  using commit [of e s] by auto

lemma run_synced: "flash s = Holds (mem s) \<Longrightarrow> flash (fold step es s) = Holds (mem (fold step es s))"
  by (induction es arbitrary: s) (auto dest: step_synced)

lemma run_commit:
  "mem (fold step es s) = mem s \<and> flash (fold step es s) = flash s
   \<or> flash (fold step es s) = Holds (mem (fold step es s))"
proof (induction es arbitrary: s)
  case (Cons e es)
  show ?case
  proof (cases "flash (step e s) = Holds (mem (step e s))")
    case True
    then show ?thesis using run_synced by simp
  next
    case False
    then show ?thesis using commit [of e s] Cons.IH [of "step e s"] by auto
  qed
qed simp

end

locale recoverable = durable mem flash step
  for mem :: "'s \<Rightarrow> 'd" and flash :: "'s \<Rightarrow> 'd disk" and step :: "'e \<Rightarrow> 's \<Rightarrow> 's" +
  fixes valid :: "'d \<Rightarrow> bool"
    and boot :: "'d disk \<Rightarrow> 's"
  assumes boot_holds: "valid d \<Longrightarrow> mem (boot (Holds d)) = d"
    and boot_flash: "flash (boot f) = f"
    and step_valid: "valid (mem s) \<Longrightarrow> valid (mem (step e s))"
begin

lemma run_valid: "valid (mem s) \<Longrightarrow> valid (mem (fold step es s))"
  by (induction es arbitrary: s) (auto intro: step_valid)

text \<open>A restart at any moment finds the record that was in memory.\<close>

lemma restart:
  assumes "valid (mem s)" and "flash s = Holds (mem s)"
  shows "mem (boot (flash (fold step es s))) = mem (fold step es s)"
proof -
  have "flash (fold step es s) = Holds (mem (fold step es s))"
    using assms(2) by (rule run_synced)
  moreover have "valid (mem (fold step es s))"
    using assms(1) by (rule run_valid)
  ultimately show ?thesis by (simp add: boot_holds)
qed

text \<open>A state whose file loads to its memory keeps that property.\<close>

lemma step_loadable:
  assumes "valid (mem s)" and "mem (boot (flash s)) = mem s"
  shows "mem (boot (flash (step e s))) = mem (step e s)"
  using commit [of e s] step_valid [OF assms(1), of e] assms(2) by (auto simp: boot_holds)

text \<open>Whatever the file held at the first start: absent, refused or a record.\<close>

lemma restart_from_boot:
  assumes "valid (mem (boot f))"
  shows "mem (boot (flash (fold step es (boot f)))) = mem (fold step es (boot f))"
  using run_commit [of es "boot f"] run_valid [OF assms, of es] boot_flash [of f]
  by (auto simp: boot_holds)

end

section \<open>At most so many actions in any window of time\<close>

definition in_window :: "nat \<Rightarrow> nat \<Rightarrow> nat \<Rightarrow> bool" where
  "in_window w now t \<longleftrightarrow> now - t < w"

lemma in_window_later: "n \<le> now \<Longrightarrow> in_window w now t \<Longrightarrow> in_window w n t"
  by (simp add: in_window_def)

lemma filter_window_later:
  "n \<le> now \<Longrightarrow> filter (in_window w now) (filter (in_window w n) ts) = filter (in_window w now) ts"
  by (induction ts) (auto dest: in_window_later)

text \<open>The instants of the granted actions of a run, and a side condition along it.\<close>

fun grant_log :: "('e \<Rightarrow> 's \<Rightarrow> bool) \<Rightarrow> ('e \<Rightarrow> nat) \<Rightarrow> ('e \<Rightarrow> 's \<Rightarrow> 's) \<Rightarrow> 'e list \<Rightarrow> 's \<Rightarrow> nat list" where
  "grant_log grants at step [] s = []"
| "grant_log grants at step (e # es) s =
     (if grants e s then [at e] else []) @ grant_log grants at step es (step e s)"

fun run_all :: "('e \<Rightarrow> 's \<Rightarrow> bool) \<Rightarrow> ('e \<Rightarrow> 's \<Rightarrow> 's) \<Rightarrow> 'e list \<Rightarrow> 's \<Rightarrow> bool" where
  "run_all ok step [] s = True"
| "run_all ok step (e # es) s = (ok e s \<and> run_all ok step es (step e s))"

locale window_limiter =
  fixes window :: nat and limit :: nat
    and times :: "'s \<Rightarrow> nat list"
    and step :: "'e \<Rightarrow> 's \<Rightarrow> 's"
    and at :: "'e \<Rightarrow> nat"
    and grants :: "'e \<Rightarrow> 's \<Rightarrow> bool"
    and ok :: "'e \<Rightarrow> 's \<Rightarrow> bool"
  assumes granted:
    "ok e s \<Longrightarrow> grants e s \<Longrightarrow>
     times (step e s) = filter (in_window window (at e)) (times s) @ [at e]
     \<and> length (filter (in_window window (at e)) (times s)) < limit"
  and refused:
    "ok e s \<Longrightarrow> \<not> grants e s \<Longrightarrow>
     times (step e s) = times s \<or> times (step e s) = filter (in_window window (at e)) (times s)"
begin

definition tracks :: "nat \<Rightarrow> nat list \<Rightarrow> 's \<Rightarrow> bool" where
  "tracks lo past s \<longleftrightarrow>
     (\<forall>g\<in>set past. g \<le> lo)
     \<and> (\<forall>now\<ge>lo. filter (in_window window now) past = filter (in_window window now) (times s))
     \<and> (\<forall>t. length (filter (\<lambda>g. g \<le> t \<and> in_window window t g) past) \<le> limit)"

lemma tracks_refused:
  assumes "tracks lo past s" "lo \<le> at e" "ok e s" "\<not> grants e s"
  shows "tracks (at e) past (step e s)"
  using assms refused [of e s] filter_window_later [of "at e" _ window "times s"]
  unfolding tracks_def by fastforce

lemma tracks_granted:
  assumes tr: "tracks lo past s" and lo: "lo \<le> at e" and ok: "ok e s" and gr: "grants e s"
  shows "tracks (at e) (past @ [at e]) (step e s)"
proof -
  note step = granted [OF ok gr]
  have le: "\<forall>g\<in>set past. g \<le> at e"
    using tr lo unfolding tracks_def by force
  have same: "filter (in_window window now) (past @ [at e]) = filter (in_window window now) (times (step e s))"
    if now: "at e \<le> now" for now
  proof -
    have "filter (in_window window now) past = filter (in_window window now) (times s)"
      using tr now lo unfolding tracks_def by auto
    then show ?thesis using step filter_window_later [OF now, of window "times s"] by simp
  qed
  have bound: "length (filter (\<lambda>g. g \<le> t \<and> in_window window t g) (past @ [at e])) \<le> limit" for t
  proof (cases "at e \<le> t")
    case True
    have "filter (\<lambda>g. g \<le> t \<and> in_window window t g) (past @ [at e])
        = filter (in_window window t) (past @ [at e])"
      using le True by (intro filter_cong) auto
    also have "\<dots> = filter (in_window window t) (times (step e s))"
      using same [OF True] .
    also have "length \<dots> \<le> length (times (step e s))" by (rule length_filter_le)
    also have "\<dots> \<le> limit" using step by simp
    finally show ?thesis .
  next
    case False
    then show ?thesis using tr unfolding tracks_def by simp
  qed
  show ?thesis using le same bound unfolding tracks_def by auto
qed

lemma run_bound:
  assumes "tracks lo past s" "sorted (lo # map at es)" "run_all ok step es s"
  shows "length (filter (\<lambda>g. g \<le> t \<and> in_window window t g) (past @ grant_log grants at step es s)) \<le> limit"
  using assms
proof (induction es arbitrary: lo past s)
  case Nil
  then show ?case by (simp add: tracks_def)
next
  case (Cons e es)
  have lo: "lo \<le> at e" and srt: "sorted (at e # map at es)" using Cons.prems(2) by auto
  have ok: "ok e s" "run_all ok step es (step e s)" using Cons.prems(3) by auto
  show ?case
  proof (cases "grants e s")
    case True
    from Cons.IH [OF tracks_granted [OF Cons.prems(1) lo ok(1) True] srt ok(2)]
    show ?thesis using True by simp
  next
    case False
    from Cons.IH [OF tracks_refused [OF Cons.prems(1) lo ok(1) False] srt ok(2)]
    show ?thesis using False by simp
  qed
qed

theorem rate_bound:
  assumes "times s = []" "sorted (map at es)" "run_all ok step es s"
  shows "length (filter (\<lambda>g. g \<le> t \<and> t - g < window) (grant_log grants at step es s)) \<le> limit"
proof -
  have "tracks 0 [] s" using assms(1) by (simp add: tracks_def)
  moreover have "sorted (0 # map at es)" using assms(2) by simp
  ultimately have "length (filter (\<lambda>g. g \<le> t \<and> in_window window t g) ([] @ grant_log grants at step es s)) \<le> limit"
    using assms(3) by (rule run_bound)
  then show ?thesis by (simp add: in_window_def)
qed

end

section \<open>Logs with a capacity\<close>

locale bounded_log =
  fixes cap :: nat
    and entries :: "'s \<Rightarrow> 'a list"
    and push :: "'e \<Rightarrow> 's \<Rightarrow> 's"
  assumes cap_pos: "0 < cap"
    and pushed:
    "length (entries s) \<le> cap \<Longrightarrow> entries (push e s) = entries s \<or>
     (\<exists>x. entries (push e s) = drop (Suc (length (entries s)) - cap) (entries s @ [x]))"
begin

lemma push_bounded: "length (entries s) \<le> cap \<Longrightarrow> length (entries (push e s)) \<le> cap"
  using pushed [of s e] by auto

lemma run_bounded: "length (entries s) \<le> cap \<Longrightarrow> length (entries (fold push es s)) \<le> cap"
  by (induction es arbitrary: s) (auto dest: push_bounded)

text \<open>Only the oldest entries are ever dropped.\<close>

lemma push_keeps_recent:
  assumes "length (entries s) \<le> cap"
  shows "\<exists>d added. entries (push e s) = drop d (entries s) @ added \<and> (d = 0 \<or> length (entries s) = cap)"
proof -
  from pushed [OF assms, of e] show ?thesis
  proof
    assume "entries (push e s) = entries s"
    then show ?thesis by (intro exI [of _ 0] exI [of _ "[]"]) simp
  next
    assume "\<exists>x. entries (push e s) = drop (Suc (length (entries s)) - cap) (entries s @ [x])"
    then obtain x where x: "entries (push e s) = drop (Suc (length (entries s)) - cap) (entries s @ [x])"
      by blast
    have "Suc (length (entries s)) - cap \<le> length (entries s)" using cap_pos by simp
    then have "entries (push e s) = drop (Suc (length (entries s)) - cap) (entries s) @ [x]"
      using x by simp
    moreover have "Suc (length (entries s)) - cap = 0 \<or> length (entries s) = cap"
      using assms by linarith
    ultimately show ?thesis by blast
  qed
qed

end

section \<open>Logs that refuse what they still hold\<close>

definition lastn :: "nat \<Rightarrow> 'a list \<Rightarrow> 'a list" where
  "lastn n xs = drop (length xs - n) xs"

lemma lastn_short [simp]: "length xs \<le> n \<Longrightarrow> lastn n xs = xs"
  by (simp add: lastn_def)

lemma length_lastn [simp]: "length (lastn n xs) = min n (length xs)"
  by (auto simp: lastn_def)

lemma lastn_append [simp]: "lastn n (lastn n xs @ ys) = lastn n (xs @ ys)"
proof (cases "length xs \<le> n")
  case False
  then show ?thesis by (simp add: lastn_def) (metis Nat.diff_add_assoc2 add.commute drop_drop nat_le_linear)
qed simp

lemma set_lastn: "set (lastn n xs) \<subseteq> set xs"
  by (auto simp: lastn_def dest: in_set_dropD)

lemma lastn_mem: "length ys < n \<Longrightarrow> x \<in> set (lastn n (xs @ x # ys))"
  by (auto simp: lastn_def)

fun event_log :: "('e \<Rightarrow> 's \<Rightarrow> 'a list) \<Rightarrow> ('e \<Rightarrow> 's \<Rightarrow> 's) \<Rightarrow> 'e list \<Rightarrow> 's \<Rightarrow> 'a list" where
  "event_log log step [] s = []"
| "event_log log step (e # es) s = log e s @ event_log log step es (step e s)"

locale dedup_log =
  fixes cap :: nat
    and ready :: "'s \<Rightarrow> bool"
    and entries :: "'s \<Rightarrow> 'a list"
    and log :: "'e \<Rightarrow> 's \<Rightarrow> 'a list"
    and step :: "'e \<Rightarrow> 's \<Rightarrow> 's"
  assumes ready_step: "ready s \<Longrightarrow> ready (step e s)"
    and logged: "ready s \<Longrightarrow> entries (step e s) = lastn cap (entries s @ log e s)"
    and fresh: "ready s \<Longrightarrow> distinct (log e s) \<and> set (log e s) \<inter> set (entries s) = {}"
begin

text \<open>What is logged is not among the last \<open>cap\<close> entries before it.\<close>

lemma log_fresh:
  assumes "ready s" and "event_log log step es s = ys @ h # zs"
  shows "h \<notin> set (lastn cap (entries s @ ys))"
  using assms
proof (induction es arbitrary: s ys)
  case (Cons e es)
  from Cons.prems(2) have "log e s @ event_log log step es (step e s) = ys @ h # zs" by simp
  then consider b where "log e s = ys @ h # b"
    | ys' where "ys = log e s @ ys'" "event_log log step es (step e s) = ys' @ h # zs"
    by (force simp: append_eq_append_conv2 append_eq_Cons_conv)
  then show ?case
  proof cases
    case 1
    then have "h \<notin> set (entries s @ ys)" using fresh [OF Cons.prems(1), of e] by auto
    then show ?thesis using set_lastn [of cap "entries s @ ys"] by blast
  next
    case 2
    then show ?thesis
      using Cons.IH [OF ready_step [OF Cons.prems(1)] 2(2)] logged [OF Cons.prems(1), of e] by simp
  qed
qed simp

text \<open>An entry is logged again only after \<open>cap\<close> others.\<close>

lemma no_repeat:
  assumes "ready s" and "event_log log step es s = xs @ h # ys @ h # zs"
  shows "cap \<le> length ys"
proof (rule ccontr)
  assume "\<not> cap \<le> length ys"
  then have "h \<in> set (lastn cap ((entries s @ xs) @ h # ys))" by (intro lastn_mem) simp
  moreover have "h \<notin> set (lastn cap (entries s @ xs @ h # ys))"
    using log_fresh [OF assms(1), of es "xs @ h # ys" h zs] assms(2) by simp
  ultimately show False by simp
qed

end

section \<open>Decoders that consume a prefix\<close>

locale prefix_codec =
  fixes enc :: "'a \<Rightarrow> 'b list"
    and next_item :: "'b list \<Rightarrow> ('a \<times> 'b list) option"
    and ok :: "'a \<Rightarrow> bool"
  assumes next_enc: "ok a \<Longrightarrow> next_item (enc a @ rest) = Some (a, rest)"
    and enc_nonempty: "ok a \<Longrightarrow> enc a \<noteq> []"
begin

lemma enc_prefix_free:
  assumes "ok a" "ok b" "enc a @ r = enc b @ r'"
  shows "a = b \<and> r = r'"
proof -
  have "Some (a, r) = next_item (enc a @ r)" by (simp only: next_enc [OF assms(1)])
  also have "\<dots> = Some (b, r')" by (simp only: assms(3) next_enc [OF assms(2)])
  finally show ?thesis by simp
qed

lemma enc_inj: "ok a \<Longrightarrow> ok b \<Longrightarrow> enc a = enc b \<Longrightarrow> a = b"
  using enc_prefix_free [of a b "[]" "[]"] by simp

lemma stream_inj:
  "list_all ok xs \<Longrightarrow> list_all ok ys \<Longrightarrow> concat (map enc xs) = concat (map enc ys) \<Longrightarrow> xs = ys"
proof (induction xs arbitrary: ys)
  case Nil
  then show ?case using enc_nonempty by (cases ys) auto
next
  case (Cons x xs)
  have ne: "enc x \<noteq> []" using Cons.prems(1) enc_nonempty by simp
  then obtain y ys' where ys: "ys = y # ys'" using Cons.prems(3) by (cases ys) auto
  have "x = y \<and> concat (map enc xs) = concat (map enc ys')"
    using Cons.prems unfolding ys by (intro enc_prefix_free) simp_all
  then show ?case using Cons.IH [of ys'] Cons.prems(1,2) unfolding ys by simp
qed

end

section \<open>Numbered assignments\<close>

text \<open>
  An assignment that a platform numbers with increasing revisions: a command is taken when it is newer than what is
  held or comes from another platform, and is left aside otherwise.  Then the order in which commands
  arrive does not matter: what is held in the end is the assignment with the highest revision.
\<close>

lemma Max_absorb:
  assumes "finite S" "a \<le> (b :: nat)"
  shows "Max (insert a (insert b S)) = Max (insert b S)" "Max (insert b (insert a S)) = Max (insert b S)"
proof -
  have "b \<le> Max (insert b S)" using assms(1) by (intro Max_ge) simp_all
  then have "a \<le> Max (insert b S)" using assms(2) by (rule order.trans [rotated])
  then show "Max (insert a (insert b S)) = Max (insert b S)" using assms(1) by (subst Max_insert) simp_all
  then show "Max (insert b (insert a S)) = Max (insert b S)" by (simp only: insert_commute)
qed

locale revisioned =
  fixes step :: "'e \<Rightarrow> 's \<Rightarrow> 's"
    and held_rev :: "'s \<Rightarrow> nat"
    and held_platform :: "'s \<Rightarrow> string"
    and held :: "'s \<Rightarrow> 'c"
    and cmd_ok :: "'e \<Rightarrow> bool"
    and cmd_platform :: "'e \<Rightarrow> string"
    and cmd_rev :: "'e \<Rightarrow> nat"
    and cmd_content :: "'e \<Rightarrow> 'c"
  assumes take_newer: "cmd_ok e \<Longrightarrow> held_rev s < cmd_rev e \<or> held_platform s \<noteq> cmd_platform e \<Longrightarrow>
      held_rev (step e s) = cmd_rev e \<and> held_platform (step e s) = cmd_platform e \<and> held (step e s) = cmd_content e"
    and keep_newest: "cmd_ok e \<Longrightarrow> \<not> (held_rev s < cmd_rev e \<or> held_platform s \<noteq> cmd_platform e) \<Longrightarrow> step e s = s"
    and refuse: "\<not> cmd_ok e \<Longrightarrow> step e s = s"
begin

lemma same_platform_run:
  assumes "held_platform s = p" "\<forall>e\<in>set es. cmd_ok e \<longrightarrow> cmd_platform e = p"
  shows "held_platform (fold step es s) = p
    \<and> held_rev (fold step es s) = Max (insert (held_rev s) (cmd_rev ` {e \<in> set es. cmd_ok e}))
    \<and> (held_rev (fold step es s) = held_rev s \<and> held (fold step es s) = held s
       \<or> (\<exists>e\<in>set es. cmd_ok e \<and> cmd_rev e = held_rev (fold step es s) \<and> held (fold step es s) = cmd_content e))"
  using assms
proof (induction es arbitrary: s)
  case (Cons e es)
  show ?case
  proof (cases "cmd_ok e \<and> held_rev s < cmd_rev e")
    case True
    note t = take_newer [of e s] True
    have IH: "held_platform (step e s) = p" using t Cons.prems by auto
    have "{x \<in> set (e # es). cmd_ok x} = insert e {x \<in> set es. cmd_ok x}" using True by auto
    then have "Max (insert (held_rev s) (cmd_rev ` {x \<in> set (e # es). cmd_ok x}))
        = Max (insert (held_rev (step e s)) (cmd_rev ` {x \<in> set es. cmd_ok x}))"
      using t Max_absorb(1) [of "cmd_rev ` {x \<in> set es. cmd_ok x}" "held_rev s" "cmd_rev e"] by simp
    then show ?thesis using Cons.IH [OF IH] Cons.prems(2) t by auto
  next
    case False
    have same: "step e s = s" using keep_newest [of e s] refuse [of e s] False Cons.prems by (cases "cmd_ok e") auto
    have "Max (insert (held_rev s) (cmd_rev ` {x \<in> set (e # es). cmd_ok x}))
        = Max (insert (held_rev s) (cmd_rev ` {x \<in> set es. cmd_ok x}))"
    proof (cases "cmd_ok e")
      case True
      then have "{x \<in> set (e # es). cmd_ok x} = insert e {x \<in> set es. cmd_ok x}" by auto
      then show ?thesis using False True
        Max_absorb(2) [of "cmd_rev ` {x \<in> set es. cmd_ok x}" "cmd_rev e" "held_rev s"] by simp
    next
      case no: False
      then have "{x \<in> set (e # es). cmd_ok x} = {x \<in> set es. cmd_ok x}" by auto
      then show ?thesis by simp
    qed
    then show ?thesis using Cons.IH [OF Cons.prems(1)] Cons.prems(2) same by auto
  qed
qed simp

text \<open>Distinct revisions: any two orders of the same commands end with the same assignment.\<close>

lemma order_irrelevant:
  assumes "held_platform s = p" "\<forall>e\<in>set es. cmd_ok e \<longrightarrow> cmd_platform e = p"
    and "set es' = set es" "inj_on cmd_rev {e \<in> set es. cmd_ok e}" "\<forall>e\<in>set es. cmd_ok e \<longrightarrow> cmd_rev e \<noteq> held_rev s"
  shows "held (fold step es' s) = held (fold step es s) \<and> held_rev (fold step es' s) = held_rev (fold step es s)"
proof -
  note a = same_platform_run [OF assms(1,2)]
  note b = same_platform_run [OF assms(1), of es', unfolded assms(3), OF assms(2)]
  have r: "held_rev (fold step es' s) = held_rev (fold step es s)" using a b by simp
  have "x = y" if "x \<in> set es" "y \<in> set es" "cmd_ok x" "cmd_ok y" "cmd_rev x = cmd_rev y" for x y
    using assms(4) that by (auto dest: inj_onD)
  then show ?thesis using a b r assms(5) by metis
qed

end

end
