(* ===== verification/Network_Recovery.thy ===== *)
theory Network_Recovery
  imports Json_Value Rust_Net Interfaces
begin

text \<open>
  The opt-in network recovery of \<open>network_recovery.rs\<close>: when probes fail it redials, and
  after enough redials it may reboot the device, within budgets that survive restarts.

  The file of the component is the field \<open>r_flash\<close>; an argument \<open>io\<close> says whether
  \<open>activity::save\<close> succeeds (it replaces the file only by its last step, so a failure
  leaves the old content).  The state of the clock domain (\<open>clock_change_in_progress\<close> and
  \<open>clock_generation\<close>) is passed as \<open>changing\<close> and \<open>gen\<close>, the wall clock as
  \<open>now\<close>.  The URL parser of the \<open>url\<close> crate is the parameter \<open>url_parse\<close>.
\<close>

section \<open>Configuration\<close>

record rec_config =
  rc_enabled :: bool
  rc_interval_seconds :: nat
  rc_failure_threshold :: nat
  rc_cooldown_seconds :: nat
  rc_max_redials :: nat
  rc_reboot_after_failures :: bool
  rc_probe_urls :: "string list"

definition default_probe_urls :: "string list" where
  "default_probe_urls =
     [''https://www.baidu.com/'', ''https://www.qq.com/'', ''https://cp.cloudflare.com/generate_204'']"

definition rec_config_default :: rec_config where
  "rec_config_default =
     \<lparr>rc_enabled = False, rc_interval_seconds = 60, rc_failure_threshold = 3,
      rc_cooldown_seconds = 300, rc_max_redials = 3, rc_reboot_after_failures = False,
      rc_probe_urls = default_probe_urls\<rparr>"

definition trim_start_char :: "char \<Rightarrow> string \<Rightarrow> string" where
  "trim_start_char c s = dropWhile (\<lambda>x. x = c) s"

definition trim_end_char :: "char \<Rightarrow> string \<Rightarrow> string" where
  "trim_end_char c s = rev (dropWhile (\<lambda>x. x = c) (rev s))"

definition public_host_ip :: "ip_addr \<Rightarrow> bool" where
  "public_host_ip ip =
     (case ip of
        V4 v \<Rightarrow> \<not> (v4_private v \<or> v4_loopback v \<or> v4_link_local v \<or> v4_unspecified v
                  \<or> v4_broadcast v \<or> v4_multicast v
                  \<or> (v ! 0 = 100 \<and> 64 \<le> v ! 1 \<and> v ! 1 < 128))
      | V6 v \<Rightarrow> \<not> (v6_loopback v \<or> v6_unspecified v \<or> v6_multicast v
                  \<or> and (v ! 0) 65024 = 64512 \<or> and (v ! 0) 65472 = 65152))"

definition private_suffixes :: "string list" where
  "private_suffixes = [''localhost'', ''local'', ''lan'', ''internal'', ''home.arpa'']"

definition public_host :: "string \<Rightarrow> bool" where
  "public_host host0 =
     (let host = trim_end_char (CHR '']'') (trim_start_char (CHR ''['') host0)
      in case parse_ip host of
           Some ip \<Rightarrow> public_host_ip ip
         | None \<Rightarrow>
             (let h = to_ascii_lowercase host
              in str_contains ''.'' h \<and> \<not> ends_with ''.'' h
                 \<and> \<not> list_ex (\<lambda>p. h = p \<or> ends_with (CHR ''.'' # p) h) private_suffixes))"

definition valid_probe_url :: "(string \<Rightarrow> url option) \<Rightarrow> string \<Rightarrow> bool" where
  "valid_probe_url url_parse raw =
     (if length raw > 200 \<or> list_ex (\<lambda>b. is_ascii_control b \<or> is_ascii_whitespace b) raw then False
      else (case url_parse raw of
              None \<Rightarrow> False
            | Some u \<Rightarrow>
                url_scheme u = ''https'' \<and> url_username u = [] \<and> url_password u = None
                \<and> url_query u = None \<and> url_fragment u = None
                \<and> (url_port u = None \<or> url_port u = Some 443)
                \<and> (case url_host_str u of Some h \<Rightarrow> public_host h | None \<Rightarrow> False)))"

fun probe_urls_ok :: "(string \<Rightarrow> url option) \<Rightarrow> string list \<Rightarrow> string list \<Rightarrow> bool" where
  "probe_urls_ok url_parse seen [] = True"
| "probe_urls_ok url_parse seen (u # us) =
     (valid_probe_url url_parse u \<and> to_ascii_lowercase u \<notin> set seen
      \<and> probe_urls_ok url_parse (to_ascii_lowercase u # seen) us)"

definition rec_config_valid :: "(string \<Rightarrow> url option) \<Rightarrow> rec_config \<Rightarrow> bool" where
  "rec_config_valid url_parse c \<longleftrightarrow>
     rc_interval_seconds c \<in> {30, 60, 120}
     \<and> 3 \<le> rc_failure_threshold c \<and> rc_failure_threshold c \<le> 10
     \<and> 180 \<le> rc_cooldown_seconds c \<and> rc_cooldown_seconds c \<le> 3600
     \<and> 1 \<le> rc_max_redials c \<and> rc_max_redials c \<le> 5
     \<and> 1 \<le> length (rc_probe_urls c) \<and> length (rc_probe_urls c) \<le> 4
     \<and> probe_urls_ok url_parse [] (rc_probe_urls c)"

definition probe_hosts :: "(string \<Rightarrow> url option) \<Rightarrow> rec_config \<Rightarrow> string list" where
  "probe_hosts url_parse c = List.map_filter (\<lambda>raw. Option.bind (url_parse raw) url_host_str) (rc_probe_urls c)"

definition network_action :: "string \<Rightarrow> bool" where
  "network_action action \<longleftrightarrow>
     action \<in> set [''cellular.connect'', ''cellular.disconnect'', ''cellular.set'',
       ''network.set_mode'', ''sim.set_slot'', ''device.reboot'', ''device.poweroff'']
     \<or> starts_with ''band.'' action \<or> starts_with ''cell.'' action
     \<or> action \<in> set [''apn.set_mode'', ''apn.add'', ''apn.modify'', ''apn.delete'', ''apn.enable'']"

section \<open>State\<close>

record rec_stored =
  st_config :: rec_config
  st_paused :: bool
  st_redials :: nat
  st_next_allowed :: nat
  st_last_reboot :: nat
  st_action_times :: "nat list"

definition rec_stored_default :: rec_stored where
  "rec_stored_default =
     \<lparr>st_config = rec_config_default, st_paused = False, st_redials = 0, st_next_allowed = 0,
      st_last_reboot = 0, st_action_times = []\<rparr>"

record recovery =
  r_flash :: "rec_stored disk"
  r_stored :: rec_stored
  r_generation :: nat
  r_failures :: nat
  r_successes :: nat
  r_status :: string
  r_last_check :: nat
  r_storage_ok :: bool
  r_startup_until :: nat
  r_last_manual_check :: nat
  r_clock_generation :: nat

record plan =
  plan_generation :: nat
  plan_reboot :: bool

definition rec_stored_valid :: "(string \<Rightarrow> url option) \<Rightarrow> rec_stored \<Rightarrow> bool" where
  "rec_stored_valid url_parse s \<longleftrightarrow>
     rec_config_valid url_parse (st_config s) \<and> st_redials s \<le> 5 \<and> length (st_action_times s) \<le> 5"

definition recovery_load :: "(string \<Rightarrow> url option) \<Rightarrow> nat \<Rightarrow> nat \<Rightarrow> rec_stored disk \<Rightarrow> recovery" where
  "recovery_load url_parse now gen f =
     (let loaded = (case f of Holds s \<Rightarrow> if rec_stored_valid url_parse s then Some s else None | _ \<Rightarrow> None)
      in \<lparr>r_flash = f,
          r_stored = (case loaded of Some s \<Rightarrow> s | None \<Rightarrow> rec_stored_default),
          r_generation = 0, r_failures = 0, r_successes = 0, r_status = ''disabled'', r_last_check = 0,
          r_storage_ok = (loaded \<noteq> None \<or> f = Missing),
          r_startup_until = wadd64 now 120, r_last_manual_check = 0, r_clock_generation = gen\<rparr>)"

section \<open>Operations\<close>

definition rec_store :: "bool \<Rightarrow> rec_stored \<Rightarrow> recovery \<Rightarrow> bool \<times> recovery" where
  "rec_store io next r =
     (if \<not> io then (False, r\<lparr>r_storage_ok := False, r_status := ''storage_failed''\<rparr>)
      else (True, r\<lparr>r_flash := Holds next, r_stored := next, r_storage_ok := True\<rparr>))"

definition reserve_check :: "nat \<Rightarrow> recovery \<Rightarrow> bool \<times> recovery" where
  "reserve_check now r =
     (if r_last_manual_check r \<noteq> 0 \<and> now - r_last_manual_check r < 10 then (False, r)
      else (True, r\<lparr>r_last_manual_check := now\<rparr>))"

definition bump_generation :: "recovery \<Rightarrow> recovery" where
  "bump_generation r = r\<lparr>r_generation := wadd64 (r_generation r) 1, r_failures := 0, r_status := ''waiting''\<rparr>"

definition recovery_update ::
  "(string \<Rightarrow> url option) \<Rightarrow> bool \<Rightarrow> rec_config \<Rightarrow> nat \<Rightarrow> recovery \<Rightarrow> (string + unit) \<times> recovery" where
  "recovery_update url_parse io c now r =
     (if \<not> rec_config_valid url_parse c then (Inl ''invalid_recovery_config'', r)
      else
        let next = (r_stored r)\<lparr>st_config := c,
                     st_next_allowed := max (st_next_allowed (r_stored r)) (wadd64 now 120)\<rparr>;
            (ok, r1) = rec_store io next r
        in if \<not> ok then (Inl ''storage_failed'', r1) else (Inr (), bump_generation r1))"

definition recovery_resume :: "bool \<Rightarrow> nat \<Rightarrow> recovery \<Rightarrow> (string + unit) \<times> recovery" where
  "recovery_resume io now r =
     (let next = (r_stored r)\<lparr>st_paused := False, st_redials := 0,
                   st_next_allowed := max (st_next_allowed (r_stored r)) (wadd64 now 120)\<rparr>;
          (ok, r1) = rec_store io next r
      in if \<not> ok then (Inl ''storage_failed'', r1) else (Inr (), bump_generation r1))"

definition manual_paused :: "string \<Rightarrow> bool \<Rightarrow> bool" where
  "manual_paused action paused =
     (if action = ''cellular.disconnect'' \<or> action = ''device.poweroff'' then True
      else if action = ''cellular.connect'' then False else paused)"

definition manual_intent :: "bool \<Rightarrow> string \<Rightarrow> nat \<Rightarrow> recovery \<Rightarrow> (string + unit) \<times> recovery" where
  "manual_intent io action now r =
     (let next = (r_stored r)\<lparr>st_paused := manual_paused action (st_paused (r_stored r)),
                   st_next_allowed := max (st_next_allowed (r_stored r)) (wadd64 now 120)\<rparr>;
          (ok, r1) = (if st_paused next \<noteq> st_paused (r_stored r) \<or> rc_enabled (st_config (r_stored r))
                      then rec_store io next r else (True, r))
      in if \<not> ok then (Inl ''storage_failed'', r1) else (Inr (), bump_generation r1))"

text \<open>The part of \<open>may_probe\<close> that follows a corrected wall clock.\<close>

definition clock_corrected :: "bool \<Rightarrow> nat \<Rightarrow> nat \<Rightarrow> recovery \<Rightarrow> bool \<times> recovery" where
  "clock_corrected io gen now r =
     (if r_clock_generation r = gen then (True, r)
      else
        let s = r_stored r;
            next = s\<lparr>st_action_times := map (\<lambda>_. now) (st_action_times s),
                     st_last_reboot := (if st_last_reboot s \<noteq> 0 then now else st_last_reboot s),
                     st_next_allowed := sat_add64 now (rc_cooldown_seconds (st_config s))\<rparr>;
            (ok, r1) = rec_store io next r
        in if \<not> ok then (False, r1)
           else (True, r1\<lparr>r_clock_generation := gen, r_generation := wadd64 (r_generation r1) 1,
                          r_startup_until := sat_add64 now 120, r_failures := 0, r_successes := 0\<rparr>))"

definition may_probe :: "bool \<Rightarrow> bool \<Rightarrow> nat \<Rightarrow> nat \<Rightarrow> recovery \<Rightarrow> bool \<times> recovery" where
  "may_probe io changing gen now r0 =
     (if changing then (False, r0\<lparr>r_status := ''clock_unavailable''\<rparr>)
      else
        let (ok, r) = clock_corrected io gen now r0 in
        if \<not> ok then (False, r)
        else if \<not> rc_enabled (st_config (r_stored r)) \<or> st_paused (r_stored r) \<or> \<not> r_storage_ok r
        then (False, r)
        else if now < 1704067200 \<or> list_ex (\<lambda>t. now < t) (st_action_times (r_stored r))
                \<or> now < st_last_reboot (r_stored r)
        then (False, r\<lparr>r_status := ''clock_unavailable''\<rparr>)
        else if now < r_startup_until r then (False, r\<lparr>r_status := ''waiting''\<rparr>)
        else (True, r))"

definition recovery_hold :: "recovery \<Rightarrow> recovery" where
  "recovery_hold r = r\<lparr>r_failures := 0, r_successes := 0, r_status := ''waiting_cellular''\<rparr>"

definition observe_online :: "bool \<Rightarrow> recovery \<Rightarrow> recovery" where
  "observe_online io r =
     (let r1 = r\<lparr>r_failures := 0, r_successes := (r_successes r + 1) mod 2 ^ 32, r_status := ''online''\<rparr>
      in if 2 \<le> r_successes r1 \<and> 0 < st_redials (r_stored r1)
         then snd (rec_store io ((r_stored r1)\<lparr>st_redials := 0\<rparr>) r1)
         else r1)"

definition observe_offline :: "bool \<Rightarrow> nat \<Rightarrow> recovery \<Rightarrow> plan option \<times> recovery" where
  "observe_offline io now r0 =
     (let r = r0\<lparr>r_successes := 0, r_failures := min (r_failures r0 + 1) (2 ^ 32 - 1), r_status := ''offline''\<rparr>;
          s = r_stored r
      in if r_failures r < rc_failure_threshold (st_config s) then (None, r)
         else if now < st_next_allowed s then (None, r\<lparr>r_status := ''cooldown''\<rparr>)
         else
           let recent = filter (\<lambda>t. now - t < 3600) (st_action_times s);
               reboot = (rc_max_redials (st_config s) \<le> st_redials s)
           in if 5 \<le> length recent then (None, r\<lparr>r_status := ''limit_reached''\<rparr>)
              else if reboot \<and> (\<not> rc_reboot_after_failures (st_config s)
                                \<or> (st_last_reboot s \<noteq> 0 \<and> now - st_last_reboot s < 21600))
              then (None, r\<lparr>r_status := ''limit_reached''\<rparr>)
              else
                let next = s\<lparr>st_action_times := recent @ [now],
                             st_next_allowed := wadd64 now (rc_cooldown_seconds (st_config s)),
                             st_last_reboot := (if reboot then now else st_last_reboot s),
                             st_redials := (if reboot then st_redials s else st_redials s + 1)\<rparr>;
                    (ok, r1) = rec_store io next r
                in if \<not> ok then (None, r1)
                   else (Some \<lparr>plan_generation = r_generation r1, plan_reboot = reboot\<rparr>,
                         r1\<lparr>r_failures := 0,
                            r_status := (if reboot then ''rebooting'' else ''redialing'')\<rparr>))"

definition recovery_observe ::
  "bool \<Rightarrow> bool \<Rightarrow> bool \<Rightarrow> nat \<Rightarrow> bool \<Rightarrow> nat \<Rightarrow> recovery \<Rightarrow> plan option \<times> recovery" where
  "recovery_observe io1 io2 changing gen online now r0 =
     (let (ok, r) = may_probe io1 changing gen now r0
      in if \<not> ok then (None, r)
         else
           let r1 = r\<lparr>r_last_check := now\<rparr>
           in if online then (None, observe_online io2 r1) else observe_offline io2 now r1)"

definition allows :: "plan \<Rightarrow> recovery \<Rightarrow> bool" where
  "allows p r \<longleftrightarrow>
     r_storage_ok r \<and> rc_enabled (st_config (r_stored r)) \<and> \<not> st_paused (r_stored r)
     \<and> r_generation r = plan_generation p"

section \<open>Who may be recovered\<close>

definition cellular_kinds :: "string list" where
  "cellular_kinds = [''LTE'', ''5G'', ''SA'', ''NSA'', ''NR'', ''NR5G'', ''NR5G-SA'', ''NR5G-NSA'',
     ''LTE+NR'', ''WCDMA'', ''UMTS'', ''HSPA'', ''4G'', ''3G'']"

definition eligible :: "snapshot \<Rightarrow> nat \<Rightarrow> bool" where
  "eligible snapshot now =
     (if snap_ts snapshot \<le> 0 \<or> \<bar>int now - snap_ts snapshot\<bar> > 30 then False
      else
        let net = (case map_of (snap_fields snapshot) ''net'' of Some v \<Rightarrow> v | None \<Rightarrow> JNull);
            kind = map to_ascii_upper
              (case Option.bind (jget net ''type'') as_str of Some s \<Rightarrow> s | None \<Rightarrow> [])
        in if jget net ''radio_off'' = Some (JBool True) then False
           else list_ex (\<lambda>v. kind = v \<or> starts_with (v @ ''_'') kind) cellular_kinds)"

text \<open>\<open>any_reachable\<close>: \<open>order\<close> lists the URLs in the order their checks complete.\<close>

fun any_reachable :: "(string \<Rightarrow> bool) \<Rightarrow> string list \<Rightarrow> bool" where
  "any_reachable check [] = False"
| "any_reachable check (u # order) = (if check u then True else any_reachable check order)"

section \<open>What the panel sees\<close>

definition rec_config_json :: "rec_config \<Rightarrow> json" where
  "rec_config_json c = jobj
     [(''enabled'', JBool (rc_enabled c)), (''interval_seconds'', jint (int (rc_interval_seconds c))),
      (''failure_threshold'', jint (int (rc_failure_threshold c))),
      (''cooldown_seconds'', jint (int (rc_cooldown_seconds c))),
      (''max_redials'', jint (int (rc_max_redials c))),
      (''reboot_after_failures'', JBool (rc_reboot_after_failures c)),
      (''probe_urls'', JArray (map JString (rc_probe_urls c)))]"

definition recovery_view :: "(string \<Rightarrow> url option) \<Rightarrow> recovery \<Rightarrow> json" where
  "recovery_view url_parse r = jobj
     [(''config'', rec_config_json (st_config (r_stored r))),
      (''status'', JString (if \<not> r_storage_ok r then ''storage_failed''
         else if \<not> rc_enabled (st_config (r_stored r)) then ''disabled''
         else if st_paused (r_stored r) then ''manual_pause'' else r_status r)),
      (''consecutive_failures'', jint (int (r_failures r))),
      (''redials'', jint (int (st_redials (r_stored r)))),
      (''last_check'', jint (int (r_last_check r))),
      (''next_allowed'', jint (int (max (st_next_allowed (r_stored r)) (r_startup_until r)))),
      (''manual_paused'', JBool (st_paused (r_stored r))),
      (''storage_ok'', JBool (r_storage_ok r)),
      (''probe_hosts'', JArray (map JString (probe_hosts url_parse (st_config (r_stored r))))),
      (''hourly_action_limit'', jint 5),
      (''reboot_cooldown_seconds'', jint 21600)]"

section \<open>Calls as steps\<close>

text \<open>
  The calls the daemon makes on a \<open>Recovery\<close>, each with the wall clock it is made at; the
  booleans are the outcomes of the file writes and the observations of the environment.
\<close>

datatype rec_event =
    RUpdate bool rec_config
  | RResume bool
  | RManual bool string
  | RProbe bool bool nat
  | RObserve bool bool bool nat bool
  | RHold
  | RReserve

fun rec_step :: "(string \<Rightarrow> url option) \<Rightarrow> nat \<times> rec_event \<Rightarrow> recovery \<Rightarrow> recovery" where
  "rec_step up (now, RUpdate io c) r = snd (recovery_update up io c now r)"
| "rec_step up (now, RResume io) r = snd (recovery_resume io now r)"
| "rec_step up (now, RManual io a) r = snd (manual_intent io a now r)"
| "rec_step up (now, RProbe io ch gen) r = snd (may_probe io ch gen now r)"
| "rec_step up (now, RObserve io1 io2 ch gen online) r = snd (recovery_observe io1 io2 ch gen online now r)"
| "rec_step up (now, RHold) r = recovery_hold r"
| "rec_step up (now, RReserve) r = snd (reserve_check now r)"

text \<open>The call hands out a plan.\<close>

fun rec_grants :: "nat \<times> rec_event \<Rightarrow> recovery \<Rightarrow> bool" where
  "rec_grants (now, RObserve io1 io2 ch gen online) r =
     (fst (recovery_observe io1 io2 ch gen online now r) \<noteq> None)"
| "rec_grants _ r = False"

text \<open>The call does not notice a corrected wall clock.\<close>

fun rec_same_clock :: "nat \<times> rec_event \<Rightarrow> recovery \<Rightarrow> bool" where
  "rec_same_clock (now, RProbe io ch gen) r = (gen = r_clock_generation r)"
| "rec_same_clock (now, RObserve io1 io2 ch gen online) r = (gen = r_clock_generation r)"
| "rec_same_clock _ r = True"

section \<open>Laws of the operations\<close>

definition committed :: "recovery \<Rightarrow> recovery \<Rightarrow> bool" where
  "committed r r' \<longleftrightarrow> r_stored r' = r_stored r \<and> r_flash r' = r_flash r \<or> r_flash r' = Holds (r_stored r')"

lemma committed_trans: "committed r r1 \<Longrightarrow> committed r1 r2 \<Longrightarrow> committed r r2"
  unfolding committed_def by auto

lemma committed_store: "committed r (snd (rec_store io next r))"
  by (simp add: committed_def rec_store_def)

lemma committed_clock: "committed r (snd (clock_corrected io gen now r))"
  by (auto simp: committed_def clock_corrected_def rec_store_def Let_def)

lemma committed_probe: "committed r (snd (may_probe io ch gen now r))"
proof -
  obtain ok r1 where c: "clock_corrected io gen now r = (ok, r1)" by force
  have "committed r r1" using committed_clock [of r io gen now] c by simp
  then show ?thesis using c by (auto simp: committed_def may_probe_def)
qed

lemma committed_online: "committed r (observe_online io r)"
  by (simp add: committed_def observe_online_def rec_store_def Let_def)

lemma committed_offline: "committed r (snd (observe_offline io now r))"
  by (auto simp: committed_def observe_offline_def rec_store_def Let_def)

lemma committed_observe: "committed r (snd (recovery_observe io1 io2 ch gen online now r))"
proof -
  obtain ok r1 where p: "may_probe io1 ch gen now r = (ok, r1)" by force
  have "committed r r1" using committed_probe [of r io1 ch gen now] p by simp
  moreover have "committed r1 (observe_online io2 (r1\<lparr>r_last_check := now\<rparr>))"
    "committed r1 (snd (observe_offline io2 now (r1\<lparr>r_last_check := now\<rparr>)))"
    using committed_online [of "r1\<lparr>r_last_check := now\<rparr>" io2]
      committed_offline [of "r1\<lparr>r_last_check := now\<rparr>" io2 now]
    by (simp_all add: committed_def)
  ultimately show ?thesis using p committed_trans
    by (auto simp: recovery_observe_def Let_def)
qed

lemma committed_rest:
  "committed r (snd (recovery_update up io c now r))" "committed r (snd (recovery_resume io now r))"
  "committed r (snd (manual_intent io a now r))" "committed r (recovery_hold r)"
  "committed r (snd (reserve_check now r))"
  by (auto simp: committed_def recovery_update_def recovery_resume_def manual_intent_def recovery_hold_def
      reserve_check_def rec_store_def bump_generation_def Let_def)

lemma committed_step: "committed r (rec_step up e r)"
  by (cases "(up, e, r)" rule: rec_step.cases)
     (simp_all add: committed_probe committed_observe committed_rest)

lemma valid_probe:
  assumes "rec_stored_valid up (r_stored r)"
  shows "rec_stored_valid up (r_stored (snd (may_probe io ch gen now r)))"
proof -
  have "rec_stored_valid up (r_stored (snd (clock_corrected io gen now r)))"
    using assms by (auto simp: clock_corrected_def rec_store_def rec_stored_valid_def Let_def)
  then show ?thesis using assms by (auto simp: may_probe_def split: prod.splits)
qed

lemma valid_online: "rec_stored_valid up (r_stored r) \<Longrightarrow> rec_stored_valid up (r_stored (observe_online io r))"
  by (auto simp: observe_online_def rec_store_def rec_stored_valid_def Let_def)

lemma valid_offline:
  "rec_stored_valid up (r_stored r) \<Longrightarrow> rec_stored_valid up (r_stored (snd (observe_offline io now r)))"
  by (auto simp: observe_offline_def rec_store_def rec_stored_valid_def rec_config_valid_def Let_def)

lemma valid_observe:
  assumes "rec_stored_valid up (r_stored r)"
  shows "rec_stored_valid up (r_stored (snd (recovery_observe io1 io2 ch gen online now r)))"
proof -
  obtain ok r1 where p: "may_probe io1 ch gen now r = (ok, r1)" by force
  then have "rec_stored_valid up (r_stored r1)"
    using valid_probe [OF assms, of io1 ch gen now] by simp
  then have "rec_stored_valid up (r_stored (r1\<lparr>r_last_check := now\<rparr>))" by simp
  note valid_online [OF this] valid_offline [OF this]
  then show ?thesis using p \<open>rec_stored_valid up (r_stored r1)\<close>
    by (simp add: recovery_observe_def Let_def)
qed

lemma valid_rest:
  assumes "rec_stored_valid up (r_stored r)"
  shows "rec_stored_valid up (r_stored (snd (recovery_update up io c now r)))"
    "rec_stored_valid up (r_stored (snd (recovery_resume io now r)))"
    "rec_stored_valid up (r_stored (snd (manual_intent io a now r)))"
    "rec_stored_valid up (r_stored (recovery_hold r))"
    "rec_stored_valid up (r_stored (snd (reserve_check now r)))"
  using assms
  by (auto simp: recovery_update_def recovery_resume_def manual_intent_def recovery_hold_def
      reserve_check_def rec_store_def bump_generation_def rec_stored_valid_def Let_def)

lemma step_stored_valid:
  "rec_stored_valid up (r_stored r) \<Longrightarrow> rec_stored_valid up (r_stored (rec_step up e r))"
  by (cases "(up, e, r)" rule: rec_step.cases)
     (simp_all add: valid_probe valid_observe valid_rest)

interpretation rec_file: recoverable r_stored r_flash "rec_step up" "rec_stored_valid up"
    "recovery_load up now gen" for up now gen
proof unfold_locales
  show "r_stored (rec_step up e s) = r_stored s \<and> r_flash (rec_step up e s) = r_flash s
      \<or> r_flash (rec_step up e s) = Holds (r_stored (rec_step up e s))" for e s
    using committed_step [of s up e] by (simp add: committed_def)
qed (auto simp: recovery_load_def Let_def intro: step_stored_valid)

lemma may_probe_same_clock:
  "gen = r_clock_generation r \<Longrightarrow> \<exists>st. snd (may_probe io ch gen now r) = r\<lparr>r_status := st\<rparr>"
  by (auto simp: may_probe_def clock_corrected_def intro: exI [of _ "r_status r"])

lemma observe_offline_Some:
  assumes "observe_offline io now r = (Some p, r')"
  shows "st_action_times (r_stored r') = filter (in_window 3600 now) (st_action_times (r_stored r)) @ [now]"
    and "length (filter (in_window 3600 now) (st_action_times (r_stored r))) < 5"
    and "r_flash r' = Holds (r_stored r')" and "io"
    and "st_next_allowed (r_stored r') = wadd64 now (rc_cooldown_seconds (st_config (r_stored r)))"
    and "st_config (r_stored r') = st_config (r_stored r)"
    and "\<not> now < st_next_allowed (r_stored r)"
    and "plan_generation p = r_generation r \<and> r_generation r' = r_generation r"
    and "plan_reboot p \<Longrightarrow> rc_max_redials (st_config (r_stored r)) \<le> st_redials (r_stored r)
       \<and> rc_reboot_after_failures (st_config (r_stored r))
       \<and> (st_last_reboot (r_stored r) \<noteq> 0 \<longrightarrow> 21600 \<le> now - st_last_reboot (r_stored r))
       \<and> st_last_reboot (r_stored r') = now"
    and "\<not> plan_reboot p \<Longrightarrow> st_redials (r_stored r) < rc_max_redials (st_config (r_stored r))
       \<and> st_redials (r_stored r') = Suc (st_redials (r_stored r))
       \<and> st_last_reboot (r_stored r') = st_last_reboot (r_stored r)"
    and "rc_failure_threshold (st_config (r_stored r)) \<le> Suc (r_failures r)"
  using assms
  by (auto simp: observe_offline_def rec_store_def in_window_def [abs_def] Let_def split: if_splits)

lemma observe_same_clock:
  assumes "gen = r_clock_generation r"
  shows "\<exists>q. r_stored q = r_stored r \<and> r_generation q = r_generation r \<and> r_failures q = r_failures r
    \<and> (recovery_observe io1 io2 ch gen online now r = (None, q)
       \<or> recovery_observe io1 io2 ch gen online now r = (None, observe_online io2 q)
       \<or> recovery_observe io1 io2 ch gen online now r = observe_offline io2 now q)"
proof -
  obtain ok r1 where p: "may_probe io1 ch gen now r = (ok, r1)" by force
  then obtain st where st: "r1 = r\<lparr>r_status := st\<rparr>"
    using may_probe_same_clock [OF assms, of io1 ch now] by auto
  show ?thesis
  proof (cases ok)
    case True
    then show ?thesis using p st
      by (intro exI [of _ "r1\<lparr>r_last_check := now\<rparr>"]) (simp add: recovery_observe_def Let_def)
  next
    case False
    then show ?thesis using p st
      by (intro exI [of _ r1]) (simp add: recovery_observe_def)
  qed
qed

lemma observe_offline_None:
  "observe_offline io now r = (None, r') \<Longrightarrow> r_stored r' = r_stored r"
  by (auto simp: observe_offline_def rec_store_def Let_def split: if_splits)

lemma observe_online_times: "st_action_times (r_stored (observe_online io r)) = st_action_times (r_stored r)"
  by (simp add: observe_online_def rec_store_def Let_def)

lemma other_times:
  "st_action_times (r_stored (snd (recovery_update up io c now r))) = st_action_times (r_stored r)"
  "st_action_times (r_stored (snd (recovery_resume io now r))) = st_action_times (r_stored r)"
  "st_action_times (r_stored (snd (manual_intent io a now r))) = st_action_times (r_stored r)"
  "r_stored (recovery_hold r) = r_stored r"
  "r_stored (snd (reserve_check now r)) = r_stored r"
  by (auto simp: recovery_update_def recovery_resume_def manual_intent_def recovery_hold_def
      reserve_check_def rec_store_def bump_generation_def Let_def)

lemma step_times_refused:
  assumes "rec_same_clock e r" "\<not> rec_grants e r"
  shows "st_action_times (r_stored (rec_step up e r)) = st_action_times (r_stored r)"
proof (cases "(up, e, r)" rule: rec_step.cases)
  case (4 up' now io ch gen r')
  then show ?thesis using assms may_probe_same_clock [of gen r io ch now] by auto
next
  case (5 up' now io1 io2 ch gen online r')
  then obtain q where "r_stored q = r_stored r"
    "recovery_observe io1 io2 ch gen online now r = (None, q)
     \<or> recovery_observe io1 io2 ch gen online now r = (None, observe_online io2 q)
     \<or> recovery_observe io1 io2 ch gen online now r = observe_offline io2 now q"
    using assms(1) observe_same_clock [of gen r io1 io2 ch online now] by auto
  moreover have "fst (recovery_observe io1 io2 ch gen online now r) = None"
    using 5 assms(2) by simp
  ultimately show ?thesis using 5 observe_offline_None
    by (auto simp: observe_online_times) (metis prod.collapse)
qed (auto simp: other_times)

lemma step_times_granted:
  assumes "rec_same_clock e r" "rec_grants e r"
  shows "st_action_times (r_stored (rec_step up e r))
      = filter (in_window 3600 (fst e)) (st_action_times (r_stored r)) @ [fst e]
    \<and> length (filter (in_window 3600 (fst e)) (st_action_times (r_stored r))) < 5"
proof -
  obtain now io1 io2 ch gen online where e: "e = (now, RObserve io1 io2 ch gen online)"
    using assms(2) by (cases "(e, r)" rule: rec_grants.cases) auto
  obtain p r' where o: "recovery_observe io1 io2 ch gen online now r = (Some p, r')"
    using assms(2) e by (cases "recovery_observe io1 io2 ch gen online now r") auto
  obtain q where q: "r_stored q = r_stored r" "observe_offline io2 now q = (Some p, r')"
    using observe_same_clock [of gen r io1 io2 ch online now] assms(1) e o by auto
  show ?thesis using observe_offline_Some(1,2) [OF q(2)] q(1) e o by simp
qed

interpretation rec_budget: window_limiter 3600 5 "\<lambda>r. st_action_times (r_stored r)" "rec_step up" fst
    rec_grants rec_same_clock for up
  by unfold_locales (use step_times_granted step_times_refused in blast)+

section \<open>Properties\<close>

text \<open>
  A concrete recovery for the witnesses: enabled, two failures seen, no action yet, three
  redials already used, reboots allowed.
\<close>

definition sample_config :: rec_config where
  "sample_config = rec_config_default\<lparr>rc_enabled := True, rc_reboot_after_failures := True\<rparr>"

definition sample_recovery :: recovery where
  "sample_recovery =
     \<lparr>r_flash = Missing,
      r_stored = rec_stored_default\<lparr>st_config := sample_config, st_redials := 3\<rparr>,
      r_generation = 7, r_failures = 2, r_successes = 0, r_status = ''offline'', r_last_check = 0,
      r_storage_ok = True, r_startup_until = 0, r_last_manual_check = 0, r_clock_generation = 0\<rparr>"

text \<open>A URL parser that knows the three default probe addresses.\<close>

definition sample_url_parse :: "string \<Rightarrow> url option" where
  "sample_url_parse raw =
     (if raw \<in> set default_probe_urls
      then Some \<lparr>url_scheme = ''https'', url_username = [], url_password = None, url_query = None,
                 url_fragment = None, url_port = None,
                 url_host_str = Some (takeWhile (\<lambda>c. c \<noteq> CHR ''/'') (drop 8 raw))\<rparr>
      else None)"

lemmas sample_eval = sample_recovery_def sample_config_def rec_stored_default_def rec_config_default_def
  recovery_observe_def may_probe_def clock_corrected_def observe_offline_def rec_store_def Let_def wadd64_def

text \<open>
  C1: recovery never acts more than five times in any hour.  Take any sequence of calls made
  at non-decreasing wall-clock times, none of which notices a corrected clock, on a recovery
  with no recorded action; then for every instant \<open>t\<close> at most five of the plans that
  \<open>observe\<close> handed out were handed out in the 3600 seconds up to \<open>t\<close>.
\<close>

theorem recovery_rate_limit:
  assumes "st_action_times (r_stored r) = []"
    and "sorted (map fst es)"
    and "run_all rec_same_clock (rec_step up) es r"
  shows "length (filter (\<lambda>g. g \<le> t \<and> t - g < 3600) (grant_log rec_grants fst (rec_step up) es r)) \<le> 5"
  using assms by (rule rec_budget.rate_bound)

theorem recovery_rate_limit_witness:
  "grant_log rec_grants fst (rec_step (\<lambda>_. None))
     [(1800000000::nat, RObserve True True False 0 False), (1800000060, RObserve True True False 0 False)]
     sample_recovery = [1800000000]
   \<and> length (filter (\<lambda>g. g \<le> 1800000060 \<and> 1800000060 - g < 3600)
       (grant_log rec_grants fst (rec_step (\<lambda>_. None))
         [(1800000000::nat, RObserve True True False 0 False), (1800000060, RObserve True True False 0 False)]
         sample_recovery)) \<le> 5"
proof -
  let ?es = "[(1800000000::nat, RObserve True True False 0 False), (1800000060, RObserve True True False 0 False)]"
  have "st_action_times (r_stored sample_recovery) = []" by (simp add: sample_eval)
  moreover have "sorted (map fst ?es)" by simp
  moreover have "run_all rec_same_clock (rec_step (\<lambda>_. None)) ?es sample_recovery" by (simp add: sample_eval)
  ultimately have "length (filter (\<lambda>g. g \<le> 1800000060 \<and> 1800000060 - g < 3600)
      (grant_log rec_grants fst (rec_step (\<lambda>_. None)) ?es sample_recovery)) \<le> 5"
    by (rule recovery_rate_limit)
  moreover have "grant_log rec_grants fst (rec_step (\<lambda>_. None)) ?es sample_recovery = [1800000000]"
    by (simp add: sample_eval)
  ultimately show ?thesis by blast
qed

text \<open>
  C17: the budget reaches the file before a plan is handed out.  When \<open>observe\<close> returns a
  plan, the record in memory is the record in the file, it lists the present action, counts
  the redial or dates the reboot, and forbids the next action for the cooldown period; the
  plan carries the generation of the state it was made in.
\<close>

theorem recovery_budget_on_flash:
  assumes "recovery_observe io1 io2 changing gen online now r = (Some p, r')"
    and "gen = r_clock_generation r"
  shows "r_flash r' = Holds (r_stored r')
    \<and> now \<in> set (st_action_times (r_stored r'))
    \<and> st_next_allowed (r_stored r') = wadd64 now (rc_cooldown_seconds (st_config (r_stored r)))
    \<and> (if plan_reboot p then st_last_reboot (r_stored r') = now
       else st_redials (r_stored r') = Suc (st_redials (r_stored r)))
    \<and> plan_generation p = r_generation r'"
proof -
  obtain q where q: "r_stored q = r_stored r" "observe_offline io2 now q = (Some p, r')"
    using observe_same_clock [OF assms(2), of io1 io2 changing online now] assms(1) by auto
  show ?thesis using observe_offline_Some [OF q(2)] q(1) by simp
qed

theorem recovery_budget_on_flash_witness:
  "\<exists>p r'. recovery_observe True True False 0 False 1800000000 sample_recovery = (Some p, r')
     \<and> plan_reboot p \<and> r_flash r' = Holds (r_stored r') \<and> st_last_reboot (r_stored r') = 1800000000"
proof -
  let ?o = "recovery_observe True True False 0 False 1800000000 sample_recovery"
  have "fst ?o = Some \<lparr>plan_generation = 7, plan_reboot = True\<rparr>" by (simp add: sample_eval)
  then have o: "?o = (Some \<lparr>plan_generation = 7, plan_reboot = True\<rparr>, snd ?o)" by (metis prod.collapse)
  have "0 = r_clock_generation sample_recovery" by (simp add: sample_eval)
  from recovery_budget_on_flash [OF o this] o show ?thesis
    by (intro exI [of _ "\<lparr>plan_generation = 7, plan_reboot = True\<rparr>"] exI [of _ "snd ?o"]) simp
qed

text \<open>
  A reboot is the last resort.  A plan to reboot is only made when the configured number
  of redials is used up, the owner allowed reboots, and the last reboot, if any, is at least
  six hours old; a plan of either kind is only made after the configured number of
  consecutive failures, outside the cooldown, with recovery enabled and not paused.
\<close>

theorem recovery_reboot_guard:
  assumes "recovery_observe io1 io2 changing gen online now r = (Some p, r')"
    and "gen = r_clock_generation r"
  shows "\<not> online \<and> \<not> changing
    \<and> rc_enabled (st_config (r_stored r)) \<and> \<not> st_paused (r_stored r)
    \<and> rc_failure_threshold (st_config (r_stored r)) \<le> Suc (r_failures r)
    \<and> st_next_allowed (r_stored r) \<le> now \<and> r_startup_until r \<le> now
    \<and> (plan_reboot p \<longrightarrow> rc_max_redials (st_config (r_stored r)) \<le> st_redials (r_stored r)
         \<and> rc_reboot_after_failures (st_config (r_stored r))
         \<and> (st_last_reboot (r_stored r) = 0 \<or> 21600 \<le> now - st_last_reboot (r_stored r)))"
proof -
  obtain q where q: "r_stored q = r_stored r" "r_failures q = r_failures r"
      "observe_offline io2 now q = (Some p, r')"
    using observe_same_clock [OF assms(2), of io1 io2 changing online now] assms(1) by auto
  have probe: "fst (may_probe io1 changing gen now r)" "\<not> online"
    using assms(1) by (auto simp: recovery_observe_def Let_def split: prod.splits if_splits)
  show ?thesis
    using observe_offline_Some [OF q(3)] q(1,2) probe assms(2)
    by (auto simp: may_probe_def clock_corrected_def split: if_splits)
qed

theorem recovery_reboot_guard_witness:
  "fst (recovery_observe True True False 0 False 1800000000 sample_recovery)
     = Some \<lparr>plan_generation = 7, plan_reboot = True\<rparr>
   \<and> rc_max_redials (st_config (r_stored sample_recovery)) \<le> st_redials (r_stored sample_recovery)"
proof -
  let ?o = "recovery_observe True True False 0 False 1800000000 sample_recovery"
  have f: "fst ?o = Some \<lparr>plan_generation = 7, plan_reboot = True\<rparr>" by (simp add: sample_eval)
  then have o: "?o = (Some \<lparr>plan_generation = 7, plan_reboot = True\<rparr>, snd ?o)" by (metis prod.collapse)
  have "0 = r_clock_generation sample_recovery" by (simp add: sample_eval)
  from recovery_reboot_guard [OF o this] f show ?thesis by simp
qed

text \<open>
  A restart loses nothing.  Whatever the file held at the first start, after any sequence
  of calls (with any outcomes of the file writes) loading the file again yields the record
  that was in memory, provided the default configuration or the stored one was valid.
\<close>

theorem recovery_restart:
  assumes "rec_stored_valid up (r_stored (recovery_load up now gen f))"
  shows "r_stored (recovery_load up now gen (r_flash (fold (rec_step up) es (recovery_load up now gen f))))
    = r_stored (fold (rec_step up) es (recovery_load up now gen f))"
  using assms by (rule rec_file.restart_from_boot)

theorem recovery_restart_witness:
  "r_stored (recovery_load sample_url_parse 1800000000 0
       (r_flash (rec_step sample_url_parse (1800000000, RManual True ''cellular.disconnect'')
         (recovery_load sample_url_parse 1800000000 0 Corrupt))))
     = r_stored (rec_step sample_url_parse (1800000000, RManual True ''cellular.disconnect'')
         (recovery_load sample_url_parse 1800000000 0 Corrupt))
   \<and> st_paused (r_stored (rec_step sample_url_parse (1800000000, RManual True ''cellular.disconnect'')
         (recovery_load sample_url_parse 1800000000 0 Corrupt)))"
proof -
  have "rec_config_valid sample_url_parse rec_config_default" by code_simp
  then have "rec_stored_valid sample_url_parse (r_stored (recovery_load sample_url_parse 1800000000 0 Corrupt))"
    by (simp add: recovery_load_def rec_stored_valid_def rec_stored_default_def)
  from recovery_restart [OF this, of "[(1800000000, RManual True ''cellular.disconnect'')]"]
  show ?thesis by (auto simp: recovery_load_def manual_intent_def manual_paused_def rec_store_def
        bump_generation_def rec_stored_default_def Let_def)
qed

text \<open>
  A manual action cancels a plan that is still pending.  After a successful
  \<open>manual_intent\<close>, \<open>update\<close> or \<open>resume\<close>, no plan that was allowed before is
  allowed.
\<close>

theorem recovery_stale_plan:
  assumes "allows p r" and "r_generation r < 2 ^ 64"
  shows "(fst (manual_intent io a now r) = Inr () \<longrightarrow> \<not> allows p (snd (manual_intent io a now r)))
    \<and> (fst (recovery_update up io c now r) = Inr () \<longrightarrow> \<not> allows p (snd (recovery_update up io c now r)))
    \<and> (fst (recovery_resume io now r) = Inr () \<longrightarrow> \<not> allows p (snd (recovery_resume io now r)))"
proof -
  have "wadd64 (r_generation r) 1 \<noteq> r_generation r"
    using assms(2) by (cases "r_generation r + 1 = 2 ^ 64") (auto simp: wadd64_def)
  then show ?thesis using assms(1)
    by (auto simp: allows_def manual_intent_def recovery_update_def recovery_resume_def rec_store_def
        bump_generation_def Let_def)
qed

theorem recovery_stale_plan_witness:
  "allows \<lparr>plan_generation = 7, plan_reboot = True\<rparr> sample_recovery
   \<and> \<not> allows \<lparr>plan_generation = 7, plan_reboot = True\<rparr>
       (snd (manual_intent True ''cellular.connect'' 1800000000 sample_recovery))"
proof -
  have a: "allows \<lparr>plan_generation = 7, plan_reboot = True\<rparr> sample_recovery"
    and g: "r_generation sample_recovery < 2 ^ 64"
    by (simp_all add: allows_def sample_eval)
  have "fst (manual_intent True ''cellular.connect'' 1800000000 sample_recovery) = Inr ()"
    by (simp add: manual_intent_def sample_eval)
  then show ?thesis
    using a recovery_stale_plan [OF a g, of True "''cellular.connect''" 1800000000] by blast
qed

end
