(* ===== verification/Calendar.thy ===== *)
theory Calendar
  imports Json_Value
begin

text \<open>
  Dates, times of day and the device clock: \<open>valid_time\<close>, \<open>valid_date\<close> and
  \<open>parse_clock\<close> of \<open>reboot_schedule.rs\<close>, and the copy of \<open>valid_date\<close> in
  \<open>traffic_history.rs\<close>.  The schedulers compare dates as strings; the lemmas here show
  what the accepted strings are and that their order is the order of the calendar.
\<close>

definition slice :: "'a list \<Rightarrow> nat \<Rightarrow> nat \<Rightarrow> 'a list" where
  "slice s i j = take (j - i) (drop i s)"

definition parse_lt :: "nat \<Rightarrow> nat \<Rightarrow> string \<Rightarrow> bool" where
  "parse_lt m n s = (case parse_unsigned m s of Some k \<Rightarrow> k < n | None \<Rightarrow> False)"

definition valid_time :: "string \<Rightarrow> bool" where
  "valid_time v \<longleftrightarrow>
     length v = 5 \<and> v ! 2 = CHR '':''
     \<and> list_all (\<lambda>i. is_ascii_digit (v ! i)) [0, 1, 3, 4]
     \<and> parse_lt 255 24 (slice v 0 2) \<and> parse_lt 255 60 (slice v 3 5)"

definition is_leap :: "nat \<Rightarrow> bool" where
  "is_leap year \<longleftrightarrow> year mod 4 = 0 \<and> (year mod 100 \<noteq> 0 \<or> year mod 400 = 0)"

definition month_days :: "bool \<Rightarrow> nat list" where
  "month_days leap = [31, if leap then 29 else 28, 31, 30, 31, 30, 31, 31, 30, 31, 30, 31]"

definition valid_date :: "string \<Rightarrow> bool" where
  "valid_date v \<longleftrightarrow>
     (if length v \<noteq> 10 \<or> v ! 4 \<noteq> CHR ''-'' \<or> v ! 7 \<noteq> CHR ''-''
         \<or> \<not> list_all (\<lambda>(i, j). list_all is_ascii_digit (slice v i j)) [(0, 4), (5, 7), (8, 10)]
      then False
      else case (parse_unsigned 65535 (slice v 0 4), parse_unsigned 255 (slice v 5 7),
                 parse_unsigned 255 (slice v 8 10)) of
        (Some year, Some month, Some day) \<Rightarrow>
          (if year < 2024 \<or> \<not> (1 \<le> month \<and> month \<le> 12) then False
           else 1 \<le> day \<and> day \<le> month_days (is_leap year) ! (month - 1))
      | _ \<Rightarrow> False)"

text \<open>The same function as it is written again in \<open>traffic_history.rs\<close>.\<close>

definition usage_valid_date :: "string \<Rightarrow> bool" where
  "usage_valid_date v \<longleftrightarrow>
     (if length v \<noteq> 10 \<or> v ! 4 \<noteq> CHR ''-'' \<or> v ! 7 \<noteq> CHR ''-''
         \<or> \<not> list_all (\<lambda>(i, j). list_all is_ascii_digit (slice v i j)) [(0, 4), (5, 7), (8, 10)]
      then False
      else case (parse_unsigned 65535 (slice v 0 4), parse_unsigned 255 (slice v 5 7),
                 parse_unsigned 255 (slice v 8 10)) of
        (Some year, Some month, Some day) \<Rightarrow>
          (if year < 2024 \<or> \<not> (1 \<le> month \<and> month \<le> 12) then False
           else 1 \<le> day \<and> day \<le> month_days (is_leap year) ! (month - 1))
      | _ \<Rightarrow> False)"

record clock =
  ck_date :: string
  ck_time :: string
  ck_offset :: string

definition parse_gt :: "nat \<Rightarrow> nat \<Rightarrow> string \<Rightarrow> bool" where
  "parse_gt m n s = (case parse_unsigned m s of Some k \<Rightarrow> n < k | None \<Rightarrow> False)"

definition parse_clock :: "string \<Rightarrow> clock option" where
  "parse_clock value =
     (case split_whitespace value of
        [date, time, offset] \<Rightarrow>
          (if \<not> valid_date date \<or> \<not> valid_time time \<or> length offset \<noteq> 5
              \<or> offset ! 0 \<notin> {CHR ''+'', CHR ''-''}
              \<or> \<not> list_all is_ascii_digit (drop 1 offset)
              \<or> parse_gt 255 14 (slice offset 1 3) \<or> parse_gt 255 59 (slice offset 3 5)
              \<or> (slice offset 1 3 = ''14'' \<and> slice offset 3 5 \<noteq> ''00'')
           then None
           else Some \<lparr>ck_date = date, ck_time = time, ck_offset = offset\<rparr>)
      | _ \<Rightarrow> None)"

text \<open>
  \<open>local_clock\<close>: the output of \<open>/bin/date\<close> (its exit status and its bytes) is the
  argument; \<open>String::from_utf8\<close> refuses anything but UTF-8.
\<close>

definition local_clock :: "(bool \<times> string) option \<Rightarrow> clock option" where
  "local_clock output =
     (case output of None \<Rightarrow> None
      | Some (success, stdout) \<Rightarrow>
          if \<not> success \<or> length stdout > 64 \<or> \<not> utf8_valid stdout then None
          else parse_clock (trim stdout))"

definition local_date :: "(bool \<times> string) option \<Rightarrow> string option" where
  "local_date output =
     (case output of None \<Rightarrow> None
      | Some (success, stdout) \<Rightarrow>
          if \<not> success \<or> length stdout > 32 \<or> \<not> utf8_valid stdout then None
          else (let date = trim stdout in if usage_valid_date date then Some date else None))"

section \<open>Rendering, for the specification side\<close>

definition dig :: "nat \<Rightarrow> char" where
  "dig n = char_of (48 + n mod 10)"

definition two :: "nat \<Rightarrow> string" where
  "two n = [dig (n div 10), dig n]"

definition four :: "nat \<Rightarrow> string" where
  "four n = [dig (n div 1000), dig (n div 100), dig (n div 10), dig n]"

definition iso_time :: "nat \<Rightarrow> nat \<Rightarrow> string" where
  "iso_time h m = two h @ '':'' @ two m"

definition iso_date :: "nat \<Rightarrow> nat \<Rightarrow> nat \<Rightarrow> string" where
  "iso_date y m d = four y @ ''-'' @ two m @ ''-'' @ two d"

definition civil_date :: "nat \<Rightarrow> nat \<Rightarrow> nat \<Rightarrow> bool" where
  "civil_date y m d \<longleftrightarrow>
     2024 \<le> y \<and> y < 10000 \<and> 1 \<le> m \<and> m \<le> 12 \<and> 1 \<le> d \<and> d \<le> month_days (is_leap y) ! (m - 1)"

lemma cval_dig [simp]: "cval (dig n) = 48 + n mod 10"
  by (simp add: dig_def cval_def)

lemma is_ascii_digit_dig [simp]: "is_ascii_digit (dig n)"
  by (simp add: is_ascii_digit_def)

lemma digit_dig: "is_ascii_digit c \<Longrightarrow> dig (digit_val c) = c"
proof -
  assume c: "is_ascii_digit c"
  then have "(cval c - 48) mod 10 = cval c - 48" by (auto simp: is_ascii_digit_def)
  then show ?thesis using c by (simp add: dig_def digit_val_def is_ascii_digit_def cval_def)
qed

lemma digit_val_less: "is_ascii_digit c \<Longrightarrow> digit_val c < 10"
  by (auto simp: is_ascii_digit_def digit_val_def)

lemma digit_val_dig [simp]: "digit_val (dig n) = n mod 10"
  by (simp add: digit_val_def)

lemma dig_mod: "dig (n mod 10) = dig n"
  by (simp add: dig_def)

lemma drop_plus_digit: "is_ascii_digit c \<Longrightarrow> drop_plus (c # cs) = c # cs"
  by (auto simp: drop_plus_def is_ascii_digit_def cval_def)

lemma parse_two:
  "is_ascii_digit a \<Longrightarrow> is_ascii_digit b \<Longrightarrow>
   parse_unsigned 255 [a, b] = Some (10 * digit_val a + digit_val b)"
  using digit_val_less [of a] digit_val_less [of b]
  by (simp add: parse_unsigned_def drop_plus_digit parse_digits_def digits_val_def)

lemma parse_four:
  "is_ascii_digit a \<Longrightarrow> is_ascii_digit b \<Longrightarrow> is_ascii_digit c \<Longrightarrow> is_ascii_digit d \<Longrightarrow>
   parse_unsigned 65535 [a, b, c, d] =
     Some (1000 * digit_val a + 100 * digit_val b + 10 * digit_val c + digit_val d)"
  using digit_val_less [of a] digit_val_less [of b] digit_val_less [of c] digit_val_less [of d]
  by (simp add: parse_unsigned_def drop_plus_digit parse_digits_def digits_val_def)

text \<open>The decimal digits of a number below 100 and below 10000.\<close>

lemma digits2: "n < 100 \<Longrightarrow> 10 * (n div 10 mod 10) + n mod 10 = (n::nat)"
  using div_mult_mod_eq [of n 10] by simp

lemma digits4:
  assumes "n < (10000::nat)"
  shows "1000 * (n div 1000 mod 10) + 100 * (n div 100 mod 10) + 10 * (n div 10 mod 10) + n mod 10 = n"
proof -
  have d: "n div 100 = n div 10 div 10" "n div 1000 = n div 10 div 10 div 10"
    by (simp_all add: div_mult2_eq [symmetric])
  have "n div 1000 mod 10 = n div 1000" using assms by simp
  then show ?thesis
    using div_mult_mod_eq [of n 10] div_mult_mod_eq [of "n div 10" 10]
      div_mult_mod_eq [of "n div 10 div 10" 10] unfolding d by linarith
qed

lemma digits_of_sum:
  assumes "b < (10::nat)"
  shows "(10 * a + b) div 10 = a" "(10 * a + b) mod 10 = b"
  using assms by simp_all

lemma two_digits:
  "is_ascii_digit a \<Longrightarrow> is_ascii_digit b \<Longrightarrow> two (10 * digit_val a + digit_val b) = [a, b]"
  using digit_val_less [of b] digit_dig [of a] digit_dig [of b]
  by (simp add: two_def dig_def)

lemma four_digits:
  assumes "is_ascii_digit a" "is_ascii_digit b" "is_ascii_digit c" "is_ascii_digit d"
  shows "four (1000 * digit_val a + 100 * digit_val b + 10 * digit_val c + digit_val d) = [a, b, c, d]"
proof -
  note less = assms [THEN digit_val_less]
  have n: "1000 * digit_val a + 100 * digit_val b + 10 * digit_val c + digit_val d
      = 10 * (10 * (10 * digit_val a + digit_val b) + digit_val c) + digit_val d" by simp
  have q: "k div 100 = k div 10 div 10" "k div 1000 = k div 10 div 10 div 10" for k :: nat
    by (simp_all add: div_mult2_eq [symmetric])
  have step: "dig (10 * k + digit_val x) = x" if "is_ascii_digit x" for k x
    using digit_dig [OF that] digits_of_sum(2) [OF digit_val_less [OF that]] by (metis dig_mod)
  show ?thesis
    unfolding n four_def q digits_of_sum(1) [OF less(4)] digits_of_sum(1) [OF less(3)]
      digits_of_sum(1) [OF less(2)]
    by (simp only: step [OF assms(2)] step [OF assms(3)] step [OF assms(4)] digit_dig [OF assms(1)])
qed

lemma list5: "length v = 5 \<longleftrightarrow> (\<exists>a b c d e. v = [a, b, c, d, e])"
  by (auto simp: numeral_eq_Suc length_Suc_conv)

lemma list10: "length v = 10 \<longleftrightarrow> (\<exists>a b c d e f g h i j. v = [a, b, c, d, e, f, g, h, i, j])"
  by (auto simp: numeral_eq_Suc length_Suc_conv)

lemma slice_simps: "slice s i j = take (j - i) (drop i s)"
  by (simp add: slice_def)

lemma valid_time_iff: "valid_time v \<longleftrightarrow> (\<exists>h<24. \<exists>m<60. v = iso_time h m)"
proof
  assume v: "valid_time v"
  then obtain a b c d e where l: "v = [a, b, c, d, e]"
    by (auto simp: valid_time_def list5)
  have dg: "is_ascii_digit a" "is_ascii_digit b" "is_ascii_digit d" "is_ascii_digit e" "c = CHR '':''"
    and lt: "10 * digit_val a + digit_val b < 24" "10 * digit_val d + digit_val e < 60"
    using v l by (auto simp: valid_time_def parse_lt_def slice_def parse_two)
  then show "\<exists>h<24. \<exists>m<60. v = iso_time h m"
    using l two_digits by (intro exI [of _ "10 * digit_val a + digit_val b"] conjI
        exI [of _ "10 * digit_val d + digit_val e"]) (auto simp: iso_time_def)
next
  assume "\<exists>h<24. \<exists>m<60. v = iso_time h m"
  then obtain h m where "h < 24" "m < 60" "v = iso_time h m" by blast
  then show "valid_time v"
    using digits2 [of h] digits2 [of m]
    by (simp add: valid_time_def iso_time_def two_def slice_def parse_lt_def parse_two)
qed

lemma valid_date_iff: "valid_date v \<longleftrightarrow> (\<exists>y m d. civil_date y m d \<and> v = iso_date y m d)"
proof
  assume v: "valid_date v"
  then have "length v = 10" unfolding valid_date_def by presburger
  then obtain a b c d e f g h i j where l: "v = [a, b, c, d, e, f, g, h, i, j]"
    by (auto simp: list10)
  have dg: "is_ascii_digit a" "is_ascii_digit b" "is_ascii_digit c" "is_ascii_digit d"
    "is_ascii_digit f" "is_ascii_digit g" "is_ascii_digit i" "is_ascii_digit j"
    and sep: "e = CHR ''-''" "h = CHR ''-''"
    using v l by (auto simp: valid_date_def slice_def split: if_splits)
  let ?y = "1000 * digit_val a + 100 * digit_val b + 10 * digit_val c + digit_val d"
  let ?m = "10 * digit_val f + digit_val g"
  let ?d = "10 * digit_val i + digit_val j"
  have "civil_date ?y ?m ?d"
    using v l dg [THEN digit_val_less]
    by (auto simp: valid_date_def civil_date_def slice_def parse_two parse_four dg split: if_splits)
  moreover have "v = iso_date ?y ?m ?d"
    using l dg sep by (simp add: iso_date_def four_digits two_digits)
  ultimately show "\<exists>y m d. civil_date y m d \<and> v = iso_date y m d" by blast
next
  assume "\<exists>y m d. civil_date y m d \<and> v = iso_date y m d"
  then obtain y m d where c: "civil_date y m d" and v: "v = iso_date y m d" by blast
  have d31: "d \<le> 31"
    using c by (auto simp: civil_date_def month_days_def nth_Cons' split: if_splits)
  show "valid_date v"
    using c d31 unfolding v civil_date_def
    by (simp add: valid_date_def iso_date_def two_def four_def slice_def parse_two parse_four digits2 digits4)
qed

section \<open>The order of the accepted strings\<close>

lemma less_append_same_length:
  fixes a :: "('a::linorder) list"
  assumes "length a = length a'"
  shows "a @ b < a' @ b' \<longleftrightarrow> a < a' \<or> (a = a' \<and> b < b')"
  using assms by (induction a a' rule: list_induct2) auto

lemma dig_less: "dig a < dig b \<longleftrightarrow> a mod 10 < b mod 10"
  by (simp add: dig_def less_char_def)

lemma dig_eq: "dig a = dig b \<longleftrightarrow> a mod 10 = b mod 10"
  using cval_dig [of a] cval_dig [of b] by (metis add_left_cancel dig_mod)

lemma div10_less: "(a::nat) < b \<longleftrightarrow> a div 10 < b div 10 \<or> a div 10 = b div 10 \<and> a mod 10 < b mod 10"
  using div_mult_mod_eq [of a 10] div_mult_mod_eq [of b 10]
    mod_less_divisor [of 10 a] mod_less_divisor [of 10 b] by (cases "a div 10 = b div 10") linarith+

lemma div10_eq: "(a::nat) = b \<longleftrightarrow> a div 10 = b div 10 \<and> a mod 10 = b mod 10"
  using div_mult_mod_eq [of a 10] div_mult_mod_eq [of b 10] by metis

lemma tens_mod: "n < 100 \<Longrightarrow> n div 10 mod 10 = n div (10::nat)"
  by simp

lemma two_less: "a < 100 \<Longrightarrow> b < 100 \<Longrightarrow> two a < two b \<longleftrightarrow> a < b"
  unfolding two_def Cons_less_Cons dig_less dig_eq div10_less [of a b]
  by (simp only: tens_mod not_less_Nil simp_thms)

lemma two_eq: "a < 100 \<Longrightarrow> b < 100 \<Longrightarrow> two a = two b \<longleftrightarrow> a = b"
  unfolding two_def list.inject dig_eq div10_eq [of a b] by (simp only: tens_mod simp_thms)

lemma four_split: "four n = two (n div 100) @ two n"
  by (simp add: four_def two_def div_mult2_eq [symmetric])

lemma two_mod: "two (n mod 100) = two n"
proof -
  have m: "n mod 100 = 10 * (n div 10 mod 10) + n mod 10"
    using mod_mult2_eq [of n 10 10] by simp
  have "n mod 100 div 10 mod 10 = n div 10 mod 10"
    unfolding m by (subst digits_of_sum(1)) simp_all
  moreover have "n mod 100 mod 10 = n mod 10"
    unfolding m by (subst digits_of_sum(2)) simp_all
  ultimately show ?thesis by (simp add: two_def dig_eq)
qed

lemma four_less: "a < 10000 \<Longrightarrow> b < 10000 \<Longrightarrow> four a < four b \<longleftrightarrow> a < b"
proof -
  assume ab: "a < 10000" "b < 10000"
  have "two a < two b \<longleftrightarrow> a mod 100 < b mod 100"
    using two_less [of "a mod 100" "b mod 100"] by (simp add: two_mod)
  moreover have "two (a div 100) < two (b div 100) \<longleftrightarrow> a div 100 < b div 100"
    "two (a div 100) = two (b div 100) \<longleftrightarrow> a div 100 = b div 100"
    using ab by (simp_all add: two_less two_eq)
  moreover have "a < b \<longleftrightarrow> a div 100 < b div 100 \<or> a div 100 = b div 100 \<and> a mod 100 < b mod 100"
    using div_mult_mod_eq [of a 100] div_mult_mod_eq [of b 100]
      mod_less_divisor [of 100 a] mod_less_divisor [of 100 b] by (cases "a div 100 = b div 100") linarith+
  moreover have "length (two x) = length (two y)" for x y by (simp add: two_def)
  ultimately show ?thesis by (simp add: four_split less_append_same_length)
qed

lemma four_eq: "a < 10000 \<Longrightarrow> b < 10000 \<Longrightarrow> four a = four b \<longleftrightarrow> a = b"
  using four_less [of a b] four_less [of b a] by (metis less_irrefl linorder_neqE_nat)

lemma civil_date_small: "civil_date y m d \<Longrightarrow> y < 10000 \<and> m < 100 \<and> d < 100"
  by (auto simp: civil_date_def month_days_def nth_Cons' split: if_splits)

definition date_before :: "nat \<times> nat \<times> nat \<Rightarrow> nat \<times> nat \<times> nat \<Rightarrow> bool" where
  "date_before = (\<lambda>(y, m, d) (y', m', d'). y < y' \<or> (y = y' \<and> (m < m' \<or> (m = m' \<and> d < d'))))"

lemma iso_date_less:
  assumes "civil_date y m d" "civil_date y' m' d'"
  shows "iso_date y m d < iso_date y' m' d' \<longleftrightarrow> date_before (y, m, d) (y', m', d')"
proof -
  note b = assms [THEN civil_date_small]
  have "length (four y) = length (four y')" "length (two m) = length (two m')"
    by (simp_all add: four_def two_def)
  then show ?thesis
    using b unfolding iso_date_def date_before_def
    by (auto simp: less_append_same_length four_less four_eq two_less two_eq)
qed

lemma usage_valid_date_eq: "usage_valid_date = valid_date"
  by (intro ext) (simp only: usage_valid_date_def valid_date_def)

lemma parse_clock_valid:
  assumes "parse_clock v = Some c"
  shows "valid_date (ck_date c)" "valid_time (ck_time c)"
  using assms by (auto simp: parse_clock_def split: list.splits if_splits)

lemma local_clock_valid:
  assumes "local_clock out = Some c"
  shows "valid_date (ck_date c)" "valid_time (ck_time c)"
  using assms by (auto simp: local_clock_def dest: parse_clock_valid split: option.splits prod.splits if_splits)

lemma valid_date_nonempty: "valid_date d \<Longrightarrow> d \<noteq> []"
  by (auto simp: valid_date_def)

text \<open>A date as the three numbers it denotes.\<close>

definition date_parts :: "string \<Rightarrow> nat \<times> nat \<times> nat" where
  "date_parts v = (digits_val (slice v 0 4), digits_val (slice v 5 7), digits_val (slice v 8 10))"

lemma date_parts_iso: "civil_date y m d \<Longrightarrow> date_parts (iso_date y m d) = (y, m, d)"
proof -
  assume c: "civil_date y m d"
  show ?thesis using civil_date_small [OF c] digits4 [of y] digits2 [of m] digits2 [of d]
    by (simp add: date_parts_def iso_date_def four_def two_def slice_def digits_val_def)
qed

lemma valid_date_parts:
  assumes "valid_date v"
  obtains y m d where "civil_date y m d" "v = iso_date y m d" "date_parts v = (y, m, d)"
  using assms date_parts_iso by (auto simp: valid_date_iff)

lemma valid_date_less:
  assumes "valid_date v" "valid_date w"
  shows "v < w \<longleftrightarrow> date_before (date_parts v) (date_parts w)"
proof -
  obtain y m d where v: "civil_date y m d" "v = iso_date y m d" "date_parts v = (y, m, d)"
    using assms(1) by (rule valid_date_parts)
  obtain y' m' d' where w: "civil_date y' m' d'" "w = iso_date y' m' d'" "date_parts w = (y', m', d')"
    using assms(2) by (rule valid_date_parts)
  show ?thesis unfolding v(3) w(3) unfolding v(2) w(2) by (rule iso_date_less [OF v(1) w(1)])
qed

section \<open>Properties\<close>

text \<open>
  C0: \<open>valid_time\<close> accepts exactly the 1440 strings \<open>HH:MM\<close> of the minutes of a day, and
  \<open>valid_date\<close> exactly the strings \<open>YYYY-MM-DD\<close> of the Gregorian calendar days from 2024
  on (leap years included); the second copy of \<open>valid_date\<close> in the traffic history is the
  same function.
\<close>

theorem clock_strings_characterised:
  "(valid_time v \<longleftrightarrow> (\<exists>h<24. \<exists>m<60. v = iso_time h m))
   \<and> (valid_date v \<longleftrightarrow> (\<exists>y m d. civil_date y m d \<and> v = iso_date y m d))
   \<and> usage_valid_date v = valid_date v"
  using valid_time_iff valid_date_iff by (simp add: usage_valid_date_eq)

text \<open>
  Comparing two accepted dates as strings, which the reboot plan, the task list and the
  traffic history do, compares them as calendar days.
\<close>

theorem date_order_is_calendar_order:
  assumes "valid_date v" and "valid_date w"
  shows "v < w \<longleftrightarrow> date_before (date_parts v) (date_parts w)"
  using assms by (rule valid_date_less)

theorem date_order_is_calendar_order_witness:
  "''2024-02-29'' < ''2025-01-01'' \<and> date_before (2024, 2, 29) (2025, 1, 1)"
proof -
  have "valid_date ''2024-02-29''" "valid_date ''2025-01-01''" by code_simp+
  note o = date_order_is_calendar_order [OF this]
  have "date_parts ''2024-02-29'' = (2024, 2, 29)" "date_parts ''2025-01-01'' = (2025, 1, 1)"
    by code_simp+
  moreover have "date_before (2024, 2, 29) (2025, 1, 1)" by (simp add: date_before_def)
  ultimately show ?thesis using o by simp
qed

end
