(* ===== verification/Reboot_Schedule.thy ===== *)
theory Reboot_Schedule
  imports Calendar Interfaces
begin

text \<open>
  The daily reboot plan of \<open>reboot_schedule.rs\<close>.  Its file is the field
  \<open>sch_flash\<close>; \<open>io\<close> is the outcome of \<open>save\<close>, whose last step is the rename that
  replaces the file.  The output of \<open>/bin/date\<close> and the state of the clock domain are
  arguments.
\<close>

record reboot_stored =
  rb_schema :: nat
  rb_enabled :: bool
  rb_time :: string
  rb_last_attempt_date :: string

definition reboot_stored_default :: reboot_stored where
  "reboot_stored_default =
     \<lparr>rb_schema = 1, rb_enabled = False, rb_time = ''00:00'', rb_last_attempt_date = []\<rparr>"

record reboot_schedule =
  sch_flash :: "reboot_stored disk"
  sch_stored :: reboot_stored
  sch_clock :: "clock option"
  sch_conflict :: bool
  sch_error :: "string option"

definition reboot_stored_valid :: "reboot_stored \<Rightarrow> bool" where
  "reboot_stored_valid v \<longleftrightarrow>
     rb_schema v = 1 \<and> valid_time (rb_time v)
     \<and> (rb_last_attempt_date v = [] \<or> valid_date (rb_last_attempt_date v))"

definition reboot_load :: "clock option \<Rightarrow> reboot_stored disk \<Rightarrow> reboot_schedule" where
  "reboot_load clk f =
     (let (stored, error) =
        (case f of
           Missing \<Rightarrow> (reboot_stored_default, None)
         | Corrupt \<Rightarrow> (reboot_stored_default, Some ''invalid_config'')
         | Holds v \<Rightarrow> if reboot_stored_valid v then (v, None)
                      else (reboot_stored_default, Some ''invalid_config''))
      in \<lparr>sch_flash = f, sch_stored = stored, sch_clock = clk, sch_conflict = False, sch_error = error\<rparr>)"

definition clock_text :: "clock \<Rightarrow> string" where
  "clock_text c = ck_date c @ '' '' @ ck_time c"

definition reboot_status :: "reboot_schedule \<Rightarrow> json" where
  "reboot_status s = jobj
     [(''supported'', JBool True), (''enabled'', JBool (rb_enabled (sch_stored s))),
      (''time'', JString (rb_time (sch_stored s))),
      (''device_time'', jopt (\<lambda>c. JString (clock_text c)) (sch_clock s)),
      (''timezone_offset'', jopt (\<lambda>c. JString (ck_offset c)) (sch_clock s)),
      (''oem_conflict'', JBool (sch_conflict s)),
      (''last_attempt_date'', (if rb_last_attempt_date (sch_stored s) = [] then JNull
         else JString (rb_last_attempt_date (sch_stored s)))),
      (''error'', jopt JString (sch_error s))]"

text \<open>\<open>save\<close> changes the file only.\<close>

definition reboot_save :: "bool \<Rightarrow> reboot_stored \<Rightarrow> reboot_schedule \<Rightarrow> (string + unit) \<times> reboot_schedule" where
  "reboot_save io next s =
     (if io then (Inr (), s\<lparr>sch_flash := Holds next\<rparr>) else (Inl ''schedule_storage_failed'', s))"

definition reboot_set ::
  "bool \<Rightarrow> bool \<Rightarrow> string \<Rightarrow> bool \<Rightarrow> reboot_schedule \<Rightarrow> (string + json) \<times> reboot_schedule" where
  "reboot_set io enabled time conflict s0 =
     (if \<not> valid_time time then (Inl ''invalid_time'', s0)
      else
        let s = s0\<lparr>sch_conflict := conflict\<rparr> in
        if enabled \<and> conflict then (Inl ''oem_schedule_enabled'', s)
        else if enabled \<and> sch_clock s = None then (Inl ''device_clock_unavailable'', s)
        else if rb_enabled (sch_stored s) \<noteq> enabled \<or> rb_time (sch_stored s) \<noteq> time \<or> sch_error s \<noteq> None
        then
          let next = (sch_stored s)\<lparr>rb_enabled := enabled, rb_time := time\<rparr> in
          (case reboot_save io next s of
             (Inl e, s1) \<Rightarrow> (Inl e, s1)
           | (Inr _, s1) \<Rightarrow>
               let s2 = s1\<lparr>sch_stored := next, sch_error := None\<rparr> in (Inr (reboot_status s2), s2))
        else (Inr (reboot_status s), s))"

definition set_environment :: "clock option \<Rightarrow> bool \<Rightarrow> reboot_schedule \<Rightarrow> reboot_schedule" where
  "set_environment clk conflict s = s\<lparr>sch_clock := clk, sch_conflict := conflict\<rparr>"

definition reboot_observe ::
  "bool \<Rightarrow> bool \<Rightarrow> clock option \<Rightarrow> bool \<Rightarrow> reboot_schedule \<Rightarrow> bool \<times> reboot_schedule" where
  "reboot_observe io changing clk conflict s0 =
     (if changing then (False, s0)
      else
        let s = set_environment clk conflict s0 in
        case sch_clock s of
          None \<Rightarrow> (False, s)
        | Some c \<Rightarrow>
            if \<not> rb_enabled (sch_stored s) \<or> conflict \<or> sch_error s \<noteq> None
               \<or> ck_time c \<noteq> rb_time (sch_stored s)
               \<or> (rb_last_attempt_date (sch_stored s) \<noteq> []
                   \<and> ck_date c \<le> rb_last_attempt_date (sch_stored s))
            then (False, s)
            else
              let next = (sch_stored s)\<lparr>rb_last_attempt_date := ck_date c\<rparr> in
              (case reboot_save io next s of
                 (Inl _, s1) \<Rightarrow> (False, s1\<lparr>sch_error := Some ''schedule_storage_failed''\<rparr>)
               | (Inr _, s1) \<Rightarrow> (True, s1\<lparr>sch_stored := next\<rparr>)))"

definition reboot_failed :: "reboot_schedule \<Rightarrow> reboot_schedule" where
  "reboot_failed s = s\<lparr>sch_error := Some ''device_reboot_failed''\<rparr>"

section \<open>Calls as steps, restarts included\<close>

text \<open>The clock of an observation is what \<open>local_clock\<close> makes of the output of \<open>date\<close>.\<close>

datatype sch_event =
    SSet bool bool string bool
  | SObserve bool bool "(bool \<times> string) option" bool
  | SFailed

fun sch_step :: "sch_event \<Rightarrow> reboot_schedule \<Rightarrow> reboot_schedule" where
  "sch_step (SSet io enabled time conflict) s = snd (reboot_set io enabled time conflict s)"
| "sch_step (SObserve io changing out conflict) s = snd (reboot_observe io changing (local_clock out) conflict s)"
| "sch_step SFailed s = reboot_failed s"

datatype life = Call sch_event | Restart "(bool \<times> string) option"

fun life_step :: "life \<Rightarrow> reboot_schedule \<Rightarrow> reboot_schedule" where
  "life_step (Call e) s = sch_step e s"
| "life_step (Restart out) s = reboot_load (local_clock out) (sch_flash s)"

text \<open>The dates for which a life requested a reboot, in order.\<close>

fun fired_date :: "life \<Rightarrow> reboot_schedule \<Rightarrow> string list" where
  "fired_date (Call (SObserve io changing out conflict)) s =
     (if fst (reboot_observe io changing (local_clock out) conflict s)
      then (case local_clock out of Some c \<Rightarrow> [ck_date c] | None \<Rightarrow> [])
      else [])"
| "fired_date _ s = []"

fun fired_dates :: "life list \<Rightarrow> reboot_schedule \<Rightarrow> string list" where
  "fired_dates [] s = []"
| "fired_dates (e # es) s = fired_date e s @ fired_dates es (life_step e s)"

lemma valid_default: "reboot_stored_valid reboot_stored_default"
  by code_simp

lemma sch_commit:
  "sch_stored (sch_step e s) = sch_stored s \<and> sch_flash (sch_step e s) = sch_flash s
   \<or> sch_flash (sch_step e s) = Holds (sch_stored (sch_step e s))"
  by (cases e) (auto simp: reboot_set_def reboot_observe_def reboot_failed_def reboot_save_def
      set_environment_def Let_def split: option.splits)

lemma sch_valid:
  "reboot_stored_valid (sch_stored s) \<Longrightarrow> reboot_stored_valid (sch_stored (sch_step e s))"
  by (cases e) (auto simp: reboot_set_def reboot_observe_def reboot_failed_def reboot_save_def
      set_environment_def reboot_stored_valid_def Let_def dest: local_clock_valid split: option.splits)

lemma load_valid: "reboot_stored_valid (sch_stored (reboot_load clk f))"
  using valid_default by (auto simp: reboot_load_def split: disk.splits)

interpretation sch_file: recoverable sch_stored sch_flash sch_step reboot_stored_valid "reboot_load clk" for clk
  using sch_commit sch_valid by unfold_locales (auto simp: reboot_load_def split: disk.splits prod.splits)

text \<open>What every moment of a life satisfies: the record is valid and a restart would find it.\<close>

definition sch_inv :: "reboot_schedule \<Rightarrow> bool" where
  "sch_inv s \<longleftrightarrow> reboot_stored_valid (sch_stored s)
     \<and> (\<forall>clk. sch_stored (reboot_load clk (sch_flash s)) = sch_stored s)"

lemma sch_inv_load: "sch_inv (reboot_load clk f)"
  by (simp add: sch_inv_def load_valid) (simp add: reboot_load_def split: disk.splits)

lemma sch_inv_step: "sch_inv s \<Longrightarrow> sch_inv (life_step e s)"
proof (cases e)
  case (Call c)
  then show "sch_inv s \<Longrightarrow> ?thesis"
    using sch_valid sch_file.step_loadable by (auto simp: sch_inv_def)
next
  case (Restart out)
  then show "sch_inv s \<Longrightarrow> ?thesis" using sch_inv_load by simp
qed

lemma fired_step:
  assumes "sch_inv s"
  shows "fired_date e s = [] \<and> rb_last_attempt_date (sch_stored (life_step e s)) = rb_last_attempt_date (sch_stored s)
    \<or> (\<exists>d. fired_date e s = [d] \<and> valid_date d \<and> rb_last_attempt_date (sch_stored (life_step e s)) = d
          \<and> (rb_last_attempt_date (sch_stored s) = [] \<or> rb_last_attempt_date (sch_stored s) < d))"
proof (cases e)
  case (Call c)
  then show ?thesis
    by (cases c) (auto simp: reboot_set_def reboot_observe_def reboot_failed_def reboot_save_def
        set_environment_def Let_def dest: local_clock_valid split: option.splits)
next
  case (Restart out)
  then show ?thesis using assms by (simp add: sch_inv_def)
qed

lemma fired_increasing:
  assumes "sch_inv s"
  shows "sorted_wrt (<) (fired_dates es s) \<and> (\<forall>d\<in>set (fired_dates es s). valid_date d
    \<and> (rb_last_attempt_date (sch_stored s) = [] \<or> rb_last_attempt_date (sch_stored s) < d))"
  using assms
proof (induction es arbitrary: s)
  case (Cons e es)
  let ?s = "life_step e s"
  have IH: "sorted_wrt (<) (fired_dates es ?s)"
    "\<forall>d\<in>set (fired_dates es ?s). valid_date d \<and> (rb_last_attempt_date (sch_stored ?s) = []
       \<or> rb_last_attempt_date (sch_stored ?s) < d)"
    using Cons.IH [OF sch_inv_step [OF Cons.prems, of e]] by blast+
  from fired_step [OF Cons.prems, of e] show ?case
  proof
    assume "\<exists>d. fired_date e s = [d] \<and> valid_date d \<and> rb_last_attempt_date (sch_stored ?s) = d
      \<and> (rb_last_attempt_date (sch_stored s) = [] \<or> rb_last_attempt_date (sch_stored s) < d)"
    then show ?thesis using IH valid_date_nonempty by (fastforce intro: less_trans)
  qed (use IH in simp)
qed simp

section \<open>Properties\<close>

text \<open>
  C3: at most one reboot per calendar day, across crashes and restarts.  From any content of
  the file, through any sequence of calls and restarts, with any outcomes of the file writes
  and any outputs of \<open>date\<close>, the dates for which the plan requested a reboot are calendar
  days in strictly increasing order.
\<close>

theorem reboot_once_per_day:
  "sorted_wrt (\<lambda>d d'. date_before (date_parts d) (date_parts d')) (fired_dates es (reboot_load clk f))"
proof -
  note inc = fired_increasing [OF sch_inv_load, of es clk f]
  then have "sorted_wrt (<) (fired_dates es (reboot_load clk f))" by blast
  then show ?thesis
    by (rule sorted_wrt_mono_rel [rotated]) (use inc valid_date_less in blast)
qed

text \<open>
  The date is in the file before the reboot is requested.  \<open>observe\<close> returns true exactly
  when the clock is readable and stands at the planned minute of a day later than the last
  attempt, the plan is enabled, without conflict or error, and the file was written; the file
  then holds the new date.
\<close>

theorem reboot_observe_spec:
  "fst (reboot_observe io changing clk conflict s) \<longleftrightarrow>
     io \<and> \<not> changing \<and> \<not> conflict \<and> sch_error s = None \<and> rb_enabled (sch_stored s)
     \<and> (\<exists>c. clk = Some c \<and> ck_time c = rb_time (sch_stored s)
          \<and> (rb_last_attempt_date (sch_stored s) = [] \<or> rb_last_attempt_date (sch_stored s) < ck_date c)
          \<and> sch_flash (snd (reboot_observe io changing clk conflict s))
              = Holds ((sch_stored s)\<lparr>rb_last_attempt_date := ck_date c\<rparr>))"
  by (auto simp: reboot_observe_def reboot_save_def set_environment_def Let_def not_le split: option.splits)

end
