(* ===== verification/Task_Schedule.thy ===== *)
theory Task_Schedule
  imports Calendar Interfaces
begin

text \<open>
  The task list of \<open>task_schedule.rs\<close>: up to sixteen device actions, each at a minute of
  the day, once or daily.  The file is the field \<open>tks_flash\<close>; a save succeeds when the
  file operations do (\<open>io\<close>) and the encoded record, whose length under
  \<open>serde_json::to_vec\<close> is the parameter \<open>enc_len\<close>, fits the size limit.
\<close>

record task_input =
  ti_id :: string
  ti_time :: string
  ti_repeat_daily :: bool
  ti_action :: string
  ti_params :: json

record task =
  tk_input :: task_input
  tk_last_attempt_date :: string
  tk_has_triggered :: bool
  tk_last_result :: string

record task_stored =
  ts_schema :: nat
  ts_tasks :: "task list"

definition task_stored_default :: task_stored where
  "task_stored_default = \<lparr>ts_schema = 1, ts_tasks = []\<rparr>"

definition max_tasks :: nat where
  "max_tasks = 16"

section \<open>Reviewed actions\<close>

definition one_of :: "json \<Rightarrow> string list \<Rightarrow> bool" where
  "one_of value values = (case as_str value of Some name \<Rightarrow> name \<in> set values | None \<Rightarrow> False)"

definition exact_object :: "json \<Rightarrow> string \<Rightarrow> json option" where
  "exact_object params key =
     (case as_object params of None \<Rightarrow> None
      | Some object \<Rightarrow> if length object = 1 then map_of object key else None)"

definition decimal_parameter :: "json option \<Rightarrow> nat \<Rightarrow> nat \<Rightarrow> nat \<Rightarrow> bool" where
  "decimal_parameter value digits mn mx =
     (case Option.bind value as_str of None \<Rightarrow> False
      | Some text \<Rightarrow> text \<noteq> [] \<and> length text \<le> digits \<and> list_all is_ascii_digit text
          \<and> (case parse_unsigned u64_max text of Some n \<Rightarrow> mn \<le> n \<and> n \<le> mx | None \<Rightarrow> False))"

definition cell_lock_valid :: "json \<Rightarrow> bool \<Rightarrow> bool" where
  "cell_lock_valid params nr =
     (case as_object params of None \<Rightarrow> False
      | Some flds \<Rightarrow>
          length flds = (if nr then 3 else 2)
          \<and> decimal_parameter (map_of flds ''pci'') 4 0 1007
          \<and> decimal_parameter (map_of flds (if nr then ''arfcn'' else ''earfcn'')) 8 1 99999999
          \<and> (\<not> nr \<or> decimal_parameter (map_of flds ''band'') 3 1 999))"

definition sms_text_ok :: "string \<Rightarrow> bool" where
  "sms_text_ok text \<longleftrightarrow>
     trim text \<noteq> []
     \<and> \<not> list_ex (\<lambda>p. cp_control (code_point p) \<and> code_point p \<noteq> 10) (utf8_chars text)
     \<and> length (encode_utf16 text) \<le> 280"

definition scheduled_sms_valid :: "json \<Rightarrow> bool" where
  "scheduled_sms_valid params =
     (case as_object params of None \<Rightarrow> False
      | Some flds \<Rightarrow>
          (if length flds \<noteq> 2 then False
           else case Option.bind (map_of flds ''number'') as_str of None \<Rightarrow> False
           | Some number \<Rightarrow>
               let digits = (case strip_prefix ''+'' number of Some d \<Rightarrow> d | None \<Rightarrow> number) in
               case Option.bind (map_of flds ''text'') as_str of None \<Rightarrow> False
               | Some text \<Rightarrow>
                   3 \<le> length number \<and> length number \<le> 32 \<and> digits \<noteq> []
                   \<and> list_all is_ascii_digit digits \<and> sms_text_ok text))"

definition int_in :: "json option \<Rightarrow> int list \<Rightarrow> bool" where
  "int_in v is = (case Option.bind v as_i64 of Some i \<Rightarrow> i \<in> set is | None \<Rightarrow> False)"

definition action_valid :: "string \<Rightarrow> json \<Rightarrow> bool" where
  "action_valid action params =
     (if action \<in> set [''device.reboot'', ''device.poweroff'', ''sms.forward.device_info'',
                       ''cellular.connect'', ''cellular.disconnect'', ''cell.unlock_all'']
      then as_object params = Some []
      else if action = ''cell.lock_lte'' then cell_lock_valid params False
      else if action = ''cell.lock_nr'' then cell_lock_valid params True
      else if action = ''sms.send_scheduled'' then scheduled_sms_valid params
      else if action = ''cellular.set'' then int_in (exact_object params ''roaming'') [0, 1]
      else if action = ''network.set_mode'' then
        (case exact_object params ''mode'' of None \<Rightarrow> False
         | Some v \<Rightarrow> one_of v [''WL_AND_5G'', ''LTE_AND_5G'', ''Only_5G'', ''WCDMA_AND_LTE'',
                              ''Only_LTE'', ''Only_WCDMA''])
      else if action = ''nfc.set'' then Option.bind (exact_object params ''enabled'') as_bool \<noteq> None
      else if action = ''sim.set_slot'' then int_in (exact_object params ''slot'') [1, 2]
      else if action = ''wifi.set_module'' then int_in (exact_object params ''enabled'') [0, 1]
      else if action = ''wifi.set_chip'' then
        (case as_object params of None \<Rightarrow> False
         | Some flds \<Rightarrow>
             length flds = 2
             \<and> (case Option.bind (map_of flds ''chip'') as_str of
                  Some chip \<Rightarrow> chip = ''chip1'' \<or> chip = ''chip2'' | None \<Rightarrow> False)
             \<and> Option.bind (map_of flds ''guest_enabled'') as_i64 = Some 0)
      else False)"

definition scheduled_sms_params :: "task_input \<Rightarrow> clock \<Rightarrow> json option" where
  "scheduled_sms_params input clk =
     (if ti_action input \<noteq> ''sms.send_scheduled'' \<or> \<not> scheduled_sms_valid (ti_params input)
         \<or> \<not> valid_date (ck_date clk) \<or> \<not> valid_time (ck_time clk)
      then None
      else case (Option.bind (jget (ti_params input) ''number'') as_str,
                 Option.bind (jget (ti_params input) ''text'') as_str) of
        (Some number, Some text) \<Rightarrow>
          let message_hex = concat (map hex4 (encode_utf16 text));
              sms_time = slice (ck_date clk) 2 4 @ '';'' @ slice (ck_date clk) 5 7 @ '';''
                @ slice (ck_date clk) 8 10 @ '';'' @ slice (ck_time clk) 0 2 @ '';''
                @ slice (ck_time clk) 3 5 @ '';00;+;0''
          in Some (jobj [(''sender'', JString ''host''), (''number'', JString number),
                         (''message_hex'', JString message_hex), (''sms_time'', JString sms_time)])
      | _ \<Rightarrow> None)"

definition input_valid :: "task_input \<Rightarrow> bool" where
  "input_valid input \<longleftrightarrow>
     trim (ti_id input) \<noteq> [] \<and> trim (ti_id input) = ti_id input \<and> length (ti_id input) \<le> 80
     \<and> \<not> has_control (ti_id input) \<and> valid_time (ti_time input)
     \<and> action_valid (ti_action input) (ti_params input)"

fun tasks_ok :: "string list \<Rightarrow> task list \<Rightarrow> bool" where
  "tasks_ok seen [] = True"
| "tasks_ok seen (t # ts) =
     (input_valid (tk_input t) \<and> ti_id (tk_input t) \<notin> set seen
      \<and> (tk_last_attempt_date t = [] \<or> valid_date (tk_last_attempt_date t))
      \<and> tk_last_result t \<in> set [[], ''requested'', ''ok'', ''failed'']
      \<and> tasks_ok (ti_id (tk_input t) # seen) ts)"

definition task_stored_valid :: "task_stored \<Rightarrow> bool" where
  "task_stored_valid stored =
     (if ts_schema stored \<noteq> 1 \<or> length (ts_tasks stored) > max_tasks then False
      else tasks_ok [] (ts_tasks stored))"

section \<open>The schedule\<close>

record task_schedule =
  tks_flash :: "task_stored disk"
  tks_stored :: task_stored
  tks_error :: "string option"

definition task_load :: "task_stored disk \<Rightarrow> task_schedule" where
  "task_load f =
     (let (stored, error) =
        (case f of
           Missing \<Rightarrow> (task_stored_default, None)
         | Corrupt \<Rightarrow> (task_stored_default, Some ''invalid_config'')
         | Holds v \<Rightarrow> if task_stored_valid v then (v, None) else (task_stored_default, Some ''invalid_config''))
      in \<lparr>tks_flash = f, tks_stored = stored, tks_error = error\<rparr>)"

definition task_json :: "task \<Rightarrow> json" where
  "task_json t = jobj
     [(''id'', JString (ti_id (tk_input t))), (''time'', JString (ti_time (tk_input t))),
      (''repeat_daily'', JBool (ti_repeat_daily (tk_input t))),
      (''action'', JString (ti_action (tk_input t))), (''params'', ti_params (tk_input t)),
      (''last_attempt_date'', JString (tk_last_attempt_date t)),
      (''has_triggered'', JBool (tk_has_triggered t)), (''last_result'', JString (tk_last_result t))]"

definition task_status :: "clock option \<Rightarrow> task_schedule \<Rightarrow> json" where
  "task_status clk s = jobj
     [(''supported'', JBool True), (''cell_lock_supported'', JBool True), (''sms_send_supported'', JBool True),
      (''device_time'', jopt (\<lambda>c. JString (ck_date c @ '' '' @ ck_time c)) clk),
      (''timezone_offset'', jopt (\<lambda>c. JString (ck_offset c)) clk),
      (''tasks'', JArray (map task_json (ts_tasks (tks_stored s)))),
      (''error'', jopt JString (tks_error s))]"

definition task_save ::
  "(task_stored \<Rightarrow> nat) \<Rightarrow> bool \<Rightarrow> task_stored \<Rightarrow> task_schedule \<Rightarrow> (string + unit) \<times> task_schedule" where
  "task_save enc_len io next s =
     (if io \<and> enc_len next + 1 \<le> 32 * 1024 then (Inr (), s\<lparr>tks_flash := Holds next\<rparr>)
      else (Inl ''task_storage_failed'', s))"

fun update_first :: "('a \<Rightarrow> bool) \<Rightarrow> ('a \<Rightarrow> 'a) \<Rightarrow> 'a list \<Rightarrow> 'a list" where
  "update_first P f [] = []"
| "update_first P f (x # xs) = (if P x then f x # xs else x # update_first P f xs)"

definition with_tasks :: "task_stored \<Rightarrow> task list \<Rightarrow> task_stored" where
  "with_tasks st ts = st\<lparr>ts_tasks := ts\<rparr>"

definition fresh_task :: "task_input \<Rightarrow> task" where
  "fresh_task input =
     \<lparr>tk_input = input, tk_last_attempt_date = [], tk_has_triggered = False, tk_last_result = []\<rparr>"

definition task_upsert ::
  "(task_stored \<Rightarrow> nat) \<Rightarrow> bool \<Rightarrow> clock option \<Rightarrow> task_input \<Rightarrow> task_schedule \<Rightarrow> (string + json) \<times> task_schedule" where
  "task_upsert enc_len io clk input s =
     (if \<not> input_valid input then (Inl ''invalid_task'', s)
      else if clk = None then (Inl ''device_clock_unavailable'', s)
      else
        let tasks = ts_tasks (tks_stored s);
            commit = (\<lambda>next. case task_save enc_len io next s of
                        (Inl e, s1) \<Rightarrow> (Inl e, s1)
                      | (Inr _, s1) \<Rightarrow>
                          let s2 = s1\<lparr>tks_stored := next, tks_error := None\<rparr> in (Inr (task_status clk s2), s2))
        in case find (\<lambda>t. ti_id (tk_input t) = ti_id input) tasks of
             Some t \<Rightarrow>
               if tk_input t = input \<and> tks_error s = None then (Inr (task_status clk s), s)
               else commit (with_tasks (tks_stored s)
                      (update_first (\<lambda>t. ti_id (tk_input t) = ti_id input) (\<lambda>_. fresh_task input) tasks))
           | None \<Rightarrow>
               if length tasks = max_tasks then (Inl ''task_limit'', s)
               else commit (with_tasks (tks_stored s) (tasks @ [fresh_task input])))"

definition task_remove ::
  "(task_stored \<Rightarrow> nat) \<Rightarrow> bool \<Rightarrow> clock option \<Rightarrow> string \<Rightarrow> task_schedule \<Rightarrow> (string + json) \<times> task_schedule" where
  "task_remove enc_len io clk i s =
     (if i = [] \<or> length i > 80 then (Inl ''invalid_task'', s)
      else
        let next = with_tasks (tks_stored s) (filter (\<lambda>t. ti_id (tk_input t) \<noteq> i) (ts_tasks (tks_stored s)))
        in if length (ts_tasks next) = length (ts_tasks (tks_stored s)) then (Inl ''task_not_found'', s)
           else case task_save enc_len io next s of
                  (Inl e, s1) \<Rightarrow> (Inl e, s1)
                | (Inr _, s1) \<Rightarrow>
                    let s2 = s1\<lparr>tks_stored := next, tks_error := None\<rparr> in (Inr (task_status clk s2), s2))"

definition task_due :: "clock \<Rightarrow> task \<Rightarrow> bool" where
  "task_due clk t \<longleftrightarrow>
     ti_time (tk_input t) = ck_time clk
     \<and> (tk_last_attempt_date t = [] \<or> tk_last_attempt_date t < ck_date clk)
     \<and> (ti_repeat_daily (tk_input t) \<or> \<not> tk_has_triggered t)"

definition mark_attempt :: "clock \<Rightarrow> task \<Rightarrow> task" where
  "mark_attempt clk t =
     t\<lparr>tk_last_attempt_date := ck_date clk, tk_last_result := ''requested'',
       tk_has_triggered := (if \<not> ti_repeat_daily (tk_input t) then True else tk_has_triggered t)\<rparr>"

definition task_observe ::
  "(task_stored \<Rightarrow> nat) \<Rightarrow> bool \<Rightarrow> bool \<Rightarrow> clock option \<Rightarrow> task_schedule \<Rightarrow> task_input option \<times> task_schedule" where
  "task_observe enc_len io changing clk s =
     (if changing then (None, s)
      else case clk of None \<Rightarrow> (None, s)
      | Some c \<Rightarrow>
          if tks_error s \<noteq> None then (None, s)
          else case find (task_due c) (ts_tasks (tks_stored s)) of
            None \<Rightarrow> (None, s)
          | Some t \<Rightarrow>
              let next = with_tasks (tks_stored s)
                    (update_first (task_due c) (mark_attempt c) (ts_tasks (tks_stored s)))
              in case task_save enc_len io next s of
                   (Inl _, s1) \<Rightarrow> (None, s1\<lparr>tks_error := Some ''task_storage_failed''\<rparr>)
                 | (Inr _, s1) \<Rightarrow> (Some (tk_input t), s1\<lparr>tks_stored := next\<rparr>))"

definition task_finish ::
  "(task_stored \<Rightarrow> nat) \<Rightarrow> bool \<Rightarrow> string \<Rightarrow> string \<Rightarrow> bool \<Rightarrow> task_schedule \<Rightarrow> task_schedule" where
  "task_finish enc_len io i date success s =
     (let hit = (\<lambda>t. ti_id (tk_input t) = i \<and> tk_last_attempt_date t = date)
      in case find hit (ts_tasks (tks_stored s)) of
           None \<Rightarrow> s
         | Some _ \<Rightarrow>
             let next = with_tasks (tks_stored s)
                   (update_first hit (\<lambda>t. t\<lparr>tk_last_result := (if success then ''ok'' else ''failed'')\<rparr>)
                     (ts_tasks (tks_stored s)))
             in case task_save enc_len io next s of
                  (Inr _, s1) \<Rightarrow> s1\<lparr>tks_stored := next\<rparr>
                | (Inl _, s1) \<Rightarrow> s1\<lparr>tks_error := Some ''task_storage_failed''\<rparr>)"

section \<open>Calls as steps\<close>

datatype task_event =
    TUpsert bool "(bool \<times> string) option" task_input
  | TRemove bool "(bool \<times> string) option" string
  | TObserve bool bool "(bool \<times> string) option"
  | TFinish bool string string bool

fun task_step :: "(task_stored \<Rightarrow> nat) \<Rightarrow> task_event \<Rightarrow> task_schedule \<Rightarrow> task_schedule" where
  "task_step el (TUpsert io out input) s = snd (task_upsert el io (local_clock out) input s)"
| "task_step el (TRemove io out i) s = snd (task_remove el io (local_clock out) i s)"
| "task_step el (TObserve io ch out) s = snd (task_observe el io ch (local_clock out) s)"
| "task_step el (TFinish io i d ok) s = task_finish el io i d ok s"

datatype task_life = TCall task_event | TRestart

fun task_life_step :: "(task_stored \<Rightarrow> nat) \<Rightarrow> task_life \<Rightarrow> task_schedule \<Rightarrow> task_schedule" where
  "task_life_step el (TCall e) s = task_step el e s"
| "task_life_step el TRestart s = task_load (tks_flash s)"

text \<open>The id and the date of a task that the call hands out for execution.\<close>

fun task_fired1 :: "(task_stored \<Rightarrow> nat) \<Rightarrow> task_life \<Rightarrow> task_schedule \<Rightarrow> (string \<times> string) list" where
  "task_fired1 el (TCall (TObserve io ch out)) s =
     (case (fst (task_observe el io ch (local_clock out) s), local_clock out) of
        (Some input, Some c) \<Rightarrow> [(ti_id input, ck_date c)]
      | _ \<Rightarrow> [])"
| "task_fired1 el _ s = []"

fun task_fired :: "(task_stored \<Rightarrow> nat) \<Rightarrow> task_life list \<Rightarrow> task_schedule \<Rightarrow> (string \<times> string) list" where
  "task_fired el [] s = []"
| "task_fired el (e # es) s = task_fired1 el e s @ task_fired el es (task_life_step el e s)"

text \<open>The call neither replaces nor removes the task \<open>i\<close>.\<close>

fun leaves_task :: "string \<Rightarrow> task_life \<Rightarrow> bool" where
  "leaves_task i (TCall (TUpsert io out input)) = (ti_id input \<noteq> i)"
| "leaves_task i (TCall (TRemove io out j)) = (j \<noteq> i)"
| "leaves_task i _ = True"

section \<open>Laws of the operations\<close>

definition task_ok :: "task \<Rightarrow> bool" where
  "task_ok t \<longleftrightarrow> input_valid (tk_input t) \<and> (tk_last_attempt_date t = [] \<or> valid_date (tk_last_attempt_date t))
     \<and> tk_last_result t \<in> set [[], ''requested'', ''ok'', ''failed'']"

definition task_id :: "task \<Rightarrow> string" where
  "task_id t = ti_id (tk_input t)"

lemma tasks_ok_iff:
  "tasks_ok seen ts \<longleftrightarrow> (\<forall>t\<in>set ts. task_ok t) \<and> distinct (map task_id ts)
     \<and> set (map task_id ts) \<inter> set seen = {}"
  by (induction seen ts rule: tasks_ok.induct) (auto simp: task_ok_def task_id_def)

lemma task_stored_valid_iff:
  "task_stored_valid st \<longleftrightarrow> ts_schema st = 1 \<and> length (ts_tasks st) \<le> max_tasks
     \<and> (\<forall>t\<in>set (ts_tasks st). task_ok t) \<and> distinct (map task_id (ts_tasks st))"
  by (auto simp: task_stored_valid_def tasks_ok_iff)

lemma length_update_first [simp]: "length (update_first P f xs) = length xs"
  by (induction xs) auto

lemma map_update_first: "(\<And>x. P x \<Longrightarrow> g (f x) = g x) \<Longrightarrow> map g (update_first P f xs) = map g xs"
  by (induction xs) auto

lemma set_update_first: "x \<in> set (update_first P f xs) \<Longrightarrow> x \<in> set xs \<or> (\<exists>y\<in>set xs. P y \<and> x = f y)"
  by (induction xs) (auto split: if_splits)


lemma with_tasks_simps [simp]: "ts_tasks (with_tasks st ts) = ts" "ts_schema (with_tasks st ts) = ts_schema st"
  by (simp_all add: with_tasks_def)

lemma valid_with_update:
  assumes "task_stored_valid st" "\<And>t. P t \<Longrightarrow> task_ok t \<Longrightarrow> task_ok (f t) \<and> task_id (f t) = task_id t"
  shows "task_stored_valid (with_tasks st (update_first P f (ts_tasks st)))"
proof -
  have ok: "\<forall>t\<in>set (ts_tasks st). task_ok t" using assms(1) by (simp add: task_stored_valid_iff)
  have "map task_id (update_first P f ts) = map task_id ts" if "\<forall>t\<in>set ts. task_ok t" for ts
    using that assms(2) by (induction ts) auto
  moreover have "\<forall>t\<in>set (update_first P f (ts_tasks st)). task_ok t"
    using ok assms(2) by (auto dest!: set_update_first)
  ultimately show ?thesis using assms(1) ok by (simp add: task_stored_valid_iff)
qed

lemma fresh_task_simps [simp]:
  "task_id (fresh_task input) = ti_id input" "task_ok (fresh_task input) = input_valid input"
  "tk_input (fresh_task input) = input"
  by (simp_all add: fresh_task_def task_id_def task_ok_def)

lemma mark_attempt_simps [simp]:
  "task_id (mark_attempt c t) = task_id t" "tk_input (mark_attempt c t) = tk_input t"
  by (simp_all add: mark_attempt_def task_id_def)

lemma upsert_valid:
  assumes "task_stored_valid (tks_stored s)"
  shows "task_stored_valid (tks_stored (snd (task_upsert el io clk input s)))"
proof (cases "input_valid input")
  case True
  have upd: "task_stored_valid (with_tasks (tks_stored s)
      (update_first (\<lambda>t. ti_id (tk_input t) = ti_id input) (\<lambda>_. fresh_task input) (ts_tasks (tks_stored s))))"
    by (rule valid_with_update [OF assms]) (simp add: True task_id_def fresh_task_def task_ok_def)
  have app: "task_stored_valid (with_tasks (tks_stored s) (ts_tasks (tks_stored s) @ [fresh_task input]))"
    if "find (\<lambda>t. ti_id (tk_input t) = ti_id input) (ts_tasks (tks_stored s)) = None"
       "length (ts_tasks (tks_stored s)) \<noteq> max_tasks"
    using assms that True by (auto simp: task_stored_valid_iff find_None_iff task_id_def)
  show ?thesis using assms upd app
    by (auto simp: task_upsert_def task_save_def Let_def split: option.splits)
qed (use assms in \<open>simp add: task_upsert_def\<close>)

lemma remove_valid:
  "task_stored_valid (tks_stored s) \<Longrightarrow> task_stored_valid (tks_stored (snd (task_remove el io clk i s)))"
  by (auto simp: task_remove_def task_save_def task_stored_valid_iff Let_def distinct_map_filter
      intro: order_trans [OF length_filter_le])

lemma observe_valid:
  assumes "task_stored_valid (tks_stored s)" "\<And>c. clk = Some c \<Longrightarrow> valid_date (ck_date c)"
  shows "task_stored_valid (tks_stored (snd (task_observe el io ch clk s)))"
proof -
  have "task_stored_valid (with_tasks (tks_stored s)
      (update_first (task_due c) (mark_attempt c) (ts_tasks (tks_stored s))))" if "clk = Some c" for c
    using assms(2) [OF that]
    by (intro valid_with_update [OF assms(1)]) (auto simp: task_ok_def mark_attempt_def task_id_def)
  then show ?thesis using assms(1)
    by (auto simp: task_observe_def task_save_def Let_def split: option.splits)
qed

lemma finish_valid:
  assumes "task_stored_valid (tks_stored s)"
  shows "task_stored_valid (tks_stored (task_finish el io i d ok s))"
proof -
  have "task_stored_valid (with_tasks (tks_stored s)
      (update_first (\<lambda>t. ti_id (tk_input t) = i \<and> tk_last_attempt_date t = d)
        (\<lambda>t. t\<lparr>tk_last_result := (if ok then ''ok'' else ''failed'')\<rparr>) (ts_tasks (tks_stored s))))"
    by (intro valid_with_update [OF assms]) (auto simp: task_ok_def task_id_def)
  then show ?thesis using assms
    by (auto simp: task_finish_def task_save_def Let_def split: option.splits)
qed

lemma task_step_valid:
  "task_stored_valid (tks_stored s) \<Longrightarrow> task_stored_valid (tks_stored (task_step el e s))"
  by (cases e) (auto simp: upsert_valid remove_valid finish_valid intro!: observe_valid dest: local_clock_valid)

lemma task_commit:
  "tks_stored (task_step el e s) = tks_stored s \<and> tks_flash (task_step el e s) = tks_flash s
   \<or> tks_flash (task_step el e s) = Holds (tks_stored (task_step el e s))"
  by (cases e) (auto simp: task_upsert_def task_remove_def task_observe_def task_finish_def task_save_def Let_def
      split: option.splits)

lemma task_default_valid: "task_stored_valid task_stored_default"
  by (simp add: task_stored_valid_iff task_stored_default_def)

lemma task_load_valid: "task_stored_valid (tks_stored (task_load f))"
  using task_default_valid by (auto simp: task_load_def split: disk.splits)

interpretation task_file: recoverable tks_stored tks_flash "task_step el" task_stored_valid task_load for el
  using task_commit task_step_valid by unfold_locales (auto simp: task_load_def split: disk.splits prod.splits)

definition task_inv :: "task_schedule \<Rightarrow> bool" where
  "task_inv s \<longleftrightarrow> task_stored_valid (tks_stored s) \<and> tks_stored (task_load (tks_flash s)) = tks_stored s"

lemma task_inv_load: "task_inv (task_load f)"
  using task_load_valid task_file.boot_flash by (simp add: task_inv_def)

lemma task_inv_step: "task_inv s \<Longrightarrow> task_inv (task_life_step el e s)"
  by (cases e) (auto simp: task_inv_load, auto simp: task_inv_def task_step_valid task_file.step_loadable)

section \<open>What one task goes through\<close>

definition task_core :: "task \<Rightarrow> string \<times> bool \<times> string \<times> bool" where
  "task_core t = (task_id t, ti_repeat_daily (tk_input t), tk_last_attempt_date t, tk_has_triggered t)"

lemma fst_task_core [simp]: "fst (task_core t) = task_id t"
  by (simp add: task_core_def)

definition task_state :: "string \<Rightarrow> task_schedule \<Rightarrow> (bool \<times> string \<times> bool) option" where
  "task_state i s = map_of (map task_core (ts_tasks (tks_stored s))) i"

lemma core_upsert_other:
  "ti_id input \<noteq> i \<Longrightarrow>
   map_of (map task_core (update_first (\<lambda>t. ti_id (tk_input t) = ti_id input) (\<lambda>_. fresh_task input) ts)) i
   = map_of (map task_core ts) i"
  by (induction ts) (auto simp: task_id_def)

lemma core_remove_other:
  "j \<noteq> i \<Longrightarrow> map_of (map task_core (filter (\<lambda>t. ti_id (tk_input t) \<noteq> j) ts)) i = map_of (map task_core ts) i"
  by (induction ts) (auto simp: task_id_def)

lemma core_finish:
  "map task_core (update_first P (\<lambda>t. t\<lparr>tk_last_result := r\<rparr>) ts) = map task_core ts"
  by (rule map_update_first) (simp add: task_core_def task_id_def)

lemma core_observe:
  assumes "find (task_due c) ts = Some t" "distinct (map task_id ts)"
  shows "map_of (map task_core (update_first (task_due c) (mark_attempt c) ts)) i =
    (if task_id t = i then Some (snd (task_core (mark_attempt c t))) else map_of (map task_core ts) i)
    \<and> map_of (map task_core ts) (task_id t) = Some (snd (task_core t)) \<and> task_due c t"
  using assms
proof (induction ts)
  case (Cons x xs)
  show ?case
  proof (cases "task_due c x")
    case True
    then show ?thesis using Cons.prems by auto
  next
    case False
    then have "find (task_due c) xs = Some t" using Cons.prems by simp
    moreover from this have "t \<in> set xs" by (auto simp: find_Some_iff)
    moreover from this have "task_id t \<noteq> task_id x" using Cons.prems by (metis distinct.simps(2) list.simps(9) image_eqI set_map)
    ultimately show ?thesis using False Cons by auto
  qed
qed simp

lemma task_state_step:
  assumes "task_inv s" "leaves_task i e"
  shows "(filter (\<lambda>x. fst x = i) (task_fired1 el e s) = [] \<and> task_state i (task_life_step el e s) = task_state i s)
    \<or> (\<exists>d rep last trig. filter (\<lambda>x. fst x = i) (task_fired1 el e s) = [(i, d)] \<and> valid_date d
         \<and> task_state i s = Some (rep, last, trig) \<and> (last = [] \<or> last < d) \<and> (rep \<or> \<not> trig)
         \<and> task_state i (task_life_step el e s) = Some (rep, d, trig \<or> \<not> rep))"
proof (cases "(el, e, s)" rule: task_fired1.cases)
  case (1 el' io ch out s')
  have dist: "distinct (map task_id (ts_tasks (tks_stored s)))"
    using assms(1) by (simp add: task_inv_def task_stored_valid_iff)
  show ?thesis
  proof (cases "fst (task_observe el io ch (local_clock out) s)")
    case None
    then have "tks_stored (snd (task_observe el io ch (local_clock out) s)) = tks_stored s"
      by (auto simp: task_observe_def task_save_def Let_def split: option.splits if_splits)
    then show ?thesis using 1 None by (simp add: task_state_def)
  next
    case (Some input)
    then obtain c t where c: "local_clock out = Some c"
      and t: "find (task_due c) (ts_tasks (tks_stored s)) = Some t" "input = tk_input t"
      and st: "ts_tasks (tks_stored (snd (task_observe el io ch (local_clock out) s)))
        = update_first (task_due c) (mark_attempt c) (ts_tasks (tks_stored s))"
      by (auto simp: task_observe_def task_save_def Let_def split: option.splits if_splits)
    note core = core_observe [OF t(1) dist, of i]
    show ?thesis
    proof (cases "task_id t = i")
      case True
      then show ?thesis using core 1 Some c t(2) st local_clock_valid(1) [OF c]
        by (auto simp: task_state_def task_core_def task_id_def mark_attempt_def task_due_def)
    next
      case False
      then show ?thesis using core 1 Some c t(2) st by (auto simp: task_state_def task_id_def)
    qed
  qed
qed (use assms in \<open>auto simp: task_state_def task_upsert_def task_remove_def task_finish_def task_save_def
  core_upsert_other core_remove_other core_finish Let_def task_inv_def map_add_def split: option.splits\<close>)

definition fired_of :: "string \<Rightarrow> (string \<times> string) list \<Rightarrow> string list" where
  "fired_of i xs = map snd (filter (\<lambda>x. fst x = i) xs)"

lemma fired_of_simps [simp]:
  "fired_of i [] = []" "fired_of i (xs @ ys) = fired_of i xs @ fired_of i ys"
  "fired_of i (x # xs) = (if fst x = i then snd x # fired_of i xs else fired_of i xs)"
  by (auto simp: fired_of_def)

text \<open>What the stored task allows: later days only, and nothing after a one-shot task ran.\<close>

definition may_fire :: "(bool \<times> string \<times> bool) option \<Rightarrow> string \<Rightarrow> bool" where
  "may_fire st d = (case st of None \<Rightarrow> False
     | Some (rep, lst, trig) \<Rightarrow> valid_date d \<and> (lst = [] \<or> lst < d) \<and> (rep \<or> \<not> trig))"

lemma may_fire_date: "may_fire st d \<Longrightarrow> valid_date d"
  by (auto simp: may_fire_def split: option.splits)

lemma task_fired_history:
  assumes "task_inv s" "list_all (leaves_task i) es"
  shows "sorted_wrt (<) (fired_of i (task_fired el es s))
    \<and> (\<forall>d\<in>set (fired_of i (task_fired el es s)). may_fire (task_state i s) d)
    \<and> (\<forall>rep lst trig. task_state i s = Some (rep, lst, trig) \<longrightarrow> rep \<or> length (fired_of i (task_fired el es s)) \<le> 1)"
  using assms
proof (induction es arbitrary: s)
  case (Cons e es)
  let ?s = "task_life_step el e s"
  have lv: "leaves_task i e" "list_all (leaves_task i) es" using Cons.prems(2) by auto
  note IH = Cons.IH [OF task_inv_step [OF Cons.prems(1)] lv(2), of el e]
  from task_state_step [OF Cons.prems(1) lv(1), of el] show ?case
  proof
    assume "filter (\<lambda>x. fst x = i) (task_fired1 el e s) = [] \<and> task_state i ?s = task_state i s"
    then have "fired_of i (task_fired1 el e s) = []" "task_state i ?s = task_state i s"
      by (simp_all add: fired_of_def)
    then show ?thesis using IH by simp
  next
    assume "\<exists>d rep lst trig. filter (\<lambda>x. fst x = i) (task_fired1 el e s) = [(i, d)] \<and> valid_date d
         \<and> task_state i s = Some (rep, lst, trig) \<and> (lst = [] \<or> lst < d) \<and> (rep \<or> \<not> trig)
         \<and> task_state i ?s = Some (rep, d, trig \<or> \<not> rep)"
    then obtain d rep lst trig where f: "fired_of i (task_fired1 el e s) = [d]"
      and d: "valid_date d" "lst = [] \<or> lst < d" "rep \<or> \<not> trig"
      and st: "task_state i s = Some (rep, lst, trig)" "task_state i ?s = Some (rep, d, trig \<or> \<not> rep)"
      by (fastforce simp: fired_of_def)
    have ne: "d \<noteq> []" using d(1) valid_date_nonempty by blast
    have later: "\<forall>d'\<in>set (fired_of i (task_fired el es ?s)). valid_date d' \<and> d < d' \<and> rep"
      using IH ne by (auto simp: st may_fire_def)
    then have "rep \<or> fired_of i (task_fired el es ?s) = []"
      by (cases "fired_of i (task_fired el es ?s)") auto
    then show ?thesis using IH later d by (auto simp: f st may_fire_def)
  qed
qed simp





section \<open>Properties\<close>

text \<open>
  C4: a task is handed out at most once per calendar day, and a task that does not repeat at
  most once.  From any content of the file, through any calls and restarts that neither
  replace nor remove the task, with any outcomes of the file writes, the dates on which the
  task is handed out for execution are calendar days in strictly increasing order.
\<close>

theorem task_at_most_once_per_day:
  assumes "list_all (leaves_task i) es"
  shows "sorted_wrt (\<lambda>d d'. date_before (date_parts d) (date_parts d')) (fired_of i (task_fired el es (task_load f)))
    \<and> (\<forall>t\<in>set (ts_tasks (tks_stored (task_load f))).
         task_id t = i \<and> \<not> ti_repeat_daily (tk_input t)
         \<longrightarrow> length (fired_of i (task_fired el es (task_load f))) \<le> (if tk_has_triggered t then 0 else 1))"
proof
  note h = task_fired_history [OF task_inv_load assms, of el f]
  then have "sorted_wrt (<) (fired_of i (task_fired el es (task_load f)))" by blast
  then show "sorted_wrt (\<lambda>d d'. date_before (date_parts d) (date_parts d')) (fired_of i (task_fired el es (task_load f)))"
    by (rule sorted_wrt_mono_rel [rotated]) (use h valid_date_less may_fire_date in blast)
  have dist: "distinct (map fst (map task_core (ts_tasks (tks_stored (task_load f)))))"
    using task_load_valid [of f] by (simp add: task_stored_valid_iff comp_def)
  show "\<forall>t\<in>set (ts_tasks (tks_stored (task_load f))). task_id t = i \<and> \<not> ti_repeat_daily (tk_input t)
         \<longrightarrow> length (fired_of i (task_fired el es (task_load f))) \<le> (if tk_has_triggered t then 0 else 1)"
  proof (intro ballI impI, elim conjE)
    fix t assume t: "t \<in> set (ts_tasks (tks_stored (task_load f)))" "task_id t = i" "\<not> ti_repeat_daily (tk_input t)"
    then have "(i, False, tk_last_attempt_date t, tk_has_triggered t) \<in> set (map task_core (ts_tasks (tks_stored (task_load f))))"
      by (force simp: task_core_def)
    then have st: "task_state i (task_load f) = Some (False, tk_last_attempt_date t, tk_has_triggered t)"
      using dist by (simp add: task_state_def)
    show "length (fired_of i (task_fired el es (task_load f))) \<le> (if tk_has_triggered t then 0 else 1)"
      using h st by (cases "fired_of i (task_fired el es (task_load f))") (auto simp: may_fire_def)
  qed
qed

definition demo_task_input :: task_input where
  "demo_task_input = \<lparr>ti_id = ''nightly'', ti_time = ''04:30'', ti_repeat_daily = True,
     ti_action = ''device.reboot'', ti_params = JObject []\<rparr>"

definition demo_tasks :: task_schedule where
  "demo_tasks = \<lparr>tks_flash = Missing,
     tks_stored = \<lparr>ts_schema = 1, ts_tasks = [fresh_task demo_task_input,
       fresh_task (demo_task_input\<lparr>ti_id := ''other'', ti_time := ''05:00''\<rparr>),
       fresh_task (demo_task_input\<lparr>ti_id := ''once'', ti_repeat_daily := False\<rparr>)]\<rparr>,
     tks_error = None\<rparr>"

definition demo_life :: "task_life list" where
  "demo_life = [TCall (TObserve True False (Some (True, ''2026-02-27 04:30 +0800''))),
     TCall (TObserve True False (Some (True, ''2026-02-27 04:30 +0800''))), TRestart,
     TCall (TObserve True False (Some (True, ''2026-02-27 04:30 +0800''))),
     TCall (TObserve True False (Some (True, ''2026-02-28 04:30 +0800'')))]"

theorem task_at_most_once_per_day_witness:
  "list_all (leaves_task ''nightly'') demo_life
   \<and> fired_of ''nightly'' (task_fired (\<lambda>_. 0) demo_life (task_load (Holds (tks_stored demo_tasks))))
      = [''2026-02-27'', ''2026-02-28'']
   \<and> sorted_wrt (\<lambda>d d'. date_before (date_parts d) (date_parts d'))
       (fired_of ''nightly'' (task_fired (\<lambda>_. 0) demo_life (task_load (Holds (tks_stored demo_tasks)))))"
proof (intro conjI)
  show lv: "list_all (leaves_task ''nightly'') demo_life" by code_simp
  show "sorted_wrt (\<lambda>d d'. date_before (date_parts d) (date_parts d'))
       (fired_of ''nightly'' (task_fired (\<lambda>_. 0) demo_life (task_load (Holds (tks_stored demo_tasks)))))"
    using task_at_most_once_per_day [OF lv] by blast
qed code_simp



end
