(* ===== verification/Traffic_History.thy ===== *)
theory Traffic_History
  imports Calendar Interfaces
begin

text \<open>
  The daily usage history of \<open>traffic_history.rs\<close>: the daily counter the device reports is
  sampled every five minutes and its growth is added to the entry of the local day.  The
  environment of one call of \<open>record\<close> (clock lease, clock generation, boot clock, snapshot,
  system time, output of \<open>date\<close>, outcome of the file operations) is a record argument.
\<close>

definition sample_seconds :: nat where "sample_seconds = 300"
definition max_days :: nat where "max_days = 400"
definition max_daily_bytes :: nat where "max_daily_bytes = 100 * 1024 * 1024 * 1024 * 1024"
definition min_clock_seconds :: int where "min_clock_seconds = 1704067200"

record day =
  d_bytes :: nat
  d_last_counter :: nat

record usage_stored =
  us_schema :: nat
  us_last_sample_at :: int
  us_days :: "(string \<times> day) list"
  us_active_day :: "string option"

definition usage_default :: usage_stored where
  "usage_default = \<lparr>us_schema = 1, us_last_sample_at = 0, us_days = [], us_active_day = None\<rparr>"

record history =
  hist_flash :: "usage_stored disk"
  hist_stored :: usage_stored
  hist_last_elapsed :: "nat option"
  hist_generation :: nat
  hist_relabel :: bool

definition usage_stored_valid :: "usage_stored \<Rightarrow> bool" where
  "usage_stored_valid v \<longleftrightarrow>
     us_schema v = 1
     \<and> (case us_active_day v of None \<Rightarrow> True
        | Some date \<Rightarrow> usage_valid_date date \<and> map_of (us_days v) date \<noteq> None)
     \<and> length (us_days v) \<le> max_days
     \<and> list_all usage_valid_date (keys (us_days v))
     \<and> list_all (\<lambda>(_, d). d_bytes d \<le> max_daily_bytes \<and> d_last_counter d \<le> max_daily_bytes) (us_days v)"

definition usage_load :: "nat \<Rightarrow> usage_stored disk \<Rightarrow> history" where
  "usage_load generation f =
     \<lparr>hist_flash = f,
      hist_stored = (case f of Holds v \<Rightarrow> if usage_stored_valid v then v else usage_default | _ \<Rightarrow> usage_default),
      hist_last_elapsed = None, hist_generation = generation, hist_relabel = False\<rparr>"

definition usage_days :: "history \<Rightarrow> (string \<times> nat) list" where
  "usage_days h = map (\<lambda>(date, d). (date, d_bytes d)) (us_days (hist_stored h))"

definition last_key_value :: "('k \<times> 'v) list \<Rightarrow> ('k \<times> 'v) option" where
  "last_key_value m = (if m = [] then None else Some (last m))"

definition or_else :: "'a option \<Rightarrow> 'a option \<Rightarrow> 'a option" where
  "or_else a b = (case a of Some x \<Rightarrow> Some x | None \<Rightarrow> b)"

function trim_days :: "string option \<Rightarrow> (string \<times> day) list \<Rightarrow> (string \<times> day) list" where
  "trim_days active days =
     (if length days > max_days then
        (case find (\<lambda>date. Some date \<noteq> active) (keys days) of
           Some oldest \<Rightarrow> trim_days active (map_remove oldest days)
         | None \<Rightarrow> days)
      else days)"
  by pat_completeness auto

lemma length_map_remove: "k \<in> set (keys m) \<Longrightarrow> length (map_remove k m) < length m"
  by (induction m) (auto simp: map_remove_def less_Suc_eq_le)

termination trim_days
  by (relation "measure (length \<circ> snd)") (auto simp: find_Some_iff intro: length_map_remove)

declare trim_days.simps [simp del]

text \<open>The day that the latest observation belongs to.\<close>

definition current_day :: "usage_stored \<Rightarrow> string option" where
  "current_day st = or_else (us_active_day st) (map_option fst (last_key_value (us_days st)))"

definition previous_counter :: "usage_stored \<Rightarrow> nat option" where
  "previous_counter st =
     map_option d_last_counter
       (or_else (Option.bind (us_active_day st) (map_of (us_days st)))
                (map_option snd (last_key_value (us_days st))))"

definition increment :: "bool \<Rightarrow> bool \<Rightarrow> nat option \<Rightarrow> nat \<Rightarrow> nat" where
  "increment crossed relabel previous counter =
     (if crossed \<and> \<not> relabel then counter
      else case previous of None \<Rightarrow> counter
           | Some p \<Rightarrow> if counter \<ge> p then counter - p else counter)"

definition sample_refused :: "string \<Rightarrow> int \<Rightarrow> nat \<Rightarrow> bool \<Rightarrow> usage_stored \<Rightarrow> bool" where
  "sample_refused date now counter relabel st \<longleftrightarrow>
     now < min_clock_seconds
     \<or> \<not> usage_valid_date date
     \<or> counter > max_daily_bytes
     \<or> now < us_last_sample_at st
     \<or> (\<not> relabel \<and> (case current_day st of Some lst \<Rightarrow> date < lst | None \<Rightarrow> False))
     \<or> (map_of (us_days st) date \<noteq> None \<and> wsub_i64 now (us_last_sample_at st) < int sample_seconds)"

definition same_reading :: "string \<Rightarrow> nat \<Rightarrow> usage_stored \<Rightarrow> bool" where
  "same_reading date counter st \<longleftrightarrow>
     us_active_day st = Some date
     \<and> (case map_of (us_days st) date of Some d \<Rightarrow> d_last_counter d = counter | None \<Rightarrow> False)"

definition crossed_day :: "string \<Rightarrow> usage_stored \<Rightarrow> bool" where
  "crossed_day date st = (case current_day st of Some prev \<Rightarrow> prev \<noteq> date | None \<Rightarrow> False)"

definition day_entry :: "string \<Rightarrow> usage_stored \<Rightarrow> day" where
  "day_entry date st =
     (case map_of (us_days st) date of Some d \<Rightarrow> d | None \<Rightarrow> \<lparr>d_bytes = 0, d_last_counter = 0\<rparr>)"

definition apply_sample :: "string \<Rightarrow> int \<Rightarrow> nat \<Rightarrow> history \<Rightarrow> bool \<times> history" where
  "apply_sample date now counter h =
     (let st = hist_stored h; relabel = hist_relabel h in
      if sample_refused date now counter relabel st then (False, h)
      else if same_reading date counter st then (False, h)
      else
        let entry = day_entry date st;
            next = sat_add64 (d_bytes entry) (increment (crossed_day date st) relabel (previous_counter st) counter)
        in if next > max_daily_bytes
           then (False, h\<lparr>hist_stored := st\<lparr>us_days := map_insert date entry (us_days st)\<rparr>\<rparr>)
           else let days = map_insert date \<lparr>d_bytes = next, d_last_counter = counter\<rparr> (us_days st) in
             (True, h\<lparr>hist_stored := st\<lparr>us_last_sample_at := now, us_active_day := Some date,
                                        us_days := trim_days (Some date) days\<rparr>,
                      hist_relabel := False\<rparr>))"




definition note_generation :: "nat \<Rightarrow> history \<Rightarrow> history" where
  "note_generation generation h =
     (if generation \<noteq> hist_generation h
      then h\<lparr>hist_generation := generation, hist_stored := (hist_stored h)\<lparr>us_last_sample_at := 0\<rparr>,
             hist_relabel := True\<rparr>
      else h)"


definition note_clock :: "int \<Rightarrow> history \<Rightarrow> history" where
  "note_clock now h =
     (if now < us_last_sample_at (hist_stored h)
      then h\<lparr>hist_stored := (hist_stored h)\<lparr>us_last_sample_at := 0\<rparr>, hist_relabel := True\<rparr>
      else h)"





section \<open>Ordered maps and trimming\<close>






lemma trim_days_small: "length m \<le> max_days \<Longrightarrow> trim_days a m = m"
  by (subst trim_days.simps) simp



lemma map_insert_same: "ordered_map m \<Longrightarrow> map_of m k = Some v \<Longrightarrow> map_insert k v m = m"
  by (induction k v m rule: map_insert.induct) (auto split: if_splits simp: map_of_keys dest!: bspec)

section \<open>Laws of a sample\<close>

definition usage_inv :: "usage_stored \<Rightarrow> bool" where
  "usage_inv st \<longleftrightarrow> usage_stored_valid st \<and> ordered_map (us_days st)"

lemma increment_le: "increment crossed relabel previous counter \<le> counter"
  by (auto simp: increment_def split: option.splits)

lemma usage_inv_bounds:
  assumes "usage_inv st" "map_of (us_days st) k = Some d"
  shows "d_bytes d \<le> max_daily_bytes" "d_last_counter d \<le> max_daily_bytes" "usage_valid_date k"
  using assms(1) map_of_SomeD [OF assms(2)]
  by (auto simp: usage_inv_def usage_stored_valid_def list_all_iff keys_def)

text \<open>A refused sample changes nothing; an accepted one adds the increment to the day.\<close>

definition sample_gain :: "string \<Rightarrow> nat \<Rightarrow> history \<Rightarrow> nat" where
  "sample_gain date counter h =
     increment (crossed_day date (hist_stored h)) (hist_relabel h) (previous_counter (hist_stored h)) counter"

definition sampled_days :: "string \<Rightarrow> nat \<Rightarrow> history \<Rightarrow> (string \<times> day) list" where
  "sampled_days date counter h =
     map_insert date \<lparr>d_bytes = d_bytes (day_entry date (hist_stored h)) + sample_gain date counter h,
       d_last_counter = counter\<rparr> (us_days (hist_stored h))"

lemma apply_sample_cases:
  assumes inv: "usage_inv (hist_stored h)"
  shows "apply_sample date now counter h = (False, h) \<or>
    \<not> sample_refused date now counter (hist_relabel h) (hist_stored h)
    \<and> d_bytes (day_entry date (hist_stored h)) + sample_gain date counter h \<le> max_daily_bytes
    \<and> apply_sample date now counter h =
      (True, h\<lparr>hist_stored := (hist_stored h)\<lparr>us_last_sample_at := now, us_active_day := Some date,
         us_days := trim_days (Some date) (sampled_days date counter h)\<rparr>, hist_relabel := False\<rparr>)"
proof (cases "sample_refused date now counter (hist_relabel h) (hist_stored h)")
  case True
  then show ?thesis by (simp add: apply_sample_def)
next
  case False
  have gain: "sample_gain date counter h \<le> counter" by (simp add: sample_gain_def increment_le)
  have counter: "counter \<le> max_daily_bytes" using False by (simp add: sample_refused_def)
  have "d_bytes (day_entry date (hist_stored h)) \<le> max_daily_bytes"
    using usage_inv_bounds [OF inv] by (auto simp: day_entry_def split: option.splits)
  then have sat: "sat_add64 (d_bytes (day_entry date (hist_stored h))) (sample_gain date counter h)
      = d_bytes (day_entry date (hist_stored h)) + sample_gain date counter h"
    using gain counter by (simp add: sat_add64_def u64_max_def max_daily_bytes_def)
  have same: "map_insert date (day_entry date (hist_stored h)) (us_days (hist_stored h)) = us_days (hist_stored h)"
    if "max_daily_bytes < d_bytes (day_entry date (hist_stored h)) + sample_gain date counter h"
    using that gain counter inv
    by (cases "map_of (us_days (hist_stored h)) date") (auto simp: day_entry_def usage_inv_def map_insert_same)
  show ?thesis using False sat same
    by (auto simp: apply_sample_def Let_def sampled_days_def simp flip: sample_gain_def)
qed



section \<open>Laws of a call and of a run\<close>

definition file_typed :: "usage_stored disk \<Rightarrow> bool" where
  "file_typed f = (case f of Holds d \<Rightarrow> ordered_map (us_days d) | _ \<Rightarrow> True)"



lemma usage_inv_clock [simp]: "usage_inv (st\<lparr>us_last_sample_at := n\<rparr>) = usage_inv st"
  by (cases "us_active_day st") (simp_all add: usage_inv_def usage_stored_valid_def)


text \<open>The record in memory is well formed and the file holds one that decodes.\<close>

definition history_ok :: "history \<Rightarrow> bool" where
  "history_ok h \<longleftrightarrow> usage_inv (hist_stored h) \<and> file_typed (hist_flash h)"

lemma note_ok [simp]: "history_ok (note_generation g h) = history_ok h" "history_ok (note_clock now h) = history_ok h"
  by (auto simp: history_ok_def note_generation_def note_clock_def)






section \<open>Totals\<close>

definition history_bytes :: "usage_stored \<Rightarrow> nat" where
  "history_bytes st = sum_list (map (d_bytes \<circ> snd) (us_days st))"

lemma sum_map_insert:
  "ordered_map m \<Longrightarrow> sum_list (map (f \<circ> snd) (map_insert k v m)) + (case map_of m k of None \<Rightarrow> 0 | Some d \<Rightarrow> f d)
     = sum_list (map (f \<circ> snd) m) + (f v :: nat)"
  by (induction k v m rule: map_insert.induct) (auto split: option.splits simp: map_of_keys dest!: bspec)







section \<open>Properties\<close>




text \<open>
  A corrected clock does not duplicate traffic.  When a sample is accepted while the
  history may relabel, or for the day of the latest observation, and the counter did not fall,
  the sum of all daily totals grows by exactly the growth of the counter, whichever day the
  sample is booked on (while no day has to be dropped).
\<close>

theorem usage_not_duplicated:
  assumes "usage_inv (hist_stored h)" "length (us_days (hist_stored h)) < max_days"
    "fst (apply_sample date now counter h)"
    "hist_relabel h \<or> current_day (hist_stored h) = Some date"
    "previous_counter (hist_stored h) = Some p" "p \<le> counter"
  shows "history_bytes (hist_stored (snd (apply_sample date now counter h)))
    = history_bytes (hist_stored h) + (counter - p)"
proof -
  have gain: "sample_gain date counter h = counter - p"
    using assms(4-6) by (auto simp: sample_gain_def increment_def crossed_day_def)
  have ord: "ordered_map (us_days (hist_stored h))" using assms(1) by (simp add: usage_inv_def)
  have "length (sampled_days date counter h) \<le> max_days"
    using assms(2) by (auto simp: sampled_days_def intro: order_trans [OF length_map_insert])
  then have "us_days (hist_stored (snd (apply_sample date now counter h))) = sampled_days date counter h"
    using apply_sample_cases [OF assms(1), of date now counter] assms(3) by (auto simp: trim_days_small)
  then show ?thesis
    using sum_map_insert [OF ord, of d_bytes date
        "\<lparr>d_bytes = d_bytes (day_entry date (hist_stored h)) + sample_gain date counter h, d_last_counter = counter\<rparr>"]
    by (auto simp: history_bytes_def sampled_days_def day_entry_def gain split: option.splits)
qed

definition demo_history :: history where
  "demo_history = snd (apply_sample ''2026-02-27'' 1772150400 42 (usage_load 0 Missing))\<lparr>hist_relabel := True\<rparr>"

theorem usage_not_duplicated_witness:
  "usage_inv (hist_stored demo_history) \<and> length (us_days (hist_stored demo_history)) < max_days
   \<and> fst (apply_sample ''2026-02-26'' 1772150700 50 demo_history)
   \<and> history_bytes (hist_stored (snd (apply_sample ''2026-02-26'' 1772150700 50 demo_history)))
     = history_bytes (hist_stored demo_history) + 8
   \<and> usage_days (snd (apply_sample ''2026-02-26'' 1772150700 50 demo_history)) = [(''2026-02-26'', 8), (''2026-02-27'', 42)]"
proof -
  have h: "usage_inv (hist_stored demo_history)" "length (us_days (hist_stored demo_history)) < max_days"
    "fst (apply_sample ''2026-02-26'' 1772150700 50 demo_history)"
    "hist_relabel demo_history \<or> current_day (hist_stored demo_history) = Some ''2026-02-26''"
    "previous_counter (hist_stored demo_history) = Some 42" "42 \<le> (50 :: nat)"
    "usage_days (snd (apply_sample ''2026-02-26'' 1772150700 50 demo_history)) = [(''2026-02-26'', 8), (''2026-02-27'', 42)]"
    by code_simp+
  show ?thesis using usage_not_duplicated [OF h(1-6)] h by simp
qed




end
