(* ===== verification/Activity.thy ===== *)
theory Activity
  imports Calendar Interfaces
begin

text \<open>
  The activity journal of \<open>activity.rs\<close>: at most 300 entries, filtered by a level, kept in
  memory and written to flash at once (level \<open>Detailed\<close>) or by a later \<open>flush\<close>.  The
  system time, the output of \<open>date\<close> and the outcome of the file operations are arguments;
  the length of the encoded record is the parameter \<open>enc_len\<close>.
\<close>

datatype level = Off | Basic | Standard | Detailed

fun level_index :: "level \<Rightarrow> nat" where
  "level_index Off = 0"
| "level_index Basic = 1"
| "level_index Standard = 2"
| "level_index Detailed = 3"

lemma level_index_inj: "level_index a = level_index b \<Longrightarrow> a = b"
  by (cases a; cases b) auto

text \<open>The derived order of the enum.\<close>

instantiation level :: linorder
begin

definition less_eq_level :: "level \<Rightarrow> level \<Rightarrow> bool" where
  "less_eq_level a b = (level_index a \<le> level_index b)"

definition less_level :: "level \<Rightarrow> level \<Rightarrow> bool" where
  "less_level a b = (level_index a < level_index b)"

instance
  by intro_classes (auto simp: less_eq_level_def less_level_def level_index_inj)

end

definition level_names :: "string list" where
  "level_names = [''off'', ''basic'', ''standard'', ''detailed'']"

definition level_parse :: "string \<Rightarrow> level option" where
  "level_parse name =
     (if name = ''off'' then Some Off else if name = ''basic'' then Some Basic
      else if name = ''standard'' then Some Standard else if name = ''detailed'' then Some Detailed
      else None)"

definition level_name :: "level \<Rightarrow> string" where
  "level_name l = level_names ! level_index l"

definition activity_rank :: "string \<Rightarrow> string \<Rightarrow> string \<Rightarrow> level" where
  "activity_rank category action result =
     (if category = ''recovery'' \<and> action = ''probe'' then Detailed
      else if result = ''failed'' then Basic
      else if category = ''recovery'' \<and> action \<in> set [''redial'', ''reboot'', ''online''] then Basic
      else Standard)"

definition flush_interval :: "string option \<Rightarrow> nat" where
  "flush_interval env =
     (case Option.bind env (parse_unsigned u64_max) of
        Some v \<Rightarrow> if 1 \<le> v \<and> v \<le> 3600 then v else 300
      | None \<Rightarrow> 300)"

record entry =
  en_id :: nat
  en_timestamp :: nat
  en_device_time :: string
  en_category :: string
  en_action :: string
  en_result :: string
  en_reason :: string
  en_task :: string

record journal_stored =
  js_next_id :: nat
  js_entries :: "entry list"
  js_level :: level

definition journal_default :: journal_stored where
  "journal_default = \<lparr>js_next_id = 0, js_entries = [], js_level = Standard\<rparr>"

record journal =
  jr_flash :: "journal_stored disk"
  jr_stored :: journal_stored
  jr_storage_ok :: bool
  jr_dirty :: bool

definition entry_loadable :: "nat \<Rightarrow> entry \<Rightarrow> bool" where
  "entry_loadable next_id e \<longleftrightarrow>
     en_id e < next_id \<and> length (en_task e) \<le> 80 \<and> length (en_action e) \<le> 80 \<and> length (en_reason e) \<le> 80"

definition journal_stored_valid :: "journal_stored \<Rightarrow> bool" where
  "journal_stored_valid s \<longleftrightarrow>
     length (js_entries s) \<le> 300 \<and> list_all (entry_loadable (js_next_id s)) (js_entries s)"

definition journal_file_max :: nat where
  "journal_file_max = 256 * 1024"

definition journal_load :: "(journal_stored \<Rightarrow> nat) \<Rightarrow> journal_stored disk \<Rightarrow> journal" where
  "journal_load enc_len f =
     \<lparr>jr_flash = f,
      jr_stored = (case f of
          Holds v \<Rightarrow> if enc_len v \<le> journal_file_max \<and> journal_stored_valid v then v else journal_default
        | _ \<Rightarrow> journal_default),
      jr_storage_ok = True, jr_dirty = False\<rparr>"

definition journal_set_level :: "bool \<Rightarrow> level \<Rightarrow> journal \<Rightarrow> (string + unit) \<times> journal" where
  "journal_set_level io lvl j =
     (let next = (jr_stored j)\<lparr>js_level := lvl\<rparr> in
      if \<not> io then (Inl ''storage_failed'', j)
      else (Inr (), j\<lparr>jr_flash := Holds next, jr_stored := next, jr_dirty := False, jr_storage_ok := True\<rparr>))"

definition journal_flush :: "bool \<Rightarrow> journal \<Rightarrow> journal" where
  "journal_flush io j =
     (if jr_dirty j
      then j\<lparr>jr_flash := (if io then Holds (jr_stored j) else jr_flash j), jr_storage_ok := io, jr_dirty := \<not> io\<rparr>
      else j)"

record activity_report =
  ar_category :: string
  ar_action :: string
  ar_result :: string
  ar_reason :: string
  ar_task :: string

definition repeated_failure :: "nat \<Rightarrow> activity_report \<Rightarrow> entry \<Rightarrow> bool" where
  "repeated_failure at r e \<longleftrightarrow>
     en_category e = ar_category r \<and> en_action e = ar_action r \<and> en_result e = ar_result r
     \<and> en_reason e = ar_reason r \<and> en_task e = ar_task r \<and> at - en_timestamp e < 300"

definition new_entry :: "nat \<Rightarrow> nat \<Rightarrow> clock option \<Rightarrow> activity_report \<Rightarrow> entry" where
  "new_entry i at clk r =
     \<lparr>en_id = i, en_timestamp = at,
      en_device_time = (case clk of Some c \<Rightarrow> ck_date c @ '' '' @ ck_time c | None \<Rightarrow> []),
      en_category = ar_category r, en_action = ar_action r, en_result = ar_result r, en_reason = ar_reason r,
      en_task = concat (take 80 (utf8_chars (ar_task r)))\<rparr>"

definition journal_push :: "bool \<Rightarrow> nat \<Rightarrow> clock option \<Rightarrow> activity_report \<Rightarrow> journal \<Rightarrow> journal" where
  "journal_push io at clk r j =
     (let st = jr_stored j in
      if js_level st < activity_rank (ar_category r) (ar_action r) (ar_result r) then j
      else if ar_result r = ''failed'' \<and> js_entries st \<noteq> [] \<and> repeated_failure at r (last (js_entries st)) then j
      else
        let i = max (js_next_id st) 1;
            es = js_entries st @ [new_entry i at clk r];
            es' = (if length es > 300 then drop 1 es else es);
            j' = j\<lparr>jr_stored := st\<lparr>js_next_id := sat_add64 i 1, js_entries := es'\<rparr>, jr_dirty := True\<rparr>
        in if js_level st = Detailed then journal_flush io j' else j')"

definition entry_matches :: "nat option \<Rightarrow> string option \<Rightarrow> bool \<Rightarrow> entry \<Rightarrow> bool" where
  "entry_matches before category failed e \<longleftrightarrow>
     (case before of None \<Rightarrow> True | Some i \<Rightarrow> en_id e < i)
     \<and> (case category of None \<Rightarrow> True | Some c \<Rightarrow> en_category e = c)
     \<and> (\<not> failed \<or> en_result e = ''failed'')"

definition journal_page :: "nat option \<Rightarrow> string option \<Rightarrow> bool \<Rightarrow> journal \<Rightarrow> entry list \<times> nat option" where
  "journal_page before category failed j =
     (let all = filter (entry_matches before category failed) (rev (js_entries (jr_stored j)));
          page = take 100 all
      in (page, if length all > 100 then (if page = [] then None else Some (en_id (last page))) else None))"

definition entry_json :: "entry \<Rightarrow> json" where
  "entry_json e = jobj
     [(''id'', jint (int (en_id e))), (''timestamp'', jint (int (en_timestamp e))),
      (''device_time'', JString (en_device_time e)), (''category'', JString (en_category e)),
      (''action'', JString (en_action e)), (''result'', JString (en_result e)),
      (''reason'', JString (en_reason e)), (''task'', JString (en_task e))]"

definition journal_view :: "string option \<Rightarrow> nat option \<Rightarrow> string option \<Rightarrow> bool \<Rightarrow> journal \<Rightarrow> json" where
  "journal_view env before category failed j =
     (let (page, next_before) = journal_page before category failed j in
      jobj
        [(''entries'', JArray (map entry_json page)),
         (''next_before'', jopt (\<lambda>i. jint (int i)) next_before),
         (''max_entries'', jint 300), (''storage_ok'', JBool (jr_storage_ok j)),
         (''level'', JString (level_name (js_level (jr_stored j)))),
         (''levels'', JArray (map JString level_names)),
         (''flush_interval_seconds'',
            if js_level (jr_stored j) = Detailed then JNull else jint (int (flush_interval env))),
         (''unsaved'', JBool (jr_dirty j))])"

definition journal_clear :: "bool \<Rightarrow> journal \<Rightarrow> (string + unit) \<times> journal" where
  "journal_clear io j =
     (let next = \<lparr>js_next_id = js_next_id (jr_stored j), js_entries = [], js_level = js_level (jr_stored j)\<rparr> in
      if \<not> io then (Inl ''storage_failed'', j)
      else (Inr (), j\<lparr>jr_flash := Holds next, jr_stored := next, jr_dirty := False, jr_storage_ok := True\<rparr>))"

section \<open>Calls as steps\<close>

datatype journal_event =
    JSetLevel bool level
  | JFlush bool
  | JPush bool nat "(bool \<times> string) option" activity_report
  | JClear bool
  | JRestart

fun journal_step :: "(journal_stored \<Rightarrow> nat) \<Rightarrow> journal_event \<Rightarrow> journal \<Rightarrow> journal" where
  "journal_step el (JSetLevel io lvl) j = snd (journal_set_level io lvl j)"
| "journal_step el (JFlush io) j = journal_flush io j"
| "journal_step el (JPush io at out r) j = journal_push io at (local_clock out) r j"
| "journal_step el (JClear io) j = snd (journal_clear io j)"
| "journal_step el JRestart j = journal_load el (jr_flash j)"

section \<open>Capacity\<close>

lemma journal_flush_stored [simp]: "jr_stored (journal_flush io j) = jr_stored j"
  by (simp add: journal_flush_def)

interpretation journal_log: bounded_log 300 "js_entries \<circ> jr_stored" "\<lambda>(io, at, clk, r). journal_push io at clk r"
proof
  fix j :: journal and e :: "bool \<times> nat \<times> clock option \<times> activity_report"
  obtain io at clk r where e: "e = (io, at, clk, r)" by (cases e)
  assume len: "length ((js_entries \<circ> jr_stored) j) \<le> 300"
  let ?x = "new_entry (max (js_next_id (jr_stored j)) 1) at clk r"
  have "Suc (length (js_entries (jr_stored j))) - 300 = (if length (js_entries (jr_stored j)) = 300 then 1 else 0)"
    using len by auto
  then have "js_entries (jr_stored (journal_push io at clk r j)) = js_entries (jr_stored j)
    \<or> js_entries (jr_stored (journal_push io at clk r j))
       = drop (Suc (length (js_entries (jr_stored j))) - 300) (js_entries (jr_stored j) @ [?x])"
    using len by (auto simp: journal_push_def Let_def)
  then show "(js_entries \<circ> jr_stored) ((case e of (io, at, clk, r) \<Rightarrow> journal_push io at clk r) j) = (js_entries \<circ> jr_stored) j
    \<or> (\<exists>x. (js_entries \<circ> jr_stored) ((case e of (io, at, clk, r) \<Rightarrow> journal_push io at clk r) j)
         = drop (Suc (length ((js_entries \<circ> jr_stored) j)) - 300) ((js_entries \<circ> jr_stored) j @ [x]))"
    by (auto simp: e)
qed simp

section \<open>Order, and what a restart finds\<close>

definition entries_ordered :: "journal_stored \<Rightarrow> bool" where
  "entries_ordered st = sorted_wrt (<) (map en_id (js_entries st))"















section \<open>Following the pages\<close>

fun journal_pages :: "nat \<Rightarrow> nat option \<Rightarrow> string option \<Rightarrow> bool \<Rightarrow> journal \<Rightarrow> entry list" where
  "journal_pages 0 before category failed j = []"
| "journal_pages (Suc n) before category failed j =
     (case journal_page before category failed j of
        (page, None) \<Rightarrow> page
      | (page, Some b) \<Rightarrow> page @ journal_pages n (Some b) category failed j)"

lemma filter_below_nth:
  fixes f :: "'a \<Rightarrow> nat"
  assumes "sorted_wrt (\<lambda>x y. f y < f x) xs" "n < length xs"
  shows "filter (\<lambda>x. f x < f (xs ! n)) xs = drop (Suc n) xs"
  using assms
proof (induction xs arbitrary: n)
  case (Cons x xs)
  show ?case
  proof (cases n)
    case 0
    then show ?thesis using Cons.prems by (simp add: filter_id_conv)
  next
    case (Suc m)
    then have "f (xs ! m) < f x" using Cons.prems by simp
    then have "\<not> f x < f (xs ! m)" by simp
    then show ?thesis using Cons Suc by simp
  qed
qed simp

lemma journal_pages_all:
  assumes "entries_ordered (jr_stored j)"
    "length (filter (entry_matches before category failed) (rev (js_entries (jr_stored j)))) \<le> 100 * n"
  shows "journal_pages n before category failed j
    = filter (entry_matches before category failed) (rev (js_entries (jr_stored j)))"
  using assms(2)
proof (induction n arbitrary: before)
  case (Suc n)
  let ?L = "rev (js_entries (jr_stored j))"
  let ?all = "filter (entry_matches before category failed) ?L"
  show ?case
  proof (cases "length ?all > 100")
    case False
    then show ?thesis by (simp add: journal_page_def Let_def)
  next
    case True
    let ?b = "en_id (?all ! 99)"
    have dec: "sorted_wrt (\<lambda>x y. en_id y < en_id x) ?L"
      using assms(1) by (simp add: entries_ordered_def sorted_wrt_rev sorted_wrt_map)
    have lst: "last (take 100 ?all) = ?all ! 99" using True by (subst last_conv_nth) (auto simp: min_def)
    have "?all ! 99 \<in> set ?all" using True by (intro nth_mem) simp
    then have b: "case before of None \<Rightarrow> True | Some i \<Rightarrow> ?b < i" by (simp add: entry_matches_def split: option.splits)
    have "filter (entry_matches (Some ?b) category failed) ?L = filter (\<lambda>e. en_id e < ?b) ?all"
      unfolding filter_filter
    proof (rule filter_cong [OF refl])
      fix e
      show "entry_matches (Some ?b) category failed e = (entry_matches before category failed e \<and> en_id e < ?b)"
        using b by (cases before) (auto simp: entry_matches_def)
    qed
    also have "\<dots> = drop 100 ?all"
      using filter_below_nth [of en_id ?all 99] sorted_wrt_filter [OF dec] True by simp
    finally have rest: "filter (entry_matches (Some ?b) category failed) ?L = drop 100 ?all" .
    have len: "length (filter (entry_matches (Some ?b) category failed) ?L) \<le> 100 * n"
      unfolding rest using Suc.prems by simp
    have ne: "take 100 ?all \<noteq> []" using True by auto
    have page: "journal_page before category failed j = (take 100 ?all, Some ?b)"
      using True lst ne by (simp add: journal_page_def Let_def del: take_eq_Nil)
    show ?thesis using Suc.IH [OF len] rest by (simp add: page)
  qed
qed simp

section \<open>Properties\<close>


definition demo_report :: activity_report where
  "demo_report = \<lparr>ar_category = ''task'', ar_action = ''run'', ar_result = ''ok'', ar_reason = [], ar_task = ''nightly''\<rparr>"



text \<open>
  The pages of the journal list every matching entry exactly once.  When the ids increase,
  as they do on every journal the calls produce, following \<open>next_before\<close> from the first
  page gives all entries that match the filters, newest first, after at most three pages.
\<close>

theorem journal_pages_complete:
  assumes "sorted_wrt (<) (map en_id (js_entries (jr_stored j)))" "length (js_entries (jr_stored j)) \<le> 300"
  shows "journal_pages 3 None category failed j =
    filter (\<lambda>e. (category = None \<or> category = Some (en_category e)) \<and> (failed \<longrightarrow> en_result e = ''failed''))
      (rev (js_entries (jr_stored j)))"
proof -
  have "length (filter (entry_matches None category failed) (rev (js_entries (jr_stored j)))) \<le> 100 * 3"
    using assms(2) by (auto intro: order_trans [OF length_filter_le])
  then have "journal_pages 3 None category failed j = filter (entry_matches None category failed) (rev (js_entries (jr_stored j)))"
    using assms(1) by (intro journal_pages_all) (simp_all add: entries_ordered_def)
  also have "\<dots> = filter (\<lambda>e. (category = None \<or> category = Some (en_category e)) \<and> (failed \<longrightarrow> en_result e = ''failed''))
      (rev (js_entries (jr_stored j)))"
    by (rule filter_cong) (auto simp: entry_matches_def split: option.splits)
  finally show ?thesis .
qed

definition demo_journal :: journal where
  "demo_journal = \<lparr>jr_flash = Missing, jr_stored = \<lparr>js_next_id = 121,
     js_entries = map (\<lambda>i. new_entry i i None demo_report) [1..<121], js_level = Standard\<rparr>, jr_storage_ok = True, jr_dirty = True\<rparr>"

theorem journal_pages_complete_witness:
  "sorted_wrt (<) (map en_id (js_entries (jr_stored demo_journal))) \<and> length (js_entries (jr_stored demo_journal)) \<le> 300
   \<and> map en_id (journal_pages 3 None (Some ''task'') False demo_journal) = rev [1..<121]
   \<and> length (fst (journal_page None (Some ''task'') False demo_journal)) = 100"
proof -
  have new: "en_id (new_entry i at clk r) = i" "en_category (new_entry i at clk r) = ar_category r" for i at clk r
    by (simp_all add: new_entry_def)
  have ids: "map en_id (js_entries (jr_stored demo_journal)) = [1..<121]"
    by (simp add: demo_journal_def comp_def new del: upt_rec_numeral)
  have srt: "sorted_wrt (<) (map en_id (js_entries (jr_stored demo_journal)))"
    unfolding ids by (rule sorted_wrt_upt)
  have len: "length (js_entries (jr_stored demo_journal)) \<le> 300" using arg_cong [OF ids, of length] by simp
  have cat: "\<forall>e\<in>set (js_entries (jr_stored demo_journal)). en_category e = ''task''"
    by (simp add: demo_journal_def new demo_report_def del: upt_rec_numeral)
  have "filter (entry_matches None (Some ''task'') False) (rev (js_entries (jr_stored demo_journal)))
      = rev (js_entries (jr_stored demo_journal))"
    using cat by (simp add: entry_matches_def)
  then have page: "length (fst (journal_page None (Some ''task'') False demo_journal)) = 100"
    using arg_cong [OF ids, of length] by (simp add: journal_page_def Let_def del: upt_rec_numeral)
  have "filter (\<lambda>e. (Some ''task'' = None \<or> Some ''task'' = Some (en_category e)) \<and> (False \<longrightarrow> en_result e = ''failed''))
      (rev (js_entries (jr_stored demo_journal))) = rev (js_entries (jr_stored demo_journal))"
    using cat by simp
  then have "journal_pages 3 None (Some ''task'') False demo_journal = rev (js_entries (jr_stored demo_journal))"
    using journal_pages_complete [OF srt len, of "Some ''task''" False] by simp
  then have "map en_id (journal_pages 3 None (Some ''task'') False demo_journal) = rev [1..<121]"
    by (simp only: rev_map [symmetric] ids)
  then show ?thesis using srt len page by blast
qed

text \<open>
  The loader refuses texts of more than 80 bytes while \<open>push\<close> cuts the task at 80
  characters: a task name of 41 two-byte characters is stored, and at the next start the whole
  journal is empty.
\<close>

theorem journal_lost_to_long_task:
  "let j = fold (journal_step (\<lambda>_. 0))
        [JPush True 10 None demo_report,
         JPush True 20 None (demo_report\<lparr>ar_task := concat (replicate 41 [char_of (195 :: nat), char_of (169 :: nat)])\<rparr>),
         JFlush True] (journal_load (\<lambda>_. 0) Missing)
   in length (js_entries (jr_stored j)) = 2 \<and> jr_storage_ok j
      \<and> js_entries (jr_stored (journal_load (\<lambda>_. 0) (jr_flash j))) = []"
  by code_simp

end
