(* ===== verification/Update_Status.thy ===== *)
theory Update_Status
  imports Json_Value Rust_Net Interfaces
begin

text \<open>
  The status block of \<open>update_status.rs\<close>: two bounded logs of fixed codes, the phase of the
  self-update, and the mirror that is safe to show.  The system time is an argument (seconds,
  \<open>None\<close> before 1970); \<open>url_parse\<close> is the URL parser and \<open>ser_len\<close> the length of
  the printed JSON.  The process-wide mutex is taken by every call; a call on a poisoned mutex
  does nothing and is not modelled.
\<close>

definition codes :: "string list" where
  "codes = [''started'', ''connected'', ''reconnecting'', ''command_failed'', ''session_expired'', ''checking'',
     ''signature_verified'', ''downloading'', ''installing'', ''restarting'', ''succeeded'', ''failed'', ''idle'',
     ''signature_failed'', ''download_failed'', ''install_failed'']"

definition max_events :: nat where "max_events = 40"
definition max_block_bytes :: nat where "max_block_bytes = 16 * 1024"
definition max_timestamp :: int where "max_timestamp = 4102444800"
definition max_mirror_bytes :: nat where "max_mirror_bytes = 2048"

record status_log =
  sl_runtime :: "(int \<times> string) list"
  sl_update :: "(int \<times> string) list"
  sl_phase :: "string option"
  sl_auto_enabled :: "bool option"
  sl_mirror :: "string option"

definition status_initial :: status_log where
  "status_initial = \<lparr>sl_runtime = [], sl_update = [], sl_phase = Some ''idle'', sl_auto_enabled = None, sl_mirror = None\<rparr>"

definition known_code :: "string \<Rightarrow> string option" where
  "known_code code = find (\<lambda>candidate. candidate = code) codes"

definition event_timestamp :: "nat option \<Rightarrow> int option" where
  "event_timestamp clk =
     (case clk of None \<Rightarrow> None
      | Some seconds \<Rightarrow>
          if int seconds \<le> i64_max \<and> 0 \<le> int seconds \<and> int seconds \<le> max_timestamp then Some (int seconds) else None)"

definition event_push :: "nat option \<Rightarrow> string \<Rightarrow> (int \<times> string) list \<Rightarrow> (int \<times> string) list" where
  "event_push clk code xs =
     (case event_timestamp clk of None \<Rightarrow> xs
      | Some ts \<Rightarrow>
          if xs \<noteq> [] \<and> snd (last xs) = code then xs
          else (let ys = (if length xs \<ge> max_events then tl xs else xs) in ys @ [(ts, code)]))"

definition status_runtime :: "nat option \<Rightarrow> string \<Rightarrow> status_log \<Rightarrow> status_log" where
  "status_runtime clk code l =
     (case known_code code of None \<Rightarrow> l
      | Some c \<Rightarrow> l\<lparr>sl_runtime := event_push clk c (sl_runtime l)\<rparr>)"

definition status_update :: "nat option \<Rightarrow> string \<Rightarrow> status_log \<Rightarrow> status_log" where
  "status_update clk code l =
     (case known_code code of None \<Rightarrow> l
      | Some c \<Rightarrow> l\<lparr>sl_update := event_push clk c (sl_update l), sl_phase := Some c\<rparr>)"

definition trim_end_matches :: "char \<Rightarrow> string \<Rightarrow> string" where
  "trim_end_matches c s = rev (dropWhile (\<lambda>x. x = c) (rev s))"

definition safe_mirror :: "(string \<Rightarrow> url option) \<Rightarrow> string \<Rightarrow> string option" where
  "safe_mirror url_parse raw =
     (let v = trim_end_matches (CHR ''/'') (trim raw) in
      if v = [] \<or> length v > max_mirror_bytes \<or> has_control v then None
      else case url_parse v of None \<Rightarrow> None
        | Some u \<Rightarrow>
            if url_scheme u = ''https'' \<and> url_host_str u \<noteq> None \<and> url_username u = [] \<and> url_password u = None
               \<and> url_query u = None \<and> url_fragment u = None
            then Some v else None)"

fun find_map :: "('a \<Rightarrow> 'b option) \<Rightarrow> 'a list \<Rightarrow> 'b option" where
  "find_map f [] = None"
| "find_map f (x # xs) = (case f x of Some y \<Rightarrow> Some y | None \<Rightarrow> find_map f xs)"

definition select_mirror :: "(string \<Rightarrow> url option) \<Rightarrow> bool \<Rightarrow> string list \<Rightarrow> string option" where
  "select_mirror url_parse custom_enabled servers =
     (if custom_enabled then find_map (safe_mirror url_parse) servers else None)"

definition status_set_config :: "(string \<Rightarrow> url option) \<Rightarrow> bool \<Rightarrow> bool \<Rightarrow> string list \<Rightarrow> status_log \<Rightarrow> status_log" where
  "status_set_config url_parse enabled custom_enabled servers l =
     l\<lparr>sl_auto_enabled := Some enabled, sl_mirror := select_mirror url_parse custom_enabled servers\<rparr>"

definition events_json :: "(int \<times> string) list \<Rightarrow> json list" where
  "events_json xs = map (\<lambda>(ts, code). jobj [(''ts'', jint ts), (''code'', JString code)]) xs"

definition build_block :: "status_log \<Rightarrow> json list \<Rightarrow> json list \<Rightarrow> json" where
  "build_block l runtime update =
     jobj ([(''supported'', JBool True),
            (''auto_update_supported'', JBool (sl_auto_enabled l \<noteq> None)),
            (''auto_update_enabled'', jopt JBool (sl_auto_enabled l))]
           @ (case sl_mirror l of Some mirror \<Rightarrow> [(''mirror_url'', JString mirror)] | None \<Rightarrow> [])
           @ [(''phase'', jopt JString (sl_phase l)),
              (''runtime_events'', JArray runtime), (''update_events'', JArray update)])"

text \<open>The loop that drops the oldest event of the longer list while the block is too long.\<close>

function shrink_block :: "(json \<Rightarrow> nat) \<Rightarrow> status_log \<Rightarrow> json list \<Rightarrow> json list \<Rightarrow> json list \<times> json list" where
  "shrink_block ser_len l runtime update =
     (if ser_len (build_block l runtime update) > max_block_bytes \<and> (runtime \<noteq> [] \<or> update \<noteq> [])
      then if length runtime \<ge> length update then shrink_block ser_len l (tl runtime) update
           else shrink_block ser_len l runtime (tl update)
      else (runtime, update))"
  by pat_completeness auto

termination shrink_block
proof (relation "measure (\<lambda>(_, _, runtime, update). length runtime + length update)", goal_cases)
  case (2 ser_len l runtime update)
  then show ?case by (cases runtime) auto
next
  case (3 ser_len l runtime update)
  then show ?case by (cases update) auto
qed simp

declare shrink_block.simps [simp del]

definition block_from :: "(json \<Rightarrow> nat) \<Rightarrow> status_log \<Rightarrow> json" where
  "block_from ser_len l =
     (let (runtime, update) = shrink_block ser_len l (events_json (sl_runtime l)) (events_json (sl_update l))
      in build_block l runtime update)"

definition panel_block :: "(json \<Rightarrow> nat) \<Rightarrow> status_log option \<Rightarrow> json" where
  "panel_block ser_len locked =
     (case locked of Some l \<Rightarrow> block_from ser_len l | None \<Rightarrow> jobj [(''supported'', JBool False)])"

datatype status_event =
    SRuntime "nat option" string
  | SUpdate "nat option" string
  | SConfig bool bool "string list"

fun status_step :: "(string \<Rightarrow> url option) \<Rightarrow> status_event \<Rightarrow> status_log \<Rightarrow> status_log" where
  "status_step up (SRuntime clk code) l = status_runtime clk code l"
| "status_step up (SUpdate clk code) l = status_update clk code l"
| "status_step up (SConfig enabled custom servers) l = status_set_config up enabled custom servers l"

section \<open>Laws\<close>

interpretation event_log: bounded_log max_events "\<lambda>xs. xs" "\<lambda>(clk, code). event_push clk code"
proof
  fix xs :: "(int \<times> string) list" and e :: "nat option \<times> string"
  obtain clk code where e: "e = (clk, code)" by (cases e)
  assume len: "length xs \<le> max_events"
  show "(case e of (clk, code) \<Rightarrow> event_push clk code) xs = xs
      \<or> (\<exists>x. (case e of (clk, code) \<Rightarrow> event_push clk code) xs = drop (Suc (length xs) - max_events) (xs @ [x]))"
  proof (cases "event_timestamp clk")
    case (Some ts)
    have "(if length xs \<ge> max_events then tl xs else xs) @ [(ts, code)] = drop (Suc (length xs) - max_events) (xs @ [(ts, code)])"
      using len by (auto simp: max_events_def drop_Suc not_le Suc_diff_le)
    then show ?thesis using Some by (auto simp: e event_push_def Let_def)
  qed (simp add: e event_push_def)
qed (simp add: max_events_def)

text \<open>What every list of events satisfies.\<close>

fun no_repeats :: "(int \<times> string) list \<Rightarrow> bool" where
  "no_repeats (x # y # xs) \<longleftrightarrow> snd x \<noteq> snd y \<and> no_repeats (y # xs)"
| "no_repeats _ \<longleftrightarrow> True"

definition events_ok :: "(int \<times> string) list \<Rightarrow> bool" where
  "events_ok xs \<longleftrightarrow> length xs \<le> max_events \<and> no_repeats xs
     \<and> (\<forall>(ts, code)\<in>set xs. 0 \<le> ts \<and> ts \<le> max_timestamp \<and> code \<in> set codes)"

lemma no_repeats_snoc: "no_repeats xs \<Longrightarrow> (xs \<noteq> [] \<Longrightarrow> snd (last xs) \<noteq> snd x) \<Longrightarrow> no_repeats (xs @ [x])"
  by (induction xs rule: no_repeats.induct) auto

lemma no_repeats_tl: "no_repeats xs \<Longrightarrow> no_repeats (tl xs)"
  by (cases xs rule: no_repeats.cases) auto

lemma known_code_iff: "known_code code = (if code \<in> set codes then Some code else None)"
proof -
  have "find (\<lambda>candidate. candidate = code) xs = (if code \<in> set xs then Some code else None)" for xs
    by (induction xs) auto
  then show ?thesis by (simp add: known_code_def)
qed

lemma event_push_ok:
  assumes "events_ok xs" "code \<in> set codes"
  shows "events_ok (event_push clk code xs)"
proof (cases "event_timestamp clk")
  case (Some ts)
  have ts: "0 \<le> ts \<and> ts \<le> max_timestamp"
    using Some by (auto simp: event_timestamp_def split: option.splits if_splits)
  have len: "length (event_push clk code xs) \<le> max_events"
    using event_log.push_bounded [of xs "(clk, code)"] assms(1) by (simp add: events_ok_def)
  let ?ys = "if length xs \<ge> max_events then tl xs else xs"
  have "no_repeats ?ys" "set ?ys \<subseteq> set xs"
    using assms(1) no_repeats_tl by (auto simp: events_ok_def dest: list.set_sel(2) [rotated] split: if_splits)
      (metis in_set_dropD drop_Suc drop0)
  moreover have "snd (last ?ys) \<noteq> code" if "snd (last xs) \<noteq> code" "?ys \<noteq> []"
    using that by (auto split: if_splits simp: last_tl)
  ultimately show ?thesis using Some ts len assms
    by (auto simp: events_ok_def event_push_def Let_def intro!: no_repeats_snoc)
qed (simp add: event_push_def assms)

lemma shrink_block_result:
  "\<exists>a b. shrink_block ser_len l runtime update = (drop a runtime, drop b update)
     \<and> (ser_len (build_block l (drop a runtime) (drop b update)) \<le> max_block_bytes
        \<or> drop a runtime = [] \<and> drop b update = [])
     \<and> (ser_len (build_block l runtime update) \<le> max_block_bytes \<longrightarrow> a = 0 \<and> b = 0)"
proof (induction ser_len l runtime update rule: shrink_block.induct)
  case (1 ser_len l runtime update)
  show ?case
  proof (cases "ser_len (build_block l runtime update) > max_block_bytes \<and> (runtime \<noteq> [] \<or> update \<noteq> [])")
    case False
    then show ?thesis by (subst shrink_block.simps) (intro exI [of _ 0], auto)
  next
    case big: True
    show ?thesis
    proof (cases "length runtime \<ge> length update")
      case True
      obtain a b where "shrink_block ser_len l (tl runtime) update = (drop a (tl runtime), drop b update)"
        "ser_len (build_block l (drop a (tl runtime)) (drop b update)) \<le> max_block_bytes
         \<or> drop a (tl runtime) = [] \<and> drop b update = []"
        using "1.IH"(1) [OF big True] by blast
      then show ?thesis using big True
        by (subst shrink_block.simps) (intro exI [of _ "Suc a"] exI [of _ b], simp add: drop_Suc)
    next
      case False
      obtain a b where "shrink_block ser_len l runtime (tl update) = (drop a runtime, drop b (tl update))"
        "ser_len (build_block l (drop a runtime) (drop b (tl update))) \<le> max_block_bytes
         \<or> drop a runtime = [] \<and> drop b (tl update) = []"
        using "1.IH"(2) [OF big False] by blast
      then show ?thesis using big False
        by (subst shrink_block.simps) (intro exI [of _ a] exI [of _ "Suc b"], simp add: drop_Suc)
    qed
  qed
qed

lemma find_map_Some: "find_map f xs = Some y \<Longrightarrow> \<exists>x\<in>set xs. f x = Some y"
  by (induction xs) (auto split: option.splits)

definition mirror_safe :: "(string \<Rightarrow> url option) \<Rightarrow> string option \<Rightarrow> bool" where
  "mirror_safe url_parse m = (case m of None \<Rightarrow> True
     | Some v \<Rightarrow> length v \<le> max_mirror_bytes \<and> \<not> has_control v
         \<and> (case url_parse v of None \<Rightarrow> False
            | Some u \<Rightarrow> url_scheme u = ''https'' \<and> url_username u = [] \<and> url_password u = None
                \<and> url_query u = None \<and> url_fragment u = None))"

lemma safe_mirror_Some: "safe_mirror up raw = Some v \<Longrightarrow> mirror_safe up (Some v)"
  by (auto simp: mirror_safe_def safe_mirror_def Let_def not_less split: option.splits if_splits)

lemma select_mirror_safe: "mirror_safe up (select_mirror up custom servers)"
proof (cases "select_mirror up custom servers")
  case (Some v)
  then obtain raw where "safe_mirror up raw = Some v"
    by (auto simp: select_mirror_def split: if_splits dest!: find_map_Some)
  then show ?thesis using Some safe_mirror_Some by metis
qed (simp add: mirror_safe_def)

definition status_ok :: "(string \<Rightarrow> url option) \<Rightarrow> status_log \<Rightarrow> bool" where
  "status_ok up l \<longleftrightarrow> events_ok (sl_runtime l) \<and> events_ok (sl_update l)
     \<and> (case sl_phase l of Some code \<Rightarrow> code \<in> set codes | None \<Rightarrow> False) \<and> mirror_safe up (sl_mirror l)"

lemma status_step_ok: "status_ok up l \<Longrightarrow> status_ok up (status_step up e l)"
  by (cases e) (auto simp: status_ok_def status_runtime_def status_update_def status_set_config_def known_code_iff
      event_push_ok select_mirror_safe)

lemma status_run_ok: "status_ok up l \<Longrightarrow> status_ok up (fold (status_step up) es l)"
  by (induction es arbitrary: l) (auto simp: status_step_ok)

section \<open>Properties\<close>

text \<open>
  Nothing but fixed codes, bounded lists and a credential-free mirror enters the status.
  After any sequence of calls with any arguments, both event lists have at most 40 events with
  timestamps between 1970 and 2100, codes of the fixed list and no code twice in a row, the
  phase is such a code, and the mirror, if any, is an \<open>https\<close> URL of at most 2048 bytes
  without user, password, query, fragment or control characters.
\<close>

theorem status_only_codes: "status_ok up (fold (status_step up) es status_initial)"
  by (rule status_run_ok) (simp add: status_ok_def status_initial_def events_ok_def mirror_safe_def codes_def)

text \<open>
  The status block fits its limit, at the price of the oldest events only.  The block is
  built from suffixes of the two event lists, its printed length is within 16 KiB unless no
  event is left, and nothing is dropped from a block that fits.
\<close>

theorem status_block_bounded:
  "\<exists>a b. block_from ser_len l
       = build_block l (drop a (events_json (sl_runtime l))) (drop b (events_json (sl_update l)))
     \<and> (ser_len (block_from ser_len l) \<le> max_block_bytes
        \<or> drop a (events_json (sl_runtime l)) = [] \<and> drop b (events_json (sl_update l)) = [])
     \<and> (a = 0 \<and> b = 0
        \<or> max_block_bytes < ser_len (build_block l (events_json (sl_runtime l)) (events_json (sl_update l))))"
proof -
  obtain a b where ab: "shrink_block ser_len l (events_json (sl_runtime l)) (events_json (sl_update l))
      = (drop a (events_json (sl_runtime l)), drop b (events_json (sl_update l)))"
    "ser_len (build_block l (drop a (events_json (sl_runtime l))) (drop b (events_json (sl_update l)))) \<le> max_block_bytes
     \<or> drop a (events_json (sl_runtime l)) = [] \<and> drop b (events_json (sl_update l)) = []"
    "ser_len (build_block l (events_json (sl_runtime l)) (events_json (sl_update l))) \<le> max_block_bytes \<longrightarrow> a = 0 \<and> b = 0"
    using shrink_block_result [of ser_len l "events_json (sl_runtime l)" "events_json (sl_update l)"] by blast
  then show ?thesis by (intro exI [of _ a] exI [of _ b]) (auto simp: block_from_def not_le)
qed

end
