(* ===== verification/Auth.thy ===== *)
theory Auth
  imports Json_Value Interfaces
begin

text \<open>
  Sign-in of \<open>auth.rs\<close>: bearer sessions with a sliding twelve hour lifetime, and the
  checks against the vendor's web service.  The boot clock is an argument in nanoseconds, the
  wall clock in seconds, the random bytes of \<open>/dev/urandom\<close> an argument (\<open>None\<close> when
  the read fails); \<open>sha\<close> is SHA-256 and \<open>ubus\<close> the answer of the bus to one request.
\<close>

definition session_ttl :: nat where "session_ttl = 12 * 60 * 60"
definition session_limit :: nat where "session_limit = 16"

record session =
  se_token :: string
  se_deadline :: nat

type_synonym sessions = "session list"

text \<open>\<open>Duration\<close> in nanoseconds, and its saturating addition.\<close>

definition duration_max :: nat where
  "duration_max = (2 ^ 64 - 1) * 10 ^ 9 + 999999999"

definition duration_add :: "nat \<Rightarrow> nat \<Rightarrow> nat" where
  "duration_add a b = min (a + b) duration_max"

definition ttl_nanos :: nat where
  "ttl_nanos = session_ttl * 10 ^ 9"

definition secure_eq :: "string \<Rightarrow> string \<Rightarrow> bool" where
  "secure_eq a b \<longleftrightarrow>
     length a = length b
     \<and> fold (\<lambda>(x, y) diff. diff OR (x XOR y)) (zip (str_bytes a) (str_bytes b)) (0 :: u8) = 0"

fun touch :: "string \<Rightarrow> nat \<Rightarrow> sessions \<Rightarrow> (bool \<times> sessions)" where
  "touch token deadline [] = (False, [])"
| "touch token deadline (s # ss) =
     (if secure_eq (se_token s) token then (True, s\<lparr>se_deadline := deadline\<rparr> # ss)
      else (let (found, ss') = touch token deadline ss in (found, s # ss')))"

definition session_validate :: "nat \<Rightarrow> string \<Rightarrow> sessions \<Rightarrow> bool \<times> sessions" where
  "session_validate now token ss =
     touch token (duration_add now ttl_nanos) (filter (\<lambda>s. se_deadline s > now) ss)"

definition hex_digit_lower :: "nat \<Rightarrow> char" where
  "hex_digit_lower n = (if n < 10 then char_of (48 + n) else char_of (87 + n))"

definition hex_digit_upper :: "nat \<Rightarrow> char" where
  "hex_digit_upper n = (if n < 10 then char_of (48 + n) else char_of (55 + n))"

definition hex_lower :: "bytes \<Rightarrow> string" where
  "hex_lower bs = concat (map (\<lambda>b. [hex_digit_lower (unat b div 16), hex_digit_lower (unat b mod 16)]) bs)"

definition hex_upper_bytes :: "bytes \<Rightarrow> string" where
  "hex_upper_bytes bs = concat (map (\<lambda>b. [hex_digit_upper (unat b div 16), hex_digit_upper (unat b mod 16)]) bs)"

text \<open>\<open>min_by_key\<close>: the index of the first smallest deadline.\<close>

definition oldest_index :: "sessions \<Rightarrow> nat" where
  "oldest_index ss =
     (case find (\<lambda>i. \<forall>s\<in>set ss. se_deadline (ss ! i) \<le> se_deadline s) [0..<length ss] of
        Some i \<Rightarrow> i | None \<Rightarrow> 0)"

definition remove_index :: "nat \<Rightarrow> 'a list \<Rightarrow> 'a list" where
  "remove_index i xs = take i xs @ drop (Suc i) xs"

definition session_issue :: "bytes option \<Rightarrow> nat \<Rightarrow> int \<Rightarrow> sessions \<Rightarrow> (unit + string \<times> nat) \<times> sessions" where
  "session_issue random now wall ss =
     (case random of None \<Rightarrow> (Inl (), ss)
      | Some bs \<Rightarrow>
          let token = hex_lower bs;
              deadline = duration_add now ttl_nanos;
              expires_at = sat_add64 (nat (max wall 0)) session_ttl;
              live = filter (\<lambda>s. se_deadline s > now) ss;
              kept = (if length live \<ge> session_limit then remove_index (oldest_index live) live else live)
          in (Inr (token, expires_at), kept @ [\<lparr>se_token = token, se_deadline = deadline\<rparr>]))"

section \<open>The vendor's web service\<close>

definition success_text :: "string \<Rightarrow> bool" where
  "success_text v \<longleftrightarrow>
     to_ascii_lowercase v \<in> set [''success'', ''ok'', ''true'', ''pass'', ''passed'', ''logged'', ''logined'', ''done'']"

definition truthy :: "json \<Rightarrow> bool" where
  "truthy v \<longleftrightarrow>
     as_bool v = Some True \<or> as_i64 v = Some 1
     \<or> (case as_str v of Some t \<Rightarrow> t = ''1'' \<or> success_text t | None \<Rightarrow> False)"

definition nonempty_text :: "json \<Rightarrow> string \<Rightarrow> bool" where
  "nonempty_text v key = (case Option.bind (jget v key) as_str of Some t \<Rightarrow> t \<noteq> [] | None \<Rightarrow> False)"

text \<open>The answer of the first key that decides: a flag if present, else a readable code.\<close>

fun flag_verdict :: "string list \<Rightarrow> json \<Rightarrow> bool option" where
  "flag_verdict [] v = None"
| "flag_verdict (key # ks) v = (case jget v key of Some x \<Rightarrow> Some (truthy x) | None \<Rightarrow> flag_verdict ks v)"

definition code_value :: "json \<Rightarrow> bool option" where
  "code_value x =
     (case as_i64 x of Some n \<Rightarrow> Some (n = 0)
      | None \<Rightarrow> (case as_str x of None \<Rightarrow> None
         | Some t \<Rightarrow> (case parse_i64 t of Some n \<Rightarrow> Some (n = 0) | None \<Rightarrow> Some (success_text t))))"

fun code_verdict :: "string list \<Rightarrow> json \<Rightarrow> bool option" where
  "code_verdict [] v = None"
| "code_verdict (key # ks) v =
     (case Option.bind (jget v key) code_value of Some b \<Rightarrow> Some b | None \<Rightarrow> code_verdict ks v)"

definition indicates_success :: "json \<Rightarrow> bool" where
  "indicates_success v =
     (if list_ex (nonempty_text v) [''webtoken'', ''token'', ''auth_token'', ''secondary_auth_token''] then True
      else case flag_verdict [''success'', ''ok'', ''web_login_flag'', ''login_flag''] v of
        Some b \<Rightarrow> b
      | None \<Rightarrow>
        (case code_verdict [''code'', ''errno'', ''ret'', ''result''] v of
           Some b \<Rightarrow> b
         | None \<Rightarrow>
             list_ex (\<lambda>key. case Option.bind (jget v key) as_str of Some t \<Rightarrow> success_text t | None \<Rightarrow> False)
               [''status'', ''state'', ''msg'', ''message'']
             \<or> list_ex (nonempty_text v) [''username'', ''user'']))"

type_synonym ubus_call = "string \<Rightarrow> string \<Rightarrow> json \<Rightarrow> string + json"

definition password_response :: "(bytes \<Rightarrow> bytes) \<Rightarrow> string \<Rightarrow> string \<Rightarrow> string" where
  "password_response sha password salt =
     hex_upper_bytes (sha (str_bytes (hex_upper_bytes (sha (str_bytes password)) @ salt)))"

definition verify_password :: "(bytes \<Rightarrow> bytes) \<Rightarrow> ubus_call \<Rightarrow> string \<Rightarrow> string \<Rightarrow> bool" where
  "verify_password sha ubus username password =
     (if username = [] \<or> length username > 256 \<or> length password > 256 then False
      else case ubus ''zwrt_web'' ''web_login_info'' (JObject []) of
        Inl _ \<Rightarrow> False
      | Inr info \<Rightarrow>
          (case Option.bind (jget info ''zte_web_sault'') as_str of
             None \<Rightarrow> False
           | Some salt \<Rightarrow>
               if salt = [] \<or> length salt > 256 then False
               else case ubus ''zwrt_web'' ''web_login''
                      (jobj [(''username'', JString username), (''password'', JString (password_response sha password salt))]) of
                 Inl _ \<Rightarrow> False
               | Inr reply \<Rightarrow> indicates_success reply))"

definition verify_webtoken :: "ubus_call \<Rightarrow> string \<Rightarrow> int \<Rightarrow> string \<Rightarrow> string \<Rightarrow> bool" where
  "verify_webtoken ubus token mode remote tag =
     (if token = [] \<or> length token > 4096 \<or> tag = [] \<or> length tag > 256 then False
      else let args = jobj [(''webtoken'', JString token), (''zmode'', jint mode),
                            (''web_remote_addr'', JString remote), (''z-tag'', JString tag)]
           in list_ex (\<lambda>m. case ubus ''zwrt_web'' m args of Inr reply \<Rightarrow> indicates_success reply | Inl _ \<Rightarrow> False)
                [''webtoken_check'', ''web_security_check''])"

definition token_reply :: "string \<Rightarrow> nat \<Rightarrow> json" where
  "token_reply token expires_at = jobj
     [(''ok'', JBool True), (''token_type'', JString ''Bearer''), (''access_token'', JString token),
      (''expires_in'', jint (int session_ttl)), (''expires_at'', jint (int expires_at))]"

section \<open>Calls as steps\<close>

datatype session_event = SIssue "bytes option" nat int | SValidate nat string

fun session_step :: "session_event \<Rightarrow> sessions \<Rightarrow> sessions" where
  "session_step (SIssue random now wall) ss = snd (session_issue random now wall ss)"
| "session_step (SValidate now token) ss = snd (session_validate now token ss)"

section \<open>Laws\<close>

lemma or_fold_zero:
  "fold (\<lambda>(x, y) diff. diff OR (x XOR y)) ps d = 0 \<longleftrightarrow> d = 0 \<and> (\<forall>(x, y)\<in>set ps. x = y)"
  for ps :: "(u8 \<times> u8) list"
proof (induction ps arbitrary: d)
  case (Cons p ps)
  obtain x y where p: "p = (x, y)" by (cases p)
  have "d OR (x XOR y) = 0 \<longleftrightarrow> d = 0 \<and> x = y"
    by (auto simp: or_eq_0_iff bit_eq_iff [of "x XOR y"] bit_eq_iff [of x y] bit_xor_iff)
  then show ?case using Cons by (auto simp: p)
qed simp

lemma zip_all_eq: "length xs = length ys \<Longrightarrow> (\<forall>(x, y)\<in>set (zip xs ys). x = y) \<longleftrightarrow> xs = ys"
  by (induction xs ys rule: list_induct2) auto

lemma str_bytes_inj: "str_bytes a = str_bytes b \<longleftrightarrow> a = b"
  by (metis bytes_str_str_bytes)

lemma secure_eq_iff [simp]: "secure_eq a b \<longleftrightarrow> a = b"
proof (cases "length a = length b")
  case True
  then show ?thesis by (simp add: secure_eq_def or_fold_zero zip_all_eq str_bytes_inj)
qed (auto simp: secure_eq_def)

lemma touch_found: "fst (touch token deadline ss) \<longleftrightarrow> token \<in> se_token ` set ss"
  by (induction ss) (auto split: prod.splits)

lemma touch_set:
  "s \<in> set (snd (touch token deadline ss)) \<Longrightarrow>
   s \<in> set ss \<or> se_token s = token \<and> se_deadline s = deadline \<and> token \<in> se_token ` set ss"
  by (induction ss) (auto split: prod.splits if_splits)

lemma length_touch [simp]: "length (snd (touch token deadline ss)) = length ss"
  by (induction ss) (auto split: prod.splits)

lemma length_validate: "length (snd (session_validate now token ss)) \<le> length ss"
  by (simp add: session_validate_def)

lemma set_remove_index: "set (remove_index i xs) \<subseteq> set xs"
  by (auto simp: remove_index_def dest: in_set_takeD in_set_dropD)

lemma length_remove_index: "i < length xs \<Longrightarrow> length (remove_index i xs) = length xs - 1"
  by (simp add: remove_index_def)

lemma in_remove_index: "x \<in> set xs \<Longrightarrow> i < length xs \<Longrightarrow> x \<noteq> xs ! i \<Longrightarrow> x \<in> set (remove_index i xs)"
  by (metis Un_iff id_take_nth_drop insert_iff list.simps(15) remove_index_def set_append)

lemma oldest_index_least:
  assumes "ss \<noteq> []"
  shows "oldest_index ss < length ss \<and> (\<forall>s\<in>set ss. se_deadline (ss ! oldest_index ss) \<le> se_deadline s)"
proof -
  let ?P = "\<lambda>i. \<forall>s\<in>set ss. se_deadline (ss ! i) \<le> se_deadline s"
  have "Min (se_deadline ` set ss) \<in> se_deadline ` set ss" using assms by (intro Min_in) auto
  then obtain i where "i < length ss" "se_deadline (ss ! i) = Min (se_deadline ` set ss)"
    by (auto simp: in_set_conv_nth)
  then have "i < length ss \<and> ?P i" by auto
  then have "find ?P [0..<length ss] \<noteq> None" by (auto simp: find_None_iff)
  then obtain k where k: "find ?P [0..<length ss] = Some k" by blast
  then have "k < length ss \<and> ?P k" by (auto simp: find_Some_iff)
  then show ?thesis using k by (simp add: oldest_index_def)
qed

definition live_sessions :: "nat \<Rightarrow> sessions \<Rightarrow> sessions" where
  "live_sessions now ss = filter (\<lambda>s. se_deadline s > now) ss"

lemma length_issue:
  assumes "length ss \<le> session_limit"
  shows "length (snd (session_issue random now wall ss)) \<le> session_limit"
proof (cases random)
  case (Some bs)
  let ?live = "live_sessions now ss"
  have le: "length ?live \<le> session_limit" using assms by (auto simp: live_sessions_def intro: order_trans [OF length_filter_le])
  have "length (remove_index (oldest_index ?live) ?live) < session_limit" if "length ?live \<ge> session_limit"
  proof -
    have "?live \<noteq> []" using that by (auto simp: session_limit_def)
    then show ?thesis using that le oldest_index_least [of ?live] by (simp add: length_remove_index session_limit_def)
  qed
  then show ?thesis using Some le by (auto simp: session_issue_def Let_def live_sessions_def)
qed (simp add: session_issue_def assms)

lemma session_step_limit: "length ss \<le> session_limit \<Longrightarrow> length (session_step e ss) \<le> session_limit"
  by (cases e) (auto simp: length_issue intro: order_trans [OF length_validate])

lemma session_run_limit: "length ss \<le> session_limit \<Longrightarrow> length (fold session_step es ss) \<le> session_limit"
  by (induction es arbitrary: ss) (auto simp: session_step_limit)

text \<open>The tokens a history issued, and the instants at which it issued or accepted one.\<close>

fun event_issues :: "string \<Rightarrow> session_event \<Rightarrow> bool" where
  "event_issues token (SIssue (Some bs) now wall) \<longleftrightarrow> hex_lower bs = token"
| "event_issues token _ \<longleftrightarrow> False"

fun event_uses :: "string \<Rightarrow> session_event \<Rightarrow> nat option" where
  "event_uses token (SIssue (Some bs) now wall) = (if hex_lower bs = token then Some now else None)"
| "event_uses token (SValidate now t) = (if t = token then Some now else None)"
| "event_uses token _ = None"

definition backed :: "session_event list \<Rightarrow> session \<Rightarrow> bool" where
  "backed es s \<longleftrightarrow> (\<exists>e\<in>set es. event_issues (se_token s) e)
     \<and> (\<exists>e\<in>set es. \<exists>t. event_uses (se_token s) e = Some t \<and> se_deadline s = duration_add t ttl_nanos)"

lemma backed_mono: "backed es s \<Longrightarrow> backed (es @ [e]) s"
  by (auto simp: backed_def)

lemma step_backed:
  assumes "\<forall>s\<in>set ss. backed es s" "s \<in> set (session_step e ss)"
  shows "backed (es @ [e]) s"
proof (cases e)
  case (SIssue random now wall)
  show ?thesis
  proof (cases random)
    case None
    then show ?thesis using assms SIssue backed_mono by (simp add: session_issue_def)
  next
    case (Some bs)
    have "s \<in> set ss \<or> s = \<lparr>se_token = hex_lower bs, se_deadline = duration_add now ttl_nanos\<rparr>"
      using assms(2) set_remove_index by (fastforce simp: SIssue Some session_issue_def Let_def split: if_splits)
    then show ?thesis using assms(1) backed_mono by (auto simp: SIssue Some backed_def)
  qed
next
  case (SValidate now token)
  have "s \<in> set ss \<or> se_token s = token \<and> se_deadline s = duration_add now ttl_nanos \<and> token \<in> se_token ` set ss"
    using assms(2) touch_set [of s token "duration_add now ttl_nanos" "filter (\<lambda>s. se_deadline s > now) ss"]
    by (auto simp: SValidate session_validate_def)
  then show ?thesis
  proof
    assume "s \<in> set ss"
    then show ?thesis using assms(1) backed_mono by blast
  next
    assume *: "se_token s = token \<and> se_deadline s = duration_add now ttl_nanos \<and> token \<in> se_token ` set ss"
    then obtain s' where "s' \<in> set ss" "se_token s' = token" by auto
    then have "\<exists>e\<in>set es. event_issues token e" using assms(1) by (auto simp: backed_def)
    then show ?thesis using * by (auto simp: SValidate backed_def)
  qed
qed

lemma run_backed: "\<forall>s\<in>set (fold session_step es []). backed es s"
proof (induction es rule: rev_induct)
  case (snoc e es)
  then show ?case using step_backed [of "fold session_step es []" es] by simp
qed simp

section \<open>Properties\<close>

text \<open>
  C18: only issued tokens with recent use are accepted.  Through any sequence of issues and
  validations, a token that validates now was issued from random bytes earlier, and was issued
  or presented less than twelve hours of boot time ago.
\<close>

theorem session_needs_recent_use:
  assumes "fst (session_validate now token (fold session_step es []))"
  shows "(\<exists>e\<in>set es. event_issues token e)
    \<and> (\<exists>e\<in>set es. \<exists>t. event_uses token e = Some t \<and> now < t + 12 * 60 * 60 * 10 ^ 9)"
proof -
  obtain s where s: "s \<in> set (fold session_step es [])" "now < se_deadline s" "se_token s = token"
    using assms by (auto simp: session_validate_def touch_found)
  then have b: "backed es s" using run_backed by blast
  then obtain e t where e: "e \<in> set es" "event_uses token e = Some t" "se_deadline s = duration_add t ttl_nanos"
    using s(3) by (auto simp: backed_def)
  have "now < t + ttl_nanos" using s(2) e(3) by (simp add: duration_add_def)
  then have "now < t + 12 * 60 * 60 * 10 ^ 9" by (simp add: ttl_nanos_def session_ttl_def)
  then show ?thesis using b e s(3) by (auto simp: backed_def)
qed

theorem session_needs_recent_use_witness:
  "fst (session_validate 2000000000 (hex_lower [1, 171]) (fold session_step [SIssue (Some [1, 171]) 1000000000 0] []))
   \<and> hex_lower [1, 171] = ''01ab''
   \<and> (\<exists>e\<in>set [SIssue (Some [1, 171]) 1000000000 0]. event_issues (hex_lower [1, 171]) e)"
proof -
  have v: "fst (session_validate 2000000000 (hex_lower [1, 171]) (fold session_step [SIssue (Some [1, 171]) 1000000000 0] []))"
    and h: "hex_lower [1, 171] = ''01ab''"
    by code_simp+
  show ?thesis using session_needs_recent_use [OF v] v h by blast
qed

text \<open>
  At most sixteen sessions, and only the one closest to expiry makes room.  After any
  sequence of calls there are at most sixteen sessions; issuing another one keeps every live
  session, except that, when sixteen are live, one whose deadline is the earliest goes.
\<close>

theorem session_capacity:
  assumes "ss = fold session_step es []" "s \<in> set ss" "now < se_deadline s"
  shows "length ss \<le> 16
    \<and> (s \<in> set (snd (session_issue random now wall ss))
       \<or> length (live_sessions now ss) = 16 \<and> (\<forall>s'\<in>set (live_sessions now ss). se_deadline s \<le> se_deadline s'))"
proof -
  have len: "length ss \<le> session_limit"
    unfolding assms(1) by (rule session_run_limit) (simp add: session_limit_def)
  have live: "s \<in> set (live_sessions now ss)" using assms(2,3) by (simp add: live_sessions_def)
  have "length (live_sessions now ss) \<le> 16"
    using len by (auto simp: live_sessions_def session_limit_def intro: order_trans [OF length_filter_le])
  moreover have "s = live_sessions now ss ! oldest_index (live_sessions now ss)"
    if "s \<notin> set (remove_index (oldest_index (live_sessions now ss)) (live_sessions now ss))"
    using that live oldest_index_least [of "live_sessions now ss"] in_remove_index [OF live] by fastforce
  moreover have "live_sessions now ss \<noteq> []" using live by auto
  ultimately show ?thesis using len assms(2) live oldest_index_least [of "live_sessions now ss"]
    by (cases random) (auto simp: session_issue_def Let_def session_limit_def simp flip: live_sessions_def)
qed

theorem session_capacity_witness:
  "\<lparr>se_token = ''01'', se_deadline = 43200000000005\<rparr> \<in> set (fold session_step [SIssue (Some [1]) 5 0] [])
   \<and> (10 :: nat) < se_deadline \<lparr>se_token = ''01'', se_deadline = 43200000000005\<rparr>
   \<and> length (fold session_step [SIssue (Some [1]) 5 0] []) \<le> 16"
proof -
  have m: "\<lparr>se_token = ''01'', se_deadline = 43200000000005\<rparr> \<in> set (fold session_step [SIssue (Some [1]) 5 0] [])"
    by code_simp
  have d: "10 < se_deadline \<lparr>se_token = ''01'', se_deadline = 43200000000005\<rparr>" by simp
  show ?thesis using session_capacity [OF refl m d] m d by blast
qed

end
