(* ===== verification/Device_Session.thy ===== *)
theory Device_Session
  imports Auth
begin

text \<open>
  The vendor web session of \<open>device_session.rs\<close>.  A login makes up to four requests on
  the bus while it holds the lock, the login information twice: \<open>ubus k\<close> is the answer to
  the \<open>k\<close>-th request of the call.  The monotonic clock is in nanoseconds.
\<close>

datatype login_error = LInvalid | LInvalidCredentials | LRateLimited | LUnavailable

fun login_error_code :: "login_error \<Rightarrow> string" where
  "login_error_code LInvalid = ''invalid_parameter''"
| "login_error_code LInvalidCredentials = ''invalid_credentials''"
| "login_error_code LRateLimited = ''device_session_rate_limited''"
| "login_error_code LUnavailable = ''device_session_unavailable''"

record vendor_session =
  vs_id :: string
  vs_checkable :: bool

record device_state =
  ds_session :: "vendor_session option"
  ds_expired :: bool
  ds_attempts :: "nat list"


definition attempt_window :: nat where "attempt_window = 60 * 10 ^ 9"
definition max_attempts :: nat where "max_attempts = 3"

definition valid_password :: "string \<Rightarrow> bool" where
  "valid_password password \<longleftrightarrow>
     password \<noteq> [] \<and> length password \<le> 1024
     \<and> list_all (\<lambda>c. cval c \<notin> {10, 13, 0}) password"

definition password_param :: "json \<Rightarrow> string option" where
  "password_param params =
     (case as_object params of None \<Rightarrow> None
      | Some flds \<Rightarrow> if length flds = 1 then Option.bind (map_of flds ''password'') as_str else None)"

fun text_or_number :: "json \<Rightarrow> int option" where
  "text_or_number (JNumber n) = num_i64 n"
| "text_or_number (JString t) = parse_i64 (trim t)"
| "text_or_number _ = None"

definition login_locked :: "json \<Rightarrow> bool" where
  "login_locked info =
     (case Option.bind (jget info ''login_fail_lock_lefttime'') text_or_number of Some seconds \<Rightarrow> seconds > 0 | None \<Rightarrow> False)"

definition session_id :: "json \<Rightarrow> string option" where
  "session_id reply =
     (case Option.bind (jget reply ''ubus_rpc_session'') as_str of None \<Rightarrow> None
      | Some i \<Rightarrow> if 8 \<le> length i \<and> length i \<le> 64 \<and> list_all is_ascii_alphanumeric i then Some i else None)"

definition session_exists :: "ubus_call \<Rightarrow> string \<Rightarrow> bool option" where
  "session_exists ubus i =
     (case ubus ''session'' ''list'' (jobj [(''ubus_rpc_session'', JString i)]) of
        Inr v \<Rightarrow> Some (Option.bind (jget v ''ubus_rpc_session'') as_str = Some i)
      | Inl error \<Rightarrow> if str_contains ''exit status: 252'' error then Some False else None)"

definition login_salt :: "json \<Rightarrow> string option" where
  "login_salt info =
     (case Option.bind (jget info ''zte_web_sault'') as_str of None \<Rightarrow> None
      | Some salt \<Rightarrow> if salt \<noteq> [] \<and> length salt \<le> 256 then Some salt else None)"

definition login_accepted :: "string + json \<Rightarrow> string option" where
  "login_accepted reply =
     (case reply of Inr v \<Rightarrow> if Option.bind (jget v ''result'') text_or_number = Some 0 then session_id v else None
      | Inl _ \<Rightarrow> None)"

text \<open>The part of \<open>login\<close> after the attempt was counted.\<close>

definition login_exchange ::
  "(bytes \<Rightarrow> bytes) \<Rightarrow> (nat \<Rightarrow> ubus_call) \<Rightarrow> string \<Rightarrow> device_state \<Rightarrow> (login_error + unit) \<times> device_state" where
  "login_exchange sha ubus password s =
     (case ubus 0 ''zwrt_web'' ''web_login_info'' (JObject []) of
        Inl _ \<Rightarrow> (Inl LUnavailable, s)
      | Inr info \<Rightarrow>
          if login_locked info then (Inl LRateLimited, s)
          else case login_salt info of None \<Rightarrow> (Inl LUnavailable, s)
          | Some salt \<Rightarrow>
              let reply = ubus 1 ''zwrt_web'' ''web_login'' (jobj [(''password'', JString (password_response sha password salt))])
              in case login_accepted reply of
                   None \<Rightarrow>
                     let refused = (case reply of Inr v \<Rightarrow> jget v ''result'' \<noteq> None | Inl _ \<Rightarrow> False);
                         lockout = (case ubus 2 ''zwrt_web'' ''web_login_info'' (JObject []) of
                                      Inr info' \<Rightarrow> login_locked info' | Inl _ \<Rightarrow> False)
                     in (Inl (if lockout then LRateLimited else if refused then LInvalidCredentials else LUnavailable), s)
                 | Some i \<Rightarrow>
                     (Inr (), s\<lparr>ds_session := Some \<lparr>vs_id = i, vs_checkable = (session_exists (ubus 2) i = Some True)\<rparr>,
                                ds_expired := False\<rparr>))"

definition device_login ::
  "(bytes \<Rightarrow> bytes) \<Rightarrow> (nat \<Rightarrow> ubus_call) \<Rightarrow> nat \<Rightarrow> string \<Rightarrow> device_state \<Rightarrow> (login_error + unit) \<times> device_state" where
  "device_login sha ubus now password s =
     (if \<not> valid_password password then (Inl LInvalid, s)
      else
        let recent = filter (in_window attempt_window now) (ds_attempts s) in
        if length recent \<ge> max_attempts then (Inl LRateLimited, s\<lparr>ds_attempts := recent\<rparr>)
        else login_exchange sha ubus password (s\<lparr>ds_attempts := recent @ [now]\<rparr>))"

definition device_active :: "ubus_call \<Rightarrow> device_state \<Rightarrow> bool option \<times> device_state" where
  "device_active ubus s =
     (if ds_expired s then (Some False, s)
      else case ds_session s of None \<Rightarrow> (None, s)
      | Some v \<Rightarrow>
          if \<not> vs_checkable v then (None, s)
          else case session_exists ubus (vs_id v) of
            Some True \<Rightarrow> (Some True, s)
          | Some False \<Rightarrow> (Some False, s\<lparr>ds_session := None, ds_expired := True\<rparr>)
          | None \<Rightarrow> (None, s))"

definition device_expired :: "ubus_call \<Rightarrow> device_state \<Rightarrow> bool \<times> device_state" where
  "device_expired ubus s = (let (a, s') = device_active ubus s in (a = Some False, s'))"

definition panel_status :: "ubus_call \<Rightarrow> device_state \<Rightarrow> json \<times> device_state" where
  "panel_status ubus s =
     (let (a, s') = device_active ubus s in
      (jobj [(''supported'', JBool True), (''reauth_supported'', JBool True), (''active'', jopt JBool a)], s'))"

section \<open>Calls as steps\<close>

datatype device_event = DLogin "nat \<Rightarrow> ubus_call" nat string | DActive ubus_call nat

fun device_step :: "(bytes \<Rightarrow> bytes) \<Rightarrow> device_event \<Rightarrow> device_state \<Rightarrow> device_state" where
  "device_step sha (DLogin ubus now password) s = snd (device_login sha ubus now password s)"
| "device_step sha (DActive ubus now) s = snd (device_active ubus s)"



fun login_succeeds :: "(bytes \<Rightarrow> bytes) \<Rightarrow> device_event \<Rightarrow> device_state \<Rightarrow> bool" where
  "login_succeeds sha (DLogin ubus now password) s \<longleftrightarrow> fst (device_login sha ubus now password s) = Inr ()"
| "login_succeeds sha (DActive ubus now) s \<longleftrightarrow> False"

section \<open>Laws\<close>

lemma login_exchange_attempts [simp]: "ds_attempts (snd (login_exchange sha ubus password s)) = ds_attempts s"
  by (auto simp: login_exchange_def Let_def split: sum.splits option.splits)

lemma device_active_attempts [simp]: "ds_attempts (snd (device_active ubus s)) = ds_attempts s"
  by (auto simp: device_active_def split: option.splits bool.splits)



lemma login_exchange_result:
  "(fst (login_exchange sha ubus password s) = Inr () \<and> \<not> ds_expired (snd (login_exchange sha ubus password s))
      \<and> ds_session (snd (login_exchange sha ubus password s)) \<noteq> None)
   \<or> (fst (login_exchange sha ubus password s) \<noteq> Inr () \<and> snd (login_exchange sha ubus password s) = s)"
  by (auto simp: login_exchange_def Let_def split: sum.splits option.splits)

lemma device_step_expired:
  assumes "ds_expired s" "\<not> login_succeeds sha e s"
  shows "ds_expired (device_step sha e s)"
proof (cases e)
  case (DLogin ubus now password)
  let ?s = "s\<lparr>ds_attempts := filter (in_window attempt_window now) (ds_attempts s) @ [now]\<rparr>"
  show ?thesis using assms login_exchange_result [of sha ubus password ?s]
    by (auto simp: DLogin device_login_def Let_def split: if_splits)
qed (use assms in \<open>simp add: device_active_def\<close>)

lemma device_run_expired:
  "ds_expired s \<Longrightarrow> run_all (\<lambda>e s. \<not> login_succeeds sha e s) (device_step sha) es s \<Longrightarrow> ds_expired (fold (device_step sha) es s)"
  by (induction es arbitrary: s) (auto simp: device_step_expired)

section \<open>Properties\<close>



text \<open>
  A session known to be gone is reported as such until the next successful login.  Once
  \<open>active\<close> has answered false, it keeps answering false, whatever the bus says, through any
  calls without a successful login.
\<close>

theorem device_expiry_sticky:
  assumes "fst (device_active ubus s) = Some False"
    "run_all (\<lambda>e s. \<not> login_succeeds sha e s) (device_step sha) es (snd (device_active ubus s))"
  shows "fst (device_active ubus' (fold (device_step sha) es (snd (device_active ubus s)))) = Some False"
proof -
  have "ds_expired (snd (device_active ubus s))"
    using assms(1) by (auto simp: device_active_def split: if_splits option.splits bool.splits)
  then have "ds_expired (fold (device_step sha) es (snd (device_active ubus s)))"
    using assms(2) by (rule device_run_expired)
  then show ?thesis by (simp add: device_active_def)
qed

definition demo_vendor :: device_state where
  "demo_vendor = \<lparr>ds_session = Some \<lparr>vs_id = ''abcdefgh'', vs_checkable = True\<rparr>, ds_expired = False, ds_attempts = []\<rparr>"

theorem device_expiry_sticky_witness:
  "fst (device_active (\<lambda>_ _ _. Inl ''/bin/ubus exited with exit status: 252'') demo_vendor) = Some False
   \<and> fst (device_active (\<lambda>_ _ _. Inr (jobj [(''ubus_rpc_session'', JString ''abcdefgh'')])) demo_vendor) = Some True
   \<and> fst (device_active (\<lambda>_ _ _. Inr (jobj [(''ubus_rpc_session'', JString ''abcdefgh'')]))
       (fold (device_step (\<lambda>b. b)) [DLogin (\<lambda>_ _ _ _. Inl []) 7 ''secret'']
         (snd (device_active (\<lambda>_ _ _. Inl ''/bin/ubus exited with exit status: 252'') demo_vendor)))) = Some False"
proof -
  have a: "fst (device_active (\<lambda>_ _ _. Inl ''/bin/ubus exited with exit status: 252'') demo_vendor) = Some False"
    and b: "fst (device_active (\<lambda>_ _ _. Inr (jobj [(''ubus_rpc_session'', JString ''abcdefgh'')])) demo_vendor) = Some True"
    and c: "run_all (\<lambda>e s. \<not> login_succeeds (\<lambda>b. b) e s) (device_step (\<lambda>b. b)) [DLogin (\<lambda>_ _ _ _. Inl []) 7 ''secret'']
         (snd (device_active (\<lambda>_ _ _. Inl ''/bin/ubus exited with exit status: 252'') demo_vendor))"
    by code_simp+
  show ?thesis using device_expiry_sticky [OF a c] a b by blast
qed

end
