(* ===== verification/Ubus_Blob.thy ===== *)
theory Ubus_Blob
  imports Json_Value Interfaces
begin

text \<open>
  The wire format of \<open>ubus_socket.rs\<close>: blob attributes (a 32-bit header with an extended
  flag, seven bits of id and 24 bits of length, padded to four bytes), blobmsg fields that
  carry JSON, and the frames of the bus.  Functions that append to a buffer return the bytes
  they append.  Lengths are \<open>usize\<close>; the header is a word, so that what an overlong length
  does to it is what the code does.
\<close>

definition max_msg :: nat where "max_msg = 2 ^ 20"
definition max_depth :: nat where "max_depth = 32"

definition id_mask :: u32 where "id_mask = 0x7f000000"
definition len_mask :: u32 where "len_mask = 0x00ffffff"
definition extended_bit :: u32 where "extended_bit = 0x80000000"

definition t_unspec :: u8 where "t_unspec = 0"
definition t_array :: u8 where "t_array = 1"
definition t_table :: u8 where "t_table = 2"
definition t_string :: u8 where "t_string = 3"
definition t_int64 :: u8 where "t_int64 = 4"
definition t_int32 :: u8 where "t_int32 = 5"
definition t_int16 :: u8 where "t_int16 = 6"
definition t_int8 :: u8 where "t_int8 = 7"
definition t_double :: u8 where "t_double = 8"

lemmas blob_types = t_unspec_def t_array_def t_table_def t_string_def t_int64_def t_int32_def t_int16_def
  t_int8_def t_double_def

definition align :: "nat \<Rightarrow> nat" where
  "align n = (n + 3) div 4 * 4"

record attr =
  at_id :: u8
  at_extended :: bool
  at_data :: bytes

section \<open>Attributes\<close>

text \<open>One round of the loop of \<open>parse_attrs\<close>.\<close>

definition next_attr :: "bytes \<Rightarrow> string + attr \<times> bytes" where
  "next_attr rest =
     (if length rest < 4 then Inl ''truncated blob attribute''
      else
        let id_len = (word_of_nat (be_nat (take 4 rest)) :: u32);
            len = unat (id_len AND len_mask)
        in if len < 4 \<or> len > length rest then Inl ''malformed blob attribute length''
           else Inr (\<lparr>at_id = ucast (drop_bit 24 (id_len AND id_mask)), at_extended = (id_len AND extended_bit \<noteq> 0),
                      at_data = drop 4 (take len rest)\<rparr>,
                     drop (min (align len) (length rest)) rest))"

function parse_attrs :: "bytes \<Rightarrow> string + attr list" where
  "parse_attrs rest =
     (if rest = [] then Inr []
      else case next_attr rest of
        Inl e \<Rightarrow> Inl e
      | Inr (a, rest') \<Rightarrow> (case parse_attrs rest' of Inl e \<Rightarrow> Inl e | Inr as \<Rightarrow> Inr (a # as)))"
  by pat_completeness auto

lemma next_attr_shrinks: "next_attr rest = Inr (a, rest') \<Longrightarrow> length rest' < length rest"
  by (auto simp: next_attr_def Let_def align_def split: if_splits)

termination parse_attrs
  by (relation "measure length") (auto dest: next_attr_shrinks)

declare parse_attrs.simps [simp del]

definition put_attr :: "u8 \<Rightarrow> bool \<Rightarrow> bytes \<Rightarrow> bytes" where
  "put_attr i extended payload =
     (let len = 4 + length payload;
          id_len = push_bit 24 (ucast i :: u32) OR word_of_nat len;
          id_len' = (if extended then id_len OR extended_bit else id_len)
      in to_be 4 (unat id_len') @ payload @ replicate (align len - len) 0)"

definition put_string :: "u8 \<Rightarrow> string \<Rightarrow> bytes" where
  "put_string i text = put_attr i False (str_bytes text @ [0])"

definition put_field :: "u8 \<Rightarrow> string \<Rightarrow> bytes \<Rightarrow> bytes" where
  "put_field kind name data =
     (let header = align (2 + length name + 1);
          start = to_be 2 (length name mod 2 ^ 16) @ str_bytes name
      in put_attr kind True (start @ replicate (header - length start) 0 @ data))"

section \<open>JSON to blobmsg\<close>

text \<open>
  \<open>u64 as f64\<close> for the integers above \<open>i64::MAX\<close>, as the bit pattern: 53 bits of
  mantissa, rounded to nearest, ties to even.
\<close>

definition big_f64_bits :: "nat \<Rightarrow> nat" where
  "big_f64_bits n =
     (let m = n div 2 ^ 11; r = n mod 2 ^ 11;
          m' = (if r > 1024 \<or> r = 1024 \<and> odd m then m + 1 else m)
      in 1086 * 2 ^ 52 + (m' - 2 ^ 52))"

fun number_f64_bits :: "json_number \<Rightarrow> nat" where
  "number_f64_bits (NFloat bits) = unat bits"
| "number_f64_bits (NInt i) = big_f64_bits (nat i)"

definition put_number :: "string \<Rightarrow> json_number \<Rightarrow> bytes" where
  "put_number name number =
     (case num_i64 number of
        Some i \<Rightarrow>
          if - (2 ^ 31) \<le> i \<and> i < 2 ^ 31 then put_field t_int32 name (to_be 4 (of_signed 32 i))
          else put_field t_int64 name (to_be 8 (of_signed 64 i))
      | None \<Rightarrow> put_field t_double name (to_be 8 (number_f64_bits number)))"

fun put_json :: "string \<Rightarrow> json \<Rightarrow> bytes" where
  "put_json name JNull = put_field t_unspec name []"
| "put_json name (JBool flag) = put_field t_int8 name [if flag then 1 else 0]"
| "put_json name (JNumber number) = put_number name number"
| "put_json name (JString text) = put_field t_string name (str_bytes text @ [0])"
| "put_json name (JArray items) = put_field t_array name (concat (map (put_json []) items))"
| "put_json name (JObject m) = put_field t_table name (concat (map (\<lambda>kv. put_json (fst kv) (snd kv)) m))"

definition put_table :: "json_map \<Rightarrow> bytes" where
  "put_table m = concat (map (\<lambda>kv. put_json (fst kv) (snd kv)) m)"

section \<open>Blobmsg to JSON\<close>

fun collect_results :: "('a \<Rightarrow> 'e + 'b) \<Rightarrow> 'a list \<Rightarrow> 'e + 'b list" where
  "collect_results f [] = Inr []"
| "collect_results f (x # xs) =
     (case f x of Inl e \<Rightarrow> Inl e
      | Inr y \<Rightarrow> (case collect_results f xs of Inl e \<Rightarrow> Inl e | Inr ys \<Rightarrow> Inr (y # ys)))"

lemma collect_results_cong [fundef_cong]:
  "xs = ys \<Longrightarrow> (\<And>x. x \<in> set ys \<Longrightarrow> f x = g x) \<Longrightarrow> collect_results f xs = collect_results g ys"
  by (induction xs arbitrary: ys) (auto split: sum.splits)

definition bad_length :: "u8 \<Rightarrow> bytes \<Rightarrow> string" where
  "bad_length i data = ''blobmsg type '' @ show_nat (unat i) @ '' has length '' @ show_nat (length data)"

definition fixed_value :: "u8 \<Rightarrow> nat \<Rightarrow> (bytes \<Rightarrow> json) \<Rightarrow> bytes \<Rightarrow> string + json" where
  "fixed_value i n f data = (if length data = n then Inr (f data) else Inl (bad_length i data))"

definition int_value :: "nat \<Rightarrow> bytes \<Rightarrow> json" where
  "int_value w data = jint (to_signed w (be_nat data))"

text \<open>\<open>Number::from_f64\<close> refuses infinities and NaN.\<close>

definition f64_finite :: "u64 \<Rightarrow> bool" where
  "f64_finite bits \<longleftrightarrow> unat bits div 2 ^ 52 mod 2 ^ 11 \<noteq> 2047"

definition double_value :: "bytes \<Rightarrow> json" where
  "double_value data =
     (let bits = word_of_nat (be_nat data) in if f64_finite bits then JNumber (NFloat bits) else JNull)"

text \<open>The types that do not nest.\<close>

definition scalar_value :: "u8 \<Rightarrow> bytes \<Rightarrow> string + json" where
  "scalar_value i data =
     (if i = t_unspec then Inr JNull
      else if i = t_string then Inr (JString (from_utf8_lossy (bytes_str (takeWhile (\<lambda>b. b \<noteq> 0) data))))
      else if i = t_int64 then fixed_value i 8 (int_value 64) data
      else if i = t_int32 then fixed_value i 4 (int_value 32) data
      else if i = t_int16 then fixed_value i 2 (int_value 16) data
      else if i = t_int8 then fixed_value i 1 (\<lambda>d. JBool (d ! 0 \<noteq> 0)) data
      else if i = t_double then fixed_value i 8 double_value data
      else Inl (''unknown blobmsg type '' @ show_nat (unat i)))"

definition field_parts :: "attr \<Rightarrow> string + string \<times> bytes" where
  "field_parts a =
     (if \<not> at_extended a \<or> length (at_data a) < 3 then Inl ''malformed blobmsg field''
      else
        let name_len = be_nat (take 2 (at_data a));
            header = align (2 + name_len + 1)
        in if header > length (at_data a) then Inl ''malformed blobmsg name''
           else Inr (from_utf8_lossy (bytes_str (take name_len (drop 2 (at_data a)))), drop header (at_data a)))"

function (sequential) blob_field :: "attr \<Rightarrow> nat \<Rightarrow> string + string \<times> json"
  and blob_object :: "bytes \<Rightarrow> nat \<Rightarrow> string + json_map" where
  "blob_field a depth =
     (case field_parts a of Inl e \<Rightarrow> Inl e
      | Inr (name, data) \<Rightarrow>
          if (at_id a = t_array \<or> at_id a = t_table) \<and> depth \<ge> max_depth then Inl ''blobmsg nested too deep''
          else if at_id a = t_array then
            (case parse_attrs data of Inl e \<Rightarrow> Inl e
             | Inr items \<Rightarrow>
                 (case collect_results (\<lambda>item. blob_field item (depth + 1)) items of Inl e \<Rightarrow> Inl e
                  | Inr kvs \<Rightarrow> Inr (name, JArray (map snd kvs))))
          else if at_id a = t_table then
            (case blob_object data (depth + 1) of Inl e \<Rightarrow> Inl e | Inr m \<Rightarrow> Inr (name, JObject m))
          else (case scalar_value (at_id a) data of Inl e \<Rightarrow> Inl e | Inr v \<Rightarrow> Inr (name, v)))"
| "blob_object data depth =
     (case parse_attrs data of Inl e \<Rightarrow> Inl e
      | Inr attrs \<Rightarrow>
          (case collect_results (\<lambda>a. blob_field a depth) attrs of Inl e \<Rightarrow> Inl e
           | Inr kvs \<Rightarrow> Inr (fold (\<lambda>(k, v). map_insert k v) kvs [])))"
  by pat_completeness auto

termination
  by (relation "measure (\<lambda>x. case x of Inl (a, depth) \<Rightarrow> 2 * (max_depth + 1 - depth) | Inr (d, depth) \<Rightarrow> 2 * (max_depth + 1 - depth) + 1)")
    auto

declare blob_field.simps [simp del] blob_object.simps [simp del]

definition object_value :: "bytes \<Rightarrow> string + json" where
  "object_value data = (case blob_object data 0 of Inl e \<Rightarrow> Inl e | Inr m \<Rightarrow> Inr (JObject m))"

definition message_attr :: "attr list \<Rightarrow> u8 \<Rightarrow> attr option" where
  "message_attr attrs i = find (\<lambda>a. at_id a = i) (rev attrs)"

section \<open>Frames\<close>

record frame =
  fr_kind :: u8
  fr_seq :: u16
  fr_peer :: u32
  fr_body :: bytes

definition put_frame :: "u8 \<Rightarrow> u16 \<Rightarrow> u32 \<Rightarrow> bytes \<Rightarrow> bytes" where
  "put_frame kind sequence peer body =
     [0, kind] @ to_be 2 (unat sequence) @ to_be 4 (unat peer) @ put_attr 0 False body"

text \<open>
  \<open>read_frame\<close> on the bytes the stream delivers before it ends: the frame and what follows
  it.  The reader takes exactly the length of the header, without padding.
\<close>

definition read_frame :: "bytes \<Rightarrow> string + frame \<times> bytes" where
  "read_frame stream =
     (if length stream < 12 then Inl ''ubus read''
      else
        let len = unat ((word_of_nat (be_nat (take 4 (drop 8 stream))) :: u32) AND len_mask) in
        if \<not> (4 \<le> len \<and> len \<le> max_msg) then Inl ''ubus message length out of range''
        else if length stream < 12 + (len - 4) then Inl ''ubus read''
        else Inr (\<lparr>fr_kind = stream ! 1, fr_seq = word_of_nat (be_nat (take 2 (drop 2 stream))),
                   fr_peer = word_of_nat (be_nat (take 4 (drop 4 stream))),
                   fr_body = take (len - 4) (drop 12 stream)\<rparr>,
                  drop (12 + (len - 4)) stream))"

section \<open>The header word\<close>

lemma len_mask_eq: "len_mask = mask 24" by (simp add: len_mask_def mask_eq_exp_minus_1)
lemma id_mask_eq: "id_mask = push_bit 24 (mask 7)" by (simp add: id_mask_def mask_eq_exp_minus_1 push_bit_eq_mult)
lemma extended_bit_eq: "extended_bit = push_bit 31 1" by (simp add: extended_bit_def push_bit_eq_mult)

lemma bit_extended [simp]: "bit extended_bit n \<longleftrightarrow> n = 31"
proof -
  have "bit (push_bit 31 (1 :: u32)) n \<longleftrightarrow> n = 31"
    by (subst bit_push_bit_iff) (auto simp: bit_1_iff simp del: push_bit_of_1)
  then show ?thesis by (simp add: extended_bit_eq del: push_bit_of_1 push_bit_numeral)
qed

lemma bit_nat_bound: "m < 2 ^ k \<Longrightarrow> bit (m :: nat) n \<Longrightarrow> n < k"
  by (metis bit_take_bit_iff take_bit_nat_eq_self)

lemma bit_word_bound: "unat i < 2 ^ k \<Longrightarrow> bit (i :: 'a::len word) n \<Longrightarrow> n < k"
  using bit_nat_bound [of "unat i" k n] by (simp add: bit_unsigned_iff bit_imp_le_length)

definition attr_header :: "u8 \<Rightarrow> bool \<Rightarrow> nat \<Rightarrow> u32" where
  "attr_header i extended len =
     (if extended then (push_bit 24 (ucast i :: u32) OR word_of_nat len) OR extended_bit
      else push_bit 24 (ucast i :: u32) OR word_of_nat len)"

lemma header_len:
  assumes "len < 2 ^ 24"
  shows "unat (attr_header i extended len AND len_mask) = len"
proof -
  have "attr_header i extended len AND len_mask = (word_of_nat len :: u32)"
    using bit_nat_bound [OF assms]
    by (intro bit_eqI) (auto simp: attr_header_def len_mask_eq bit_simps)
  then show ?thesis using assms by (simp add: unat_of_nat)
qed

lemma header_id:
  assumes "len < 2 ^ 24" "unat i < 2 ^ 7"
  shows "ucast (drop_bit 24 (attr_header i extended len AND id_mask)) = i"
  using bit_nat_bound [OF assms(1)] bit_word_bound [OF assms(2)]
  by (intro bit_eqI) (auto simp: attr_header_def id_mask_eq bit_simps)

lemma header_extended:
  assumes "len < 2 ^ 24" "unat i < 2 ^ 7"
  shows "attr_header i extended len AND extended_bit \<noteq> 0 \<longleftrightarrow> extended"
proof -
  have "attr_header i extended len AND extended_bit = (if extended then extended_bit else 0)"
    using bit_nat_bound [OF assms(1), of 31] bit_word_bound [OF assms(2), of 7]
    by (intro bit_eqI) (auto simp: attr_header_def bit_simps)
  then show ?thesis by (simp add: extended_bit_def)
qed

section \<open>Attributes round trip\<close>

lemma be_word32: "word_of_nat (be_nat (to_be 4 (unat x))) = (x :: u32)"
proof -
  have "unat x < 256 ^ 4" using unsigned_less [of x] by simp
  then show ?thesis by (simp add: be_nat_to_be)
qed

lemma be_word64: "word_of_nat (be_nat (to_be 8 (unat x))) = (x :: u64)"
proof -
  have "unat x < 256 ^ 8" using unsigned_less [of x] by simp
  then show ?thesis by (simp add: be_nat_to_be)
qed

lemma be_word16: "word_of_nat (be_nat (to_be 2 (unat x))) = (x :: u16)"
proof -
  have "unat x < 256 ^ 2" using unsigned_less [of x] by simp
  then show ?thesis by (simp add: be_nat_to_be)
qed

lemma align_ge: "n \<le> align n"
  by (simp add: align_def)

lemma align_mod [simp]: "align n mod 4 = 0"
  by (simp add: align_def)

lemma put_attr_header:
  "put_attr i extended payload = to_be 4 (unat (attr_header i extended (4 + length payload)))
     @ payload @ replicate (align (4 + length payload) - (4 + length payload)) 0"
  by (simp add: put_attr_def attr_header_def Let_def)

lemma length_put_attr: "length (put_attr i extended payload) = align (4 + length payload)"
  using align_ge [of "4 + length payload"] by (simp add: put_attr_header)

lemma next_put_attr:
  assumes "4 + length payload < 2 ^ 24" "unat i < 2 ^ 7"
  shows "next_attr (put_attr i extended payload @ rest)
    = Inr (\<lparr>at_id = i, at_extended = extended, at_data = payload\<rparr>, rest)"
proof -
  let ?len = "4 + length payload"
  let ?b = "put_attr i extended payload @ rest"
  have b: "length ?b = align ?len + length rest" by (simp add: length_put_attr)
  have le: "?len \<le> align ?len" by (rule align_ge)
  have head: "(word_of_nat (be_nat (take 4 ?b)) :: u32) = attr_header i extended ?len"
    by (simp add: put_attr_header be_word32)
  have "drop 4 (take ?len ?b) = payload" by (simp add: put_attr_header)
  moreover have "drop (min (align ?len) (length ?b)) ?b = rest"
    using length_put_attr [of i extended payload] b by (simp add: min_def)
  ultimately show ?thesis
    using b le head header_len [OF assms(1)] header_id [OF assms] header_extended [OF assms]
    by (simp add: next_attr_def Let_def)
qed

definition enc_attr :: "attr \<Rightarrow> bytes" where
  "enc_attr a = put_attr (at_id a) (at_extended a) (at_data a)"

definition attr_ok :: "attr \<Rightarrow> bool" where
  "attr_ok a \<longleftrightarrow> 4 + length (at_data a) < 2 ^ 24 \<and> unat (at_id a) < 2 ^ 7"

definition next_attr_opt :: "bytes \<Rightarrow> (attr \<times> bytes) option" where
  "next_attr_opt bs = (case next_attr bs of Inr x \<Rightarrow> Some x | Inl _ \<Rightarrow> None)"

lemma next_enc_attr: "attr_ok a \<Longrightarrow> next_attr (enc_attr a @ rest) = Inr (a, rest)"
  by (simp add: enc_attr_def attr_ok_def next_put_attr)

lemma enc_attr_nonempty: "enc_attr a \<noteq> []"
  using align_ge [of "4 + length (at_data a)"] length_put_attr [of "at_id a" "at_extended a" "at_data a"]
  by (auto simp: enc_attr_def)

interpretation blob_attrs: prefix_codec enc_attr next_attr_opt attr_ok
  by unfold_locales (simp_all add: next_attr_opt_def next_enc_attr enc_attr_nonempty)

lemma parse_enc_attrs: "list_all attr_ok as \<Longrightarrow> parse_attrs (concat (map enc_attr as)) = Inr as"
proof (induction as)
  case (Cons a as)
  then show ?case by (subst parse_attrs.simps) (simp add: next_enc_attr enc_attr_nonempty)
qed (simp add: parse_attrs.simps)

section \<open>Fields round trip\<close>

definition field_payload :: "string \<Rightarrow> bytes \<Rightarrow> bytes" where
  "field_payload name data =
     to_be 2 (length name mod 2 ^ 16) @ str_bytes name
       @ replicate (align (2 + length name + 1) - (2 + length name)) 0 @ data"

definition field_attr :: "u8 \<Rightarrow> string \<Rightarrow> bytes \<Rightarrow> attr" where
  "field_attr kind name data = \<lparr>at_id = kind, at_extended = True, at_data = field_payload name data\<rparr>"

lemma put_field_attr: "put_field kind name data = enc_attr (field_attr kind name data)"
  by (simp add: put_field_def enc_attr_def field_attr_def field_payload_def Let_def)

definition name_ok :: "string \<Rightarrow> bool" where
  "name_ok name \<longleftrightarrow> utf8_valid name \<and> length name < 2 ^ 16"

lemma field_parts_attr:
  assumes "name_ok name"
  shows "field_parts (field_attr kind name data) = Inr (name, data)"
proof -
  let ?h = "align (2 + length name + 1)"
  have nl: "be_nat (take 2 (field_payload name data)) = length name"
    using assms by (simp add: field_payload_def be_nat_to_be name_ok_def)
  have le: "2 + length name + 1 \<le> ?h" by (rule align_ge)
  then have len: "length (field_payload name data) = ?h + length data" by (simp add: field_payload_def)
  have nm: "take (length name) (drop 2 (field_payload name data)) = str_bytes name" by (simp add: field_payload_def)
  have rest: "drop ?h (field_payload name data) = data"
    using le by (simp add: field_payload_def)
  show ?thesis using le len nl nm rest assms
    by (simp add: field_parts_def field_attr_def Let_def from_utf8_lossy_valid name_ok_def)
qed

section \<open>JSON round trip\<close>

text \<open>
  The values blobmsg can carry without loss: no NUL in a string, integers of \<open>i64\<close>, finite
  floats, keys in UTF-8 below 64 KiB and in order, and at most \<open>d\<close> levels of nesting.
\<close>

fun wire_ok :: "nat \<Rightarrow> json \<Rightarrow> bool" where
  "wire_ok d (JNumber (NInt i)) \<longleftrightarrow> i64_min \<le> i \<and> i \<le> i64_max"
| "wire_ok d (JNumber (NFloat b)) \<longleftrightarrow> f64_finite b"
| "wire_ok d (JString s) \<longleftrightarrow> utf8_valid s \<and> list_all (\<lambda>c. cval c \<noteq> 0) s"
| "wire_ok d (JArray xs) \<longleftrightarrow> 0 < d \<and> list_all (wire_ok (d - 1)) xs"
| "wire_ok d (JObject m) \<longleftrightarrow> 0 < d \<and> ordered_map m \<and> list_all (\<lambda>kv. name_ok (fst kv) \<and> wire_ok (d - 1) (snd kv)) m"
| "wire_ok d _ \<longleftrightarrow> True"

fun json_kind :: "json \<Rightarrow> u8" where
  "json_kind JNull = t_unspec"
| "json_kind (JBool _) = t_int8"
| "json_kind (JNumber n) = (case num_i64 n of Some i \<Rightarrow> if - (2 ^ 31) \<le> i \<and> i < 2 ^ 31 then t_int32 else t_int64 | None \<Rightarrow> t_double)"
| "json_kind (JString _) = t_string"
| "json_kind (JArray _) = t_array"
| "json_kind (JObject _) = t_table"

fun json_data :: "json \<Rightarrow> bytes" where
  "json_data JNull = []"
| "json_data (JBool flag) = [if flag then 1 else 0]"
| "json_data (JNumber n) =
     (case num_i64 n of Some i \<Rightarrow> if - (2 ^ 31) \<le> i \<and> i < 2 ^ 31 then to_be 4 (of_signed 32 i) else to_be 8 (of_signed 64 i)
      | None \<Rightarrow> to_be 8 (number_f64_bits n))"
| "json_data (JString text) = str_bytes text @ [0]"
| "json_data (JArray items) = concat (map (put_json []) items)"
| "json_data (JObject m) = put_table m"

definition json_attr :: "string \<Rightarrow> json \<Rightarrow> attr" where
  "json_attr name v = field_attr (json_kind v) name (json_data v)"

lemma put_json_attr: "put_json name v = enc_attr (json_attr name v)"
  by (cases v) (auto simp: put_number_def put_table_def json_attr_def simp flip: put_field_attr split: option.splits)

lemma json_kind_small: "unat (json_kind v) < 2 ^ 7"
  by (cases v) (auto simp: blob_types split: option.splits)

lemma json_attr_ok: "length (put_json name v) < 2 ^ 24 \<Longrightarrow> attr_ok (json_attr name v)"
  using json_kind_small [of v] align_ge [of "4 + length (at_data (json_attr name v))"]
  by (simp add: put_json_attr enc_attr_def length_put_attr attr_ok_def json_attr_def field_attr_def)

lemma length_json_data: "length (json_data v) \<le> length (put_json name v)"
  using align_ge [of "4 + length (at_data (json_attr name v))"]
  by (simp add: put_json_attr enc_attr_def length_put_attr json_attr_def field_attr_def field_payload_def)

lemma length_concat_member: "x \<in> set xs \<Longrightarrow> length (f x) \<le> length (concat (map f xs))"
  by (induction xs) auto

lemma parse_put_list:
  assumes "length (concat (map (\<lambda>x. put_json (n x) (v x)) xs)) < 2 ^ 24"
  shows "parse_attrs (concat (map (\<lambda>x. put_json (n x) (v x)) xs)) = Inr (map (\<lambda>x. json_attr (n x) (v x)) xs)"
proof -
  have "list_all attr_ok (map (\<lambda>x. json_attr (n x) (v x)) xs)"
    unfolding list_all_iff set_map
  proof (intro ballI, elim imageE, hypsubst, rule json_attr_ok)
    fix x assume "x \<in> set xs"
    from length_concat_member [OF this, of "\<lambda>x. put_json (n x) (v x)"] assms
    show "length (put_json (n x) (v x)) < 2 ^ 24" by (rule le_less_trans)
  qed
  from parse_enc_attrs [OF this] show ?thesis by (simp add: put_json_attr comp_def)
qed

lemma collect_results_map:
  "(\<And>x. x \<in> set xs \<Longrightarrow> f (g x) = Inr (h x)) \<Longrightarrow> collect_results f (map g xs) = Inr (map h xs)"
  by (induction xs) auto

lemma int_value_signed:
  assumes "w = 8 * n" "0 < n" "- (2 ^ (w - 1)) \<le> i" "i < 2 ^ (w - 1)"
  shows "int_value w (to_be n (of_signed w i)) = jint i"
proof -
  have "(2 :: nat) ^ w = 256 ^ n" by (simp add: assms(1) power_mult)
  then have "of_signed w i < 256 ^ n"
    using assms(2) by (simp add: of_signed_def nat_less_iff flip: of_nat_power) (metis of_nat_numeral of_nat_power pos_mod_bound zero_less_numeral zero_less_power)
  then show ?thesis using assms by (simp add: int_value_def be_nat_to_be to_signed_of_signed)
qed

lemma takeWhile_text: "list_all (\<lambda>c. cval c \<noteq> 0) s \<Longrightarrow> takeWhile (\<lambda>b. b \<noteq> 0) (str_bytes s @ [0]) = str_bytes s"
proof (induction s)
  case (Cons c s)
  have "(word_of_nat (cval c) :: u8) \<noteq> 0"
    using Cons.prems cval_less [of c] by (auto simp: word_of_nat_eq_0_iff dest: dvd_imp_le)
  then show ?case using Cons by (simp add: str_bytes_def)
qed (simp add: str_bytes_def)

lemma field_scalar:
  assumes "name_ok name" "scalar_value (json_kind v) (json_data v) = Inr v" "json_kind v \<noteq> t_array" "json_kind v \<noteq> t_table"
  shows "blob_field (json_attr name v) depth = Inr (name, v)"
  using assms(2-4) field_parts_attr [OF assms(1), of "json_kind v" "json_data v"]
  by (subst blob_field.simps) (simp add: json_attr_def, simp add: field_attr_def)

lemma scalar_number:
  assumes "wire_ok d (JNumber n)"
  shows "scalar_value (json_kind (JNumber n)) (json_data (JNumber n)) = Inr (JNumber n)
    \<and> json_kind (JNumber n) \<noteq> t_array \<and> json_kind (JNumber n) \<noteq> t_table"
proof (cases n)
  case (NInt i)
  have r: "- (2 ^ 63) \<le> i" "i < 2 ^ 63" using assms by (auto simp: NInt i64_min_def i64_max_def)
  show ?thesis
  proof (cases "- (2 ^ 31) \<le> i \<and> i < 2 ^ 31")
    case True
    then have "int_value 32 (to_be 4 (of_signed 32 i)) = jint i" by (intro int_value_signed) simp_all
    then show ?thesis using NInt assms True by (simp add: scalar_value_def fixed_value_def) (simp add: blob_types)
  next
    case False
    have "int_value 64 (to_be 8 (of_signed 64 i)) = jint i" using r by (intro int_value_signed) simp_all
    then show ?thesis using NInt assms False by (auto simp: scalar_value_def fixed_value_def blob_types)
  qed
next
  case (NFloat b)
  then show ?thesis using assms by (simp add: scalar_value_def fixed_value_def double_value_def be_word64) (simp add: blob_types)
qed

lemma field_put_json:
  assumes "name_ok name" "wire_ok (max_depth - depth) v" "length (put_json name v) < 2 ^ 24"
  shows "blob_field (json_attr name v) depth = Inr (name, v)"
  using assms
proof (induction v arbitrary: name depth)
  case JNull
  then show ?case by (intro field_scalar) (simp_all add: scalar_value_def, simp_all add: blob_types)
next
  case (JBool b)
  then show ?case by (intro field_scalar) (simp_all add: scalar_value_def fixed_value_def, simp_all add: blob_types)
next
  case (JNumber n)
  then show ?case using scalar_number by (intro field_scalar) blast+
next
  case (JString s)
  then show ?case using takeWhile_text [of s]
    by (intro field_scalar) (simp_all add: scalar_value_def from_utf8_lossy_valid, simp_all add: blob_types)
next
  case (JArray xs)
  have len: "length (concat (map (put_json []) xs)) < 2 ^ 24"
    using length_json_data [of "JArray xs" name] JArray.prems(3) by simp
  have d: "depth < max_depth" using JArray.prems(2) by simp
  have nil: "name_ok []" by (simp add: name_ok_def utf8_valid_def)
  have items: "blob_field (json_attr [] x) (depth + 1) = Inr ([], x)" if "x \<in> set xs" for x
  proof (rule JArray.IH [OF that nil])
    show "wire_ok (max_depth - (depth + 1)) x" using JArray.prems(2) that by (simp add: list_all_iff)
    show "length (put_json [] x) < 2 ^ 24" using length_concat_member [OF that, of "put_json []"] len by (rule le_less_trans)
  qed
  have "collect_results (\<lambda>item. blob_field item (depth + 1)) (map (json_attr []) xs) = Inr (map (\<lambda>x. ([], x)) xs)"
    using items by (intro collect_results_map)
  moreover have "parse_attrs (concat (map (put_json []) xs)) = Inr (map (json_attr []) xs)"
    using parse_put_list [of "\<lambda>_. []" "\<lambda>x. x" xs] len by simp
  ultimately show ?case using d field_parts_attr [OF JArray.prems(1), of t_array "concat (map (put_json []) xs)"]
    by (subst blob_field.simps) (simp add: json_attr_def comp_def, simp add: field_attr_def)
next
  case (JObject m)
  have len: "length (put_table m) < 2 ^ 24" using length_json_data [of "JObject m" name] JObject.prems(3) by simp
  have d: "depth < max_depth" using JObject.prems(2) by simp
  have flds: "blob_field (json_attr (fst kv) (snd kv)) (depth + 1) = Inr kv" if kv: "kv \<in> set m" for kv
  proof -
    have "blob_field (json_attr (fst kv) (snd kv)) (depth + 1) = Inr (fst kv, snd kv)"
    proof (rule JObject.IH [OF kv])
      show "snd kv \<in> Basic_BNFs.snds kv" by (cases kv) simp
      show "name_ok (fst kv)" "wire_ok (max_depth - (depth + 1)) (snd kv)"
        using JObject.prems(2) kv by (auto simp: list_all_iff)
      show "length (put_json (fst kv) (snd kv)) < 2 ^ 24"
        using length_concat_member [OF kv, of "\<lambda>kv. put_json (fst kv) (snd kv)"] len unfolding put_table_def by (rule le_less_trans)
    qed
    then show ?thesis by simp
  qed
  have "collect_results (\<lambda>a. blob_field a (depth + 1)) (map (\<lambda>kv. json_attr (fst kv) (snd kv)) m) = Inr (map (\<lambda>kv. kv) m)"
    using flds by (intro collect_results_map)
  moreover have "parse_attrs (put_table m) = Inr (map (\<lambda>kv. json_attr (fst kv) (snd kv)) m)"
    unfolding put_table_def by (rule parse_put_list) (use len in \<open>simp add: put_table_def\<close>)
  moreover have "fold (\<lambda>(k, v). map_insert k v) m [] = m" using fold_map_insert [of "[]" m] JObject.prems(2) by simp
  ultimately have "blob_object (put_table m) (depth + 1) = Inr m" by (subst blob_object.simps) simp
  then show ?case using d field_parts_attr [OF JObject.prems(1), of t_table "put_table m"]
    by (subst blob_field.simps) (simp add: json_attr_def, simp add: field_attr_def blob_types)
qed

lemma object_put_table:
  assumes "wire_ok (Suc (max_depth - depth)) (JObject m)" "length (put_table m) < 2 ^ 24"
  shows "blob_object (put_table m) depth = Inr m"
proof -
  have "blob_field (json_attr (fst kv) (snd kv)) depth = Inr kv" if kv: "kv \<in> set m" for kv
  proof -
    have "blob_field (json_attr (fst kv) (snd kv)) depth = Inr (fst kv, snd kv)"
    proof (rule field_put_json)
      show "name_ok (fst kv)" "wire_ok (max_depth - depth) (snd kv)" using assms(1) kv by (auto simp: list_all_iff)
      show "length (put_json (fst kv) (snd kv)) < 2 ^ 24"
        using length_concat_member [OF kv, of "\<lambda>kv. put_json (fst kv) (snd kv)"] assms(2)
        unfolding put_table_def by (rule le_less_trans)
    qed
    then show ?thesis by simp
  qed
  then have "collect_results (\<lambda>a. blob_field a depth) (map (\<lambda>kv. json_attr (fst kv) (snd kv)) m) = Inr (map (\<lambda>kv. kv) m)"
    by (intro collect_results_map)
  moreover have "parse_attrs (put_table m) = Inr (map (\<lambda>kv. json_attr (fst kv) (snd kv)) m)"
    unfolding put_table_def by (rule parse_put_list) (use assms(2) in \<open>simp add: put_table_def\<close>)
  moreover have "fold (\<lambda>(k, v). map_insert k v) m [] = m" using fold_map_insert [of "[]" m] assms(1) by simp
  ultimately show ?thesis by (subst blob_object.simps) simp
qed

section \<open>Frames round trip\<close>

definition frame_ok :: "frame \<Rightarrow> bool" where
  "frame_ok f \<longleftrightarrow> length (fr_body f) mod 4 = 0 \<and> 4 + length (fr_body f) \<le> max_msg"

definition enc_frame :: "frame \<Rightarrow> bytes" where
  "enc_frame f = put_frame (fr_kind f) (fr_seq f) (fr_peer f) (fr_body f)"

definition read_frame_opt :: "bytes \<Rightarrow> (frame \<times> bytes) option" where
  "read_frame_opt bs = (case read_frame bs of Inr x \<Rightarrow> Some x | Inl _ \<Rightarrow> None)"

lemma read_put_frame:
  assumes "length body mod 4 = 0" "4 + length body \<le> max_msg"
  shows "read_frame (put_frame kind s peer body @ rest)
    = Inr (\<lparr>fr_kind = kind, fr_seq = s, fr_peer = peer, fr_body = body\<rparr>, rest)"
proof -
  let ?len = "4 + length body"
  let ?b = "put_frame kind s peer body @ rest"
  have "align ?len = ?len" using assms(1) by (auto simp: align_def elim!: dvdE)
  then have b: "?b = [0, kind] @ to_be 2 (unat s) @ to_be 4 (unat peer)
      @ to_be 4 (unat (attr_header 0 False ?len)) @ body @ rest"
    by (simp add: put_frame_def put_attr_header)
  have len: "unat ((word_of_nat (be_nat (take 4 (drop 8 ?b))) :: u32) AND len_mask) = ?len"
    using assms(2) header_len [of ?len 0 False] by (simp add: b be_word32 max_msg_def)
  have parts: "?b ! 1 = kind" "take 2 (drop 2 ?b) = to_be 2 (unat s)" "take 4 (drop 4 ?b) = to_be 4 (unat peer)"
    "drop 12 ?b = body @ rest" "length ?b = 12 + length body + length rest"
    by (simp_all add: b)
  moreover have "drop (12 + length body) ?b = rest"
    using parts(4) drop_drop [of "length body" 12 ?b] by (simp add: add.commute)
  ultimately show ?thesis using assms(2) len by (simp add: read_frame_def Let_def be_word16 be_word32)
qed

interpretation ubus_frames: prefix_codec enc_frame read_frame_opt frame_ok
proof
  show "read_frame_opt (enc_frame f @ rest) = Some (f, rest)" if "frame_ok f" for f rest
    using that by (simp add: read_frame_opt_def enc_frame_def frame_ok_def read_put_frame)
  show "enc_frame f \<noteq> []" for f by (simp add: enc_frame_def put_frame_def)
qed

section \<open>What any input decodes to\<close>

fun json_depth :: "json \<Rightarrow> nat" where
  "json_depth (JArray xs) = Suc (foldr max (map json_depth xs) 0)"
| "json_depth (JObject m) = Suc (foldr max (map (\<lambda>kv. json_depth (snd kv)) m) 0)"
| "json_depth _ = 0"

lemma foldr_max_le: "foldr max ns 0 \<le> (k :: nat) \<longleftrightarrow> (\<forall>n\<in>set ns. n \<le> k)"
  by (induction ns) auto

lemma collect_results_member:
  "collect_results f xs = Inr ys \<Longrightarrow> y \<in> set ys \<Longrightarrow> \<exists>x\<in>set xs. f x = Inr y"
  by (induction xs arbitrary: ys) (auto split: sum.splits)

lemma set_map_insert: "set (map_insert k v m) \<subseteq> insert (k, v) (set m)"
  by (induction k v m rule: map_insert.induct) auto

lemma set_fold_insert: "kv \<in> set (fold (\<lambda>(k, v). map_insert k v) kvs m) \<Longrightarrow> kv \<in> set kvs \<or> kv \<in> set m"
proof (induction kvs arbitrary: m)
  case (Cons x kvs)
  obtain k v where x: "x = (k, v)" by (cases x)
  show ?case using Cons set_map_insert [of k v m] by (auto simp: x)
qed simp

lemma scalar_depth: "scalar_value i data = Inr v \<Longrightarrow> json_depth v = 0"
  by (auto simp: scalar_value_def fixed_value_def int_value_def double_value_def Let_def split: if_splits)

lemma blob_depth:
  "blob_field a depth = Inr (name, v) \<Longrightarrow> json_depth v \<le> max_depth - depth"
  "blob_object data depth = Inr m \<Longrightarrow> \<forall>kv\<in>set m. json_depth (snd kv) \<le> max_depth - depth"
proof (induction a depth and data depth arbitrary: name v and m rule: blob_field_blob_object.induct)
  case (1 a depth)
  obtain nm data where parts: "field_parts a = Inr (nm, data)"
    using "1.prems" by (subst (asm) blob_field.simps) (auto split: sum.splits)
  consider (arr) "at_id a = t_array" | (tab) "at_id a = t_table" "at_id a \<noteq> t_array"
    | (sc) "at_id a \<noteq> t_array" "at_id a \<noteq> t_table" by blast
  then show ?case
  proof cases
    case arr
    then obtain items kvs where *: "\<not> depth \<ge> max_depth" "parse_attrs data = Inr items"
      "collect_results (\<lambda>item. blob_field item (depth + 1)) items = Inr kvs" "v = JArray (map snd kvs)"
      using "1.prems" parts by (subst (asm) blob_field.simps) (auto split: sum.splits if_splits)
    have "json_depth (snd kv) \<le> max_depth - (depth + 1)" if "kv \<in> set kvs" for kv
      using collect_results_member [OF *(3) that] "1.IH"(1) [OF parts refl _ arr *(2)] * arr by (cases kv) auto
    then have "foldr max (map json_depth (map snd kvs)) 0 \<le> max_depth - (depth + 1)"
      unfolding foldr_max_le by auto
    then show ?thesis using * by simp
  next
    case tab
    then obtain m where *: "\<not> depth \<ge> max_depth" "blob_object data (depth + 1) = Inr m" "v = JObject m"
      using "1.prems" parts by (subst (asm) blob_field.simps) (auto split: sum.splits if_splits)
    have "\<forall>kv\<in>set m. json_depth (snd kv) \<le> max_depth - (depth + 1)"
      using "1.IH"(2) [OF parts refl _ tab(2) tab(1)] * tab by auto
    then have "foldr max (map (\<lambda>kv. json_depth (snd kv)) m) 0 \<le> max_depth - (depth + 1)"
      unfolding foldr_max_le by auto
    then show ?thesis using * by simp
  next
    case sc
    then have "scalar_value (at_id a) data = Inr v"
      using "1.prems" parts by (subst (asm) blob_field.simps) (auto split: sum.splits if_splits)
    then show ?thesis by (simp add: scalar_depth)
  qed
next
  case (2 data depth)
  obtain attrs kvs where *: "parse_attrs data = Inr attrs" "collect_results (\<lambda>a. blob_field a depth) attrs = Inr kvs"
    "m = fold (\<lambda>(k, v). map_insert k v) kvs []"
    using "2.prems" by (subst (asm) blob_object.simps) (auto split: sum.splits)
  have "json_depth (snd kv) \<le> max_depth - depth" if "kv \<in> set kvs" for kv
    using collect_results_member [OF *(2) that] "2.IH" [OF *(1)] by (cases kv) auto
  then show ?case using set_fold_insert [of _ kvs "[]"] unfolding *(3) by auto
qed

section \<open>Properties\<close>

text \<open>
  C6: arguments survive the wire.  Every object that \<open>call\<close> accepts to send (its encoding
  and 256 bytes fit the message limit), with keys below 64 KiB, strings without NUL, integers
  of \<open>i64\<close>, finite floats and at most 32 nested levels, is read back unchanged from the
  bytes \<open>table\<close> writes.
\<close>

theorem ubus_args_roundtrip:
  assumes "wire_ok (Suc max_depth) (JObject m)" "length (put_table m) + 256 \<le> max_msg"
  shows "object_value (put_table m) = Inr (JObject m)"
proof -
  have "length (put_table m) < 2 ^ 24" using assms(2) by (simp add: max_msg_def)
  then have "blob_object (put_table m) 0 = Inr m" using assms(1) by (intro object_put_table) simp_all
  then show ?thesis by (simp add: object_value_def)
qed

definition demo_args :: json_map where
  "demo_args = [(''list'', JArray [JBool True, JNull, jint (- 5)]), (''n'', jint 5000000000), (''s'', JString ''ok'')]"

theorem ubus_args_roundtrip_witness:
  "wire_ok (Suc max_depth) (JObject demo_args) \<and> length (put_table demo_args) + 256 \<le> max_msg
   \<and> object_value (put_table demo_args) = Inr (JObject demo_args)"
proof -
  have w: "wire_ok (Suc max_depth) (JObject demo_args)" and l: "length (put_table demo_args) + 256 \<le> max_msg"
    by code_simp+
  show ?thesis using ubus_args_roundtrip [OF w l] w l by blast
qed

text \<open>
  C31: frames are read back one by one.  A frame whose body is made of padded attributes and fits
  the message limit is read from the stream with its kind, sequence number, peer and body, and
  leaves the bytes that follow it.
\<close>

theorem ubus_frame_roundtrip:
  assumes "length body mod 4 = 0" "4 + length body \<le> max_msg"
  shows "read_frame (put_frame kind s peer body @ rest)
    = Inr (\<lparr>fr_kind = kind, fr_seq = s, fr_peer = peer, fr_body = body\<rparr>, rest)"
  using assms by (rule read_put_frame)

theorem ubus_frame_roundtrip_witness:
  "read_frame (put_frame 5 7 9 (put_string 4 ''get'') @ [1, 2])
    = Inr (\<lparr>fr_kind = 5, fr_seq = 7, fr_peer = 9, fr_body = put_string 4 ''get''\<rparr>, [1, 2])"
proof -
  have m: "length (put_string 4 ''get'') mod 4 = 0" and l: "4 + length (put_string 4 ''get'') \<le> max_msg"
    by code_simp+
  show ?thesis using ubus_frame_roundtrip [OF m l] .
qed

text \<open>
  C40: decoding is bounded on every input.  Whatever bytes the bus sends, decoding them ends, and
  a value it returns nests at most 33 levels, the outer object included.
\<close>

theorem ubus_decode_depth:
  "case object_value data of Inl _ \<Rightarrow> True | Inr v \<Rightarrow> json_depth v \<le> 33"
proof (cases "blob_object data 0")
  case (Inr m)
  have "json_depth (JObject m) \<le> Suc max_depth"
    using blob_depth(2) [OF Inr] by (auto simp: foldr_max_le)
  then show ?thesis using Inr by (simp add: object_value_def max_depth_def)
qed (simp add: object_value_def)

text \<open>
  The length of a key is written in 16 bits while its bytes are written in full: a key of
  65536 bytes is read back as the empty key.
\<close>

theorem ubus_long_key_mangled:
  assumes "length name = 2 ^ 16"
  shows "\<exists>data'. field_parts (field_attr kind name data) = Inr ([], data')"
proof -
  have "be_nat (take 2 (field_payload name data)) = 0"
    using assms by (simp add: field_payload_def be_nat_to_be)
  moreover have "4 \<le> length (field_payload name data)" using assms by (simp add: field_payload_def)
  ultimately show ?thesis
    by (simp add: field_parts_def field_attr_def Let_def align_def bytes_str_def from_utf8_lossy_def)
qed

end
