(* ===== verification/Ubus_Client.thy ===== *)
theory Ubus_Client
  imports Ubus_Blob
begin

text \<open>
  The client and the executor of \<open>ubus_socket.rs\<close>.  What the socket does during one
  request is an \<open>exchange\<close>: the outcome of the connection (used when none is cached), of
  writing the frame, and the results of reading frames until the deadline.  A call consumes a
  list of exchanges and returns, beside its result, the frames it delivered and how
  each was answered.  The statistics
  counters are not modelled; the lock that serialises calls makes each one a step.
\<close>

definition m_hello :: u8 where "m_hello = 0"
definition m_status :: u8 where "m_status = 1"
definition m_data :: u8 where "m_data = 2"
definition m_lookup :: u8 where "m_lookup = 4"
definition m_invoke :: u8 where "m_invoke = 5"
definition attr_status :: u8 where "attr_status = 1"
definition attr_objpath :: u8 where "attr_objpath = 2"
definition attr_objid :: u8 where "attr_objid = 3"
definition attr_method :: u8 where "attr_method = 4"
definition attr_data :: u8 where "attr_data = 7"
definition not_found :: u32 where "not_found = 4"

datatype failure = NotSent string | Failed string | TimedOut | Status u32 | NoObject

datatype connect_result = CGreeted frame | CTimeout | CError string | CHelloTimeout | CHelloError string
datatype write_result = WOk | WError string | WTimeout
datatype read_result = RFrame frame | RError string | RTimeout

record exchange =
  ex_connect :: connect_result
  ex_write :: write_result
  ex_reads :: "read_result list"

record client =
  cl_stream :: bool
  cl_seq :: u16
  cl_ids :: "string \<rightharpoonup> u32"

definition client_default :: client where
  "client_default = \<lparr>cl_stream = False, cl_seq = 0, cl_ids = Map.empty\<rparr>"

definition next_seq :: "u16 \<Rightarrow> u16" where
  "next_seq s = max (s + 1) 1"

definition client_connect :: "connect_result \<Rightarrow> client \<Rightarrow> failure option \<times> client" where
  "client_connect r c =
     (if cl_stream c then (None, c)
      else case r of
        CTimeout \<Rightarrow> (Some (NotSent ''ubus connect timed out''), c)
      | CError e \<Rightarrow> (Some (NotSent (''ubus connect: '' @ e)), c)
      | CHelloTimeout \<Rightarrow> (Some (NotSent ''ubus hello timed out''), c)
      | CHelloError e \<Rightarrow> (Some (NotSent e), c)
      | CGreeted hello \<Rightarrow>
          if fr_kind hello \<noteq> m_hello then (Some (NotSent ''ubus did not greet''), c)
          else (None, c\<lparr>cl_stream := True\<rparr>))"

definition u32_attr :: "attr option \<Rightarrow> u32 option" where
  "u32_attr a =
     (case a of None \<Rightarrow> None
      | Some x \<Rightarrow> if length (at_data x) = 4 then Some (word_of_nat (be_nat (at_data x))) else None)"

text \<open>
  The loop over the replies: the result, whether the cached object ids are dropped, and whether
  the stream is kept for the next request.
\<close>

fun await_reply :: "u16 \<Rightarrow> u32 \<Rightarrow> bytes list \<Rightarrow> read_result list \<Rightarrow> (failure + bytes list) \<times> bool \<times> bool" where
  "await_reply s peer data [] = (Inl TimedOut, False, False)"
| "await_reply s peer data (RTimeout # rs) = (Inl TimedOut, False, False)"
| "await_reply s peer data (RError e # rs) = (Inl (Failed e), True, False)"
| "await_reply s peer data (RFrame reply # rs) =
     (if fr_seq reply \<noteq> s \<or> fr_peer reply \<noteq> peer then await_reply s peer data rs
      else if fr_kind reply = m_data then await_reply s peer (data @ [fr_body reply]) rs
      else if fr_kind reply = m_status then
        (case parse_attrs (fr_body reply) of
           Inl e \<Rightarrow> (Inl (Failed e), False, False)
         | Inr attrs \<Rightarrow>
             (case u32_attr (message_attr attrs attr_status) of
                None \<Rightarrow> (Inl (Failed ''ubus status missing''), False, False)
              | Some code \<Rightarrow> (if code = 0 then Inr data else Inl (Status code), False, True)))
      else await_reply s peer data rs)"

text \<open>A frame that was, or may have been, delivered, with the result of its exchange.\<close>

type_synonym sent = "frame \<times> (failure + bytes list)"

definition client_request ::
  "u8 \<Rightarrow> u32 \<Rightarrow> bytes \<Rightarrow> exchange \<Rightarrow> client \<Rightarrow> (failure + bytes list) \<times> sent list \<times> client" where
  "client_request kind peer body ex c =
     (let reused = cl_stream c in
      case client_connect (ex_connect ex) c of
        (Some e, c1) \<Rightarrow> (Inl e, [], c1)
      | (None, c1) \<Rightarrow>
          let s = next_seq (cl_seq c1);
              c2 = c1\<lparr>cl_seq := s, cl_stream := False\<rparr>;
              out = \<lparr>fr_kind = kind, fr_seq = s, fr_peer = peer, fr_body = body\<rparr>
          in case ex_write ex of
               WError e \<Rightarrow>
                 (Inl (if reused then NotSent (''ubus write: '' @ e) else Failed (''ubus write: '' @ e)), [],
                  c2\<lparr>cl_ids := Map.empty\<rparr>)
             | WTimeout \<Rightarrow> (Inl TimedOut, [(out, Inl TimedOut)], c2)
             | WOk \<Rightarrow>
                 let (r, clear, keep) = await_reply s peer [] (ex_reads ex)
                 in (r, [(out, r)], c2\<lparr>cl_ids := (if clear then Map.empty else cl_ids c2), cl_stream := keep\<rparr>))"

definition text_bytes :: "bytes \<Rightarrow> bytes" where
  "text_bytes data = takeWhile (\<lambda>b. b \<noteq> 0) data"

text \<open>The replies of a lookup, up to the first that names the object.\<close>

fun find_object :: "string \<Rightarrow> bytes list \<Rightarrow> failure + u32" where
  "find_object object [] = Inl NoObject"
| "find_object object (reply # replies) =
     (case parse_attrs reply of
        Inl e \<Rightarrow> Inl (NotSent e)
      | Inr attrs \<Rightarrow>
          (case (map_option (\<lambda>a. text_bytes (at_data a)) (message_attr attrs attr_objpath),
                 u32_attr (message_attr attrs attr_objid)) of
             (Some path, Some i) \<Rightarrow> if path = str_bytes object then Inr i else find_object object replies
           | _ \<Rightarrow> find_object object replies))"

definition client_lookup :: "string \<Rightarrow> exchange \<Rightarrow> client \<Rightarrow> (failure + u32) \<times> sent list \<times> client" where
  "client_lookup object ex c =
     (let (r, sent, c1) = client_request m_lookup 0 (put_string attr_objpath object) ex c in
      case r of
        Inl (Failed e) \<Rightarrow> (Inl (NotSent e), sent, c1)
      | Inl TimedOut \<Rightarrow> (Inl (NotSent ''ubus lookup timed out''), sent, c1)
      | Inl (Status code) \<Rightarrow> (Inl (if code = not_found then NoObject else Status code), sent, c1)
      | Inl other \<Rightarrow> (Inl other, sent, c1)
      | Inr replies \<Rightarrow>
          (case find_object object replies of
             Inl e \<Rightarrow> (Inl e, sent, c1)
           | Inr i \<Rightarrow> (Inr i, sent, c1\<lparr>cl_ids := (cl_ids c1)(object \<mapsto> i)\<rparr>)))"

fun first_data :: "bytes list \<Rightarrow> failure + json" where
  "first_data [] = Inr (JObject [])"
| "first_data (reply # replies) =
     (case parse_attrs reply of
        Inl e \<Rightarrow> Inl (Failed e)
      | Inr attrs \<Rightarrow>
          (case message_attr attrs attr_data of
             Some d \<Rightarrow> (case object_value (at_data d) of Inl e \<Rightarrow> Inl (Failed e) | Inr v \<Rightarrow> Inr v)
           | None \<Rightarrow> first_data replies))"

definition invoke_body :: "u32 \<Rightarrow> string \<Rightarrow> bytes \<Rightarrow> bytes" where
  "invoke_body i method args =
     put_attr attr_objid False (to_be 4 (unat i)) @ put_string attr_method method @ put_attr attr_data False args"

definition silent :: exchange where
  "silent = \<lparr>ex_connect = CTimeout, ex_write = WTimeout, ex_reads = []\<rparr>"

definition head_ex :: "exchange list \<Rightarrow> exchange" where
  "head_ex xs = (case xs of [] \<Rightarrow> silent | x # _ \<Rightarrow> x)"

text \<open>The cached id of the object, or a lookup.\<close>

definition resolve :: "string \<Rightarrow> exchange list \<Rightarrow> client \<Rightarrow> (failure + u32) \<times> sent list \<times> exchange list \<times> client" where
  "resolve object xs c =
     (case cl_ids c object of
        Some i \<Rightarrow> (Inr i, [], xs, c)
      | None \<Rightarrow> (let (r, sent, c1) = client_lookup object (head_ex xs) c in (r, sent, tl xs, c1)))"

function client_call ::
  "bool \<Rightarrow> string \<Rightarrow> string \<Rightarrow> bytes \<Rightarrow> exchange list \<Rightarrow> client \<Rightarrow> (failure + json) \<times> sent list \<times> client" where
  "client_call relooked object method args xs c =
     (case resolve object xs c of
        (Inl e, sent, xs1, c1) \<Rightarrow> (Inl e, sent, c1)
      | (Inr i, sent, xs1, c1) \<Rightarrow>
          let (r, sent2, c2) = client_request m_invoke i (invoke_body i method args) (head_ex xs1) c1 in
          case r of
            Inr replies \<Rightarrow> (first_data replies, sent @ sent2, c2)
          | Inl e \<Rightarrow>
              if e = Status not_found \<and> \<not> relooked then
                let (l, sent3, c3) = client_lookup object (head_ex (tl xs1)) (c2\<lparr>cl_ids := (cl_ids c2)(object := None)\<rparr>) in
                (case l of
                   Inr new_id \<Rightarrow>
                     if new_id \<noteq> i
                     then (let (r', sent4, c4) = client_call True object method args (tl (tl xs1)) c3
                           in (r', sent @ sent2 @ sent3 @ sent4, c4))
                     else (Inl (Status not_found), sent @ sent2 @ sent3, c3)
                 | Inl _ \<Rightarrow> (Inl (Status not_found), sent @ sent2 @ sent3, c3))
              else (Inl e, sent @ sent2, c2))"
  by pat_completeness auto

termination client_call
  by (relation "measure (\<lambda>(relooked, _). if relooked then 0 else 1)") auto

declare client_call.simps [simp del]

section \<open>Executor\<close>

definition max_interactive_waiting :: nat where "max_interactive_waiting = 8"

record executor =
  xc_client :: "client option"
  xc_waiting :: nat
  xc_cooldowns :: "string \<rightharpoonup> nat"
  xc_missing :: "string \<rightharpoonup> nat"
  xc_down_until :: "nat option"

text \<open>Durations in nanoseconds, as the process-wide executor is built with them.\<close>

definition xc_cooldown :: nat where "xc_cooldown = 30 * 10 ^ 9"
definition xc_socket_retry :: nat where "xc_socket_retry = 30 * 10 ^ 9"
definition missing_ttl :: nat where "missing_ttl = 10 * 10 ^ 9"

definition retain_later :: "nat \<Rightarrow> (string \<rightharpoonup> nat) \<Rightarrow> (string \<rightharpoonup> nat)" where
  "retain_later now m = (\<lambda>k. case m k of Some until \<Rightarrow> if until > now then Some until else None | None \<Rightarrow> None)"

definition cooling_down :: "nat \<Rightarrow> string \<Rightarrow> executor \<Rightarrow> bool \<times> executor" where
  "cooling_down now object x =
     (let m = retain_later now (xc_cooldowns x) in (m object \<noteq> None, x\<lparr>xc_cooldowns := m\<rparr>))"

definition start_cooldown :: "nat \<Rightarrow> string \<Rightarrow> executor \<Rightarrow> executor" where
  "start_cooldown now object x = x\<lparr>xc_cooldowns := (xc_cooldowns x)(object \<mapsto> now + xc_cooldown)\<rparr>"

definition known_missing :: "nat \<Rightarrow> string \<Rightarrow> executor \<Rightarrow> bool \<times> executor" where
  "known_missing now object x =
     (let m = retain_later now (xc_missing x) in (m object \<noteq> None, x\<lparr>xc_missing := m\<rparr>))"

definition remember_missing :: "nat \<Rightarrow> string \<Rightarrow> executor \<Rightarrow> executor" where
  "remember_missing now object x = x\<lparr>xc_missing := (xc_missing x)(object \<mapsto> now + missing_ttl)\<rparr>"

definition socket_down :: "nat \<Rightarrow> executor \<Rightarrow> bool" where
  "socket_down now x = (case xc_down_until x of Some until \<Rightarrow> now < until | None \<Rightarrow> False)"

definition mark_socket_down :: "nat \<Rightarrow> bool \<Rightarrow> executor \<Rightarrow> executor" where
  "mark_socket_down now down x = x\<lparr>xc_down_until := (if down then Some (now + xc_socket_retry) else None)\<rparr>"

definition ubus_bin :: "string option \<Rightarrow> string" where
  "ubus_bin env = (case env of Some v \<Rightarrow> v | None \<Rightarrow> ''/bin/ubus'')"

definition status_text :: "string \<Rightarrow> u32 \<Rightarrow> bool \<Rightarrow> string" where
  "status_text bin code lookup =
     (let low = code AND 0xff;
          exit = (if lookup then low else (256 - low) AND 0xff)
      in bin @ '' exited with exit status: '' @ show_nat (unat exit))"

fun is_not_sent :: "failure + json \<Rightarrow> bool" where
  "is_not_sent (Inl (NotSent _)) = True"
| "is_not_sent _ = False"

text \<open>The call on the connection, with the one retry on a stale connection.\<close>

definition exec_transport ::
  "string \<Rightarrow> string \<Rightarrow> bytes \<Rightarrow> exchange list \<Rightarrow> exchange list \<Rightarrow> client \<Rightarrow> (failure + json) \<times> sent list \<times> client" where
  "exec_transport object method payload xs ys c =
     (let reused = cl_stream c;
          (r, sent, c1) = client_call False object method payload xs c
      in if reused \<and> is_not_sent r
         then (let (r', sent', c2) = client_call False object method payload ys c1 in (r', sent @ sent', c2))
         else (r, sent, c1))"

text \<open>What the result does to the executor and what the caller gets; \<open>None\<close> falls back to the CLI.\<close>

definition exec_conclude ::
  "string \<Rightarrow> nat \<Rightarrow> bool \<Rightarrow> string \<Rightarrow> failure + json \<Rightarrow> executor \<Rightarrow> (string + json) option \<times> executor" where
  "exec_conclude bin now collect object r x =
     (let x1 = (if is_not_sent r then x else mark_socket_down now False x) in
      case r of
        Inr v \<Rightarrow> (Some (Inr v), x1)
      | Inl (NotSent reason) \<Rightarrow> (None, mark_socket_down now True x1)
      | Inl TimedOut \<Rightarrow> (Some (Inl (bin @ '' timed out'')), if collect then start_cooldown now object x1 else x1)
      | Inl (Status code) \<Rightarrow> (Some (Inl (status_text bin code False)), x1)
      | Inl NoObject \<Rightarrow> (Some (Inl (status_text bin not_found True)), if collect then remember_missing now object x1 else x1)
      | Inl (Failed e) \<Rightarrow> (Some (Inl e), x1))"

text \<open>
  \<open>now\<close> is the monotonic clock at the checks and \<open>later\<close> at the end of the call.
\<close>

definition exec_call ::
  "string \<Rightarrow> nat \<Rightarrow> nat \<Rightarrow> bool \<Rightarrow> string \<Rightarrow> string \<Rightarrow> json \<Rightarrow> exchange list \<Rightarrow> exchange list \<Rightarrow> executor
   \<Rightarrow> (string + json) option \<times> sent list \<times> executor" where
  "exec_call bin now later collect object method args xs ys x =
     (case as_object args of None \<Rightarrow> (None, [], x)
      | Some m \<Rightarrow>
          if socket_down now x then (None, [], x)
          else
            let payload = put_table m in
            if length payload + 256 > max_msg then (Some (Inl ''ubus args too large''), [], x)
            else
              let (cooling, x1) = (if collect then cooling_down now object x else (False, x)) in
              if cooling then (Some (Inl (''ubus '' @ object @ '': skipped after a recent timeout'')), [], x1)
              else
                let (gone, x2) = (if collect then known_missing now object x1 else (False, x1)) in
                if gone then (Some (Inl (status_text bin not_found True)), [], x2)
                else if \<not> collect \<and> xc_waiting x2 \<ge> max_interactive_waiting then (Some (Inl ''ubus busy''), [], x2)
                else
                  let c = (case xc_client x2 of Some c \<Rightarrow> c | None \<Rightarrow> client_default);
                      (r, sent, c1) = exec_transport object method payload xs ys c;
                      (res, x3) = exec_conclude bin later collect object r (x2\<lparr>xc_client := Some c1\<rparr>)
                  in (res, sent, x3))"

section \<open>Laws of a call\<close>

definition invokes :: "sent list \<Rightarrow> sent list" where
  "invokes sent = filter (\<lambda>(f, r). fr_kind f = m_invoke) sent"

lemma invokes_simps [simp]: "invokes [] = []" "invokes (xs @ ys) = invokes xs @ invokes ys"
  by (simp_all add: invokes_def)

lemma await_reply_sent: "await_reply s peer data rs \<noteq> (Inl (NotSent e), x)"
  by (induction s peer data rs rule: await_reply.induct) (auto split: sum.splits option.splits)

lemma request_sent:
  assumes "client_request kind peer body ex c = (r, sent, c')"
  shows "sent = [] \<or> (\<exists>f. sent = [(f, r)] \<and> fr_kind f = kind \<and> fr_peer f = peer \<and> (\<forall>e. r \<noteq> Inl (NotSent e)))"
  using assms await_reply_sent
  by (auto simp: client_request_def Let_def split: option.splits write_result.splits prod.splits)

lemma request_status:
  assumes "client_request kind peer body ex c = (Inl (Status code), sent, c')"
  shows "\<exists>f. sent = [(f, Inl (Status code))] \<and> fr_kind f = kind \<and> fr_peer f = peer"
  using assms by (auto simp: client_request_def client_connect_def Let_def
      split: option.splits write_result.splits prod.splits if_splits connect_result.splits)

lemma kinds_differ [simp]: "m_lookup \<noteq> m_invoke" "m_invoke \<noteq> m_lookup"
  by (simp_all add: m_lookup_def m_invoke_def)

lemma lookup_invokes:
  assumes "client_lookup object ex c = (r, sent, c')"
  shows "invokes sent = []"
proof -
  obtain r0 c0 where "client_request m_lookup 0 (put_string attr_objpath object) ex c = (r0, sent, c0)"
    using assms by (auto simp: client_lookup_def split: prod.splits sum.splits failure.splits)
  from request_sent [OF this] show ?thesis by (auto simp: invokes_def)
qed

lemma lookup_found: "client_lookup object ex c = (Inr i, sent, c') \<Longrightarrow> cl_ids c' object = Some i"
  by (auto simp: client_lookup_def split: prod.splits sum.splits failure.splits)

lemma resolve_invokes: "resolve object xs c = (r, sent, xs', c') \<Longrightarrow> invokes sent = []"
  by (auto simp: resolve_def lookup_invokes split: option.splits prod.splits)

lemma resolve_cached: "cl_ids c object = Some i \<Longrightarrow> resolve object xs c = (Inr i, [], xs, c)"
  by (simp add: resolve_def)

text \<open>The shape of a call: how it ends and what it invoked.\<close>

lemma invoke_request:
  assumes "client_request m_invoke i body ex c = (r, sent, c')"
  shows "(invokes sent = [] \<or> (\<exists>f. invokes sent = [(f, r)] \<and> fr_peer f = i))
    \<and> (\<forall>e. r = Inl (NotSent e) \<longrightarrow> invokes sent = [])
    \<and> (r = Inl (Status not_found) \<longrightarrow> (\<exists>f. invokes sent = [(f, Inl (Status not_found))] \<and> fr_peer f = i))"
  using request_sent [OF assms] request_status [of m_invoke i body ex c not_found sent c'] assms
  by (auto simp: invokes_def)

lemma first_data_sent: "first_data replies \<noteq> Inl (NotSent e)"
  by (induction replies) (auto split: sum.splits option.splits)

lemma call_relooked:
  assumes "client_call True object method args xs c = (r, sent, c')" "cl_ids c object = Some i"
  shows "(invokes sent = [] \<or> (\<exists>f a. invokes sent = [(f, a)] \<and> fr_peer f = i))
    \<and> (\<forall>e. r = Inl (NotSent e) \<longrightarrow> invokes sent = [])"
proof -
  obtain r1 sent1 c1 where q: "client_request m_invoke i (invoke_body i method args) (head_ex xs) c = (r1, sent1, c1)"
    by (metis prod_cases3)
  have "sent = sent1 \<and> (r = (case r1 of Inr replies \<Rightarrow> first_data replies | Inl e \<Rightarrow> Inl e))"
    using assms(1) by (subst (asm) client_call.simps) (auto simp: resolve_cached [OF assms(2)] q Let_def split: sum.splits)
  then show ?thesis using invoke_request [OF q] first_data_sent by (auto split: sum.splits)
qed

lemma call_invokes:
  assumes "client_call False object method args xs c = (r, sent, c')"
  shows "length (invokes sent) \<le> 2 \<and> distinct (map (fr_peer \<circ> fst) (invokes sent))
    \<and> (\<forall>e. r = Inl (NotSent e) \<longrightarrow> (\<forall>(f, a)\<in>set (invokes sent). a = Inl (Status not_found)))"
proof -
  obtain r0 sent0 xs1 c1 where res: "resolve object xs c = (r0, sent0, xs1, c1)" by (metis prod_cases4)
  have s0: "invokes sent0 = []" using resolve_invokes [OF res] .
  show ?thesis
  proof (cases r0)
    case (Inl e)
    then show ?thesis using assms s0 by (subst (asm) client_call.simps) (auto simp: res)
  next
    case (Inr i)
    obtain r1 sent1 c2 where q: "client_request m_invoke i (invoke_body i method args) (head_ex xs1) c1 = (r1, sent1, c2)"
      by (metis prod_cases3)
    note inv = invoke_request [OF q]
    show ?thesis
    proof (cases "r1 = Inl (Status not_found)")
      case False
      then have "sent = sent0 @ sent1 \<and> r = (case r1 of Inr replies \<Rightarrow> first_data replies | Inl e \<Rightarrow> Inl e)"
        using assms by (subst (asm) client_call.simps) (auto simp: res Inr q Let_def split: sum.splits)
      then show ?thesis using inv s0 first_data_sent by (auto split: sum.splits)
    next
      case nf: True
      obtain f where f: "invokes sent1 = [(f, Inl (Status not_found))]" "fr_peer f = i" using inv nf by auto
      obtain l sent2 c3 where lk: "client_lookup object (head_ex (tl xs1)) (c2\<lparr>cl_ids := (cl_ids c2)(object := None)\<rparr>) = (l, sent2, c3)"
        by (metis prod_cases3)
      have s2: "invokes sent2 = []" using lookup_invokes [OF lk] .
      show ?thesis
      proof (cases "\<exists>new_id. l = Inr new_id \<and> new_id \<noteq> i")
        case False
        then have "sent = sent0 @ sent1 @ sent2 \<and> r = Inl (Status not_found)"
          using assms by (subst (asm) client_call.simps) (auto simp: res Inr q nf lk Let_def split: sum.splits if_splits)
        then show ?thesis using s0 s2 f by auto
      next
        case True
        then obtain n where n: "l = Inr n" "n \<noteq> i" by auto
        obtain r4 sent4 c4 where again: "client_call True object method args (tl (tl xs1)) c3 = (r4, sent4, c4)"
          by (metis prod_cases3)
        have "sent = sent0 @ sent1 @ sent2 @ sent4 \<and> r = r4"
          using assms n by (subst (asm) client_call.simps) (auto simp: res Inr q nf lk again Let_def)
        then show ?thesis using call_relooked [OF again lookup_found [OF lk [unfolded n(1)]]] s0 s2 f n by auto
      qed
    qed
  qed
qed

section \<open>Laws of the executor\<close>

lemma is_not_sent_iff: "is_not_sent r \<longleftrightarrow> (\<exists>e. r = Inl (NotSent e))"
  by (cases r rule: is_not_sent.cases) auto

lemma transport_fallback:
  assumes "exec_transport object method payload xs ys c = (r, sent, c')" "is_not_sent r"
  shows "\<forall>(f, a)\<in>set (invokes sent). a = Inl (Status not_found)"
proof -
  obtain r1 sent1 c1 where one: "client_call False object method payload xs c = (r1, sent1, c1)" by (metis prod_cases3)
  obtain r2 sent2 c2 where two: "client_call False object method payload ys c1 = (r2, sent2, c2)" by (metis prod_cases3)
  have "r = r1 \<and> sent = sent1 \<or> is_not_sent r1 \<and> r = r2 \<and> sent = sent1 @ sent2"
    using assms(1) by (auto simp: exec_transport_def one two Let_def split: if_splits)
  then show ?thesis using call_invokes [OF one] call_invokes [OF two] assms(2) by (auto simp: is_not_sent_iff)
qed

lemma conclude_None: "fst (exec_conclude bin now collect object r x) = None \<longleftrightarrow> is_not_sent r"
  by (cases r rule: is_not_sent.cases) (auto simp: exec_conclude_def Let_def)

lemma conclude_cooldowns:
  "xc_cooldowns (snd (exec_conclude bin later collect object r x)) =
     (if collect \<and> r = Inl TimedOut then (xc_cooldowns x)(object \<mapsto> later + xc_cooldown) else xc_cooldowns x)"
  by (cases r rule: is_not_sent.cases)
    (auto simp: exec_conclude_def Let_def mark_socket_down_def start_cooldown_def remember_missing_def)

text \<open>The object is on cooldown at least until \<open>t\<close>.\<close>

definition cooled_until :: "nat \<Rightarrow> string \<Rightarrow> executor \<Rightarrow> bool" where
  "cooled_until t object x = (case xc_cooldowns x object of Some u \<Rightarrow> t \<le> u | None \<Rightarrow> False)"

lemma cooled_retain: "now < t \<Longrightarrow> cooled_until t object (x\<lparr>xc_cooldowns := retain_later now (xc_cooldowns x)\<rparr>) = cooled_until t object x"
  by (auto simp: cooled_until_def retain_later_def split: option.splits)

lemma exec_call_cooldowns:
  "\<exists>m. xc_cooldowns (snd (snd (exec_call bin now later collect object method args xs ys x))) = m
     \<and> (m = xc_cooldowns x \<or> m = retain_later now (xc_cooldowns x)
        \<or> m = (retain_later now (xc_cooldowns x))(object \<mapsto> later + xc_cooldown))"
proof -
  have conc: "snd (case e of (res, x3) \<Rightarrow> (res, sent, x3)) = (sent, snd e)" for e :: "(string + json) option \<times> executor" and sent :: "sent list"
    by (cases e) simp
  show ?thesis
    by (cases "as_object args"; cases collect)
      (auto simp: exec_call_def Let_def cooling_down_def known_missing_def conc conclude_cooldowns split: prod.splits)
qed

record exec_event =
  xe_now :: nat
  xe_later :: nat
  xe_collect :: bool
  xe_object :: string
  xe_method :: string
  xe_args :: json
  xe_first :: "exchange list"
  xe_second :: "exchange list"

definition exec_step :: "string \<Rightarrow> exec_event \<Rightarrow> executor \<Rightarrow> executor" where
  "exec_step bin e x = snd (snd (exec_call bin (xe_now e) (xe_later e) (xe_collect e) (xe_object e) (xe_method e)
     (xe_args e) (xe_first e) (xe_second e) x))"

lemma exec_step_cooled:
  assumes "cooled_until t object x" "xe_now e < t" "t \<le> xe_later e + xc_cooldown"
  shows "cooled_until t object (exec_step bin e x)"
  using exec_call_cooldowns [of bin "xe_now e" "xe_later e" "xe_collect e" "xe_object e" "xe_method e" "xe_args e"
      "xe_first e" "xe_second e" x] cooled_retain [OF assms(2), of object x] assms(1,3)
  by (auto simp: cooled_until_def exec_step_def)

lemma exec_run_cooled:
  "cooled_until t object x \<Longrightarrow> list_all (\<lambda>e. xe_now e < t \<and> t \<le> xe_later e + xc_cooldown) es
   \<Longrightarrow> cooled_until t object (fold (exec_step bin) es x)"
  by (induction es arbitrary: x) (auto simp: exec_step_cooled)

lemma cooled_call_silent:
  assumes "cooled_until t object x" "now < t"
  shows "fst (snd (exec_call bin now later True object method args xs ys x)) = []"
proof -
  have "retain_later now (xc_cooldowns x) object \<noteq> None"
    using assms by (auto simp: cooled_until_def retain_later_def split: option.splits)
  then show ?thesis by (auto simp: exec_call_def cooling_down_def Let_def split: option.splits)
qed

section \<open>Sequence numbers\<close>

lemma unat_next_seq:
  assumes "s \<noteq> 0"
  shows "unat (next_seq s) = unat s mod 65535 + 1"
proof -
  have s: "unat s < 65536" using unsigned_less [of s] by simp
  have plus: "unat (s + 1) = (unat s + 1) mod 65536" by (simp add: unat_word_ariths)
  show ?thesis
  proof (cases "unat s = 65535")
    case True
    then have "s + 1 = 0" using plus by (simp add: unat_eq_zero)
    then show ?thesis using True by (simp add: next_seq_def)
  next
    case False
    then have *: "unat (s + 1) = unat s + 1" using plus s by simp
    then have "1 \<le> s + 1" by (simp add: word_le_nat_alt)
    then show ?thesis using * s False by (simp add: next_seq_def max_def)
  qed
qed

lemma next_seq_nonzero: "next_seq s \<noteq> 0"
  by (simp add: next_seq_def max_def) (metis le_less_trans less_irrefl linear word_gt_0 zero_less_one)

lemma next_seq_iterate:
  assumes "s \<noteq> 0"
  shows "unat ((next_seq ^^ k) s) = (unat s - 1 + k) mod 65535 + 1 \<and> (next_seq ^^ k) s \<noteq> 0"
proof (induction k)
  case 0
  have "unat s < 65536" "0 < unat s" using unsigned_less [of s] assms by (auto simp: unat_gt_0)
  then show ?case using assms by simp
next
  case (Suc k)
  have "unat (next_seq ((next_seq ^^ k) s)) = ((unat s - 1 + k) mod 65535 + 1) mod 65535 + 1"
    using Suc unat_next_seq by simp
  then show ?case using next_seq_nonzero by (simp add: mod_simps)
qed

text \<open>
  Falling back to the command line never repeats a request that ran: when the executor gives
  a call back for the \<open>ubus\<close> command (result \<open>None\<close>), whatever the socket did, every
  invocation it delivered on the way was answered with \<open>NOT_FOUND\<close>.
\<close>

lemma exec_fallback_safe:
  assumes "exec_call bin now later collect object method args xs ys x = (None, sent, x')"
    "(f, answer) \<in> set sent" "fr_kind f = m_invoke"
  shows "answer = Inl (Status not_found)"
proof -
  have conc: "(case e of (res, x3) \<Rightarrow> (res, sent, x3)) = (fst e, sent, snd e)"
    for e :: "(string + json) option \<times> executor" and sent :: "sent list"
    by (cases e) simp
  obtain c payload r c1 where tr: "exec_transport object method payload xs ys c = (r, sent, c1)" "is_not_sent r"
    using assms(1,2)
    by (cases "as_object args"; cases collect)
      (auto simp: exec_call_def Let_def conc conclude_None split: prod.splits if_splits)
  have "(f, answer) \<in> set (invokes sent)" using assms(2,3) by (simp add: invokes_def)
  then show ?thesis using transport_fallback [OF tr] by blast
qed

section \<open>Properties\<close>

definition demo_id_reply :: bytes where
  "demo_id_reply = put_string attr_objpath ''svc'' @ put_attr attr_objid False [0, 0, 0, 9]"

definition demo_reply :: "u16 \<Rightarrow> u32 \<Rightarrow> u8 \<Rightarrow> bytes \<Rightarrow> read_result" where
  "demo_reply s peer kind body = RFrame \<lparr>fr_kind = kind, fr_seq = s, fr_peer = peer, fr_body = body\<rparr>"

definition demo_exchanges :: "exchange list" where
  "demo_exchanges =
     [\<lparr>ex_connect = CTimeout, ex_write = WOk, ex_reads = [demo_reply 1 7 m_status (put_attr attr_status False [0, 0, 0, 4])]\<rparr>,
      \<lparr>ex_connect = CTimeout, ex_write = WOk,
        ex_reads = [demo_reply 2 0 m_data demo_id_reply, demo_reply 2 0 m_status (put_attr attr_status False [0, 0, 0, 0])]\<rparr>,
      \<lparr>ex_connect = CTimeout, ex_write = WError ''broken pipe'', ex_reads = []\<rparr>]"

definition demo_executor :: executor where
  "demo_executor = \<lparr>xc_client = Some \<lparr>cl_stream = True, cl_seq = 0, cl_ids = [''svc'' \<mapsto> 7]\<rparr>, xc_waiting = 0,
     xc_cooldowns = Map.empty, xc_missing = Map.empty, xc_down_until = None\<rparr>"

text \<open>
  No object id is invoked twice by one call.  A client call delivers at most two invocations,
  and the second goes to a different object id than the first, so a service that answers
  \<open>NOT_FOUND\<close> for its own reasons is not invoked again.
\<close>

theorem ubus_invoke_bound:
  assumes "client_call False object method args xs c = (r, sent, c')"
  shows "length (invokes sent) \<le> 2 \<and> distinct (map (\<lambda>s. fr_peer (fst s)) (invokes sent))"
  using call_invokes [OF assms] by (simp add: comp_def)

theorem ubus_invoke_bound_witness:
  "length (invokes (fst (snd (client_call False ''svc'' ''run'' [] demo_exchanges \<lparr>cl_stream = True, cl_seq = 0, cl_ids = [''svc'' \<mapsto> 7]\<rparr>)))) \<le> 2"
  using ubus_invoke_bound [of "''svc''" "''run''" "[]" demo_exchanges "\<lparr>cl_stream = True, cl_seq = 0, cl_ids = [''svc'' \<mapsto> 7]\<rparr>"]
  by (metis prod.collapse)

text \<open>
  A timed-out object is left alone for thirty seconds.  After a collection call on an object
  ended in a timeout at time \<open>t\<close>, through any other calls, no collection call on that object
  that starts before \<open>t\<close> plus thirty seconds sends anything.
\<close>

theorem ubus_collect_cooldown:
  assumes "list_all (\<lambda>e. xe_now e < t + 30 * 10 ^ 9 \<and> t \<le> xe_later e) es" "now < t + 30 * 10 ^ 9"
  shows "fst (snd (exec_call bin now later True object method args xs ys
    (fold (exec_step bin) es (snd (exec_conclude bin t True object (Inl TimedOut) x))))) = []"
proof (rule cooled_call_silent)
  let ?t = "t + xc_cooldown"
  show "now < ?t" using assms(2) by (simp add: xc_cooldown_def)
  show "cooled_until ?t object (fold (exec_step bin) es (snd (exec_conclude bin t True object (Inl TimedOut) x)))"
  proof (rule exec_run_cooled)
    show "cooled_until ?t object (snd (exec_conclude bin t True object (Inl TimedOut) x))"
      by (simp add: cooled_until_def conclude_cooldowns)
    show "list_all (\<lambda>e. xe_now e < ?t \<and> ?t \<le> xe_later e + xc_cooldown) es"
      using assms(1) by (simp add: list_all_iff xc_cooldown_def)
  qed
qed

theorem ubus_collect_cooldown_witness:
  "list_all (\<lambda>e. xe_now e < 5 + 30 * 10 ^ 9 \<and> 5 \<le> xe_later e) ([] :: exec_event list) \<and> (1000000 :: nat) < 5 + 30 * 10 ^ 9
   \<and> fst (snd (exec_call ''ubus'' 1000000 1000001 True ''svc'' ''get'' (JObject []) demo_exchanges []
        (fold (exec_step ''ubus'') [] (snd (exec_conclude ''ubus'' 5 True ''svc'' (Inl TimedOut) demo_executor))))) = []"
proof -
  have a: "list_all (\<lambda>e. xe_now e < 5 + 30 * 10 ^ 9 \<and> 5 \<le> xe_later e) ([] :: exec_event list)" by simp
  have b: "(1000000 :: nat) < 5 + 30 * 10 ^ 9" by simp
  show ?thesis using ubus_collect_cooldown [OF a b] a b by blast
qed

text \<open>
  A late reply cannot be taken for the reply to another request.  Sequence numbers are never
  zero and none of the next 65534 requests has the number of a given one.
\<close>

theorem ubus_seq_no_reuse:
  assumes "s = next_seq s0" "0 < k" "k < 65535"
  shows "(next_seq ^^ k) s \<noteq> s \<and> (next_seq ^^ k) s \<noteq> 0"
proof -
  have nz: "s \<noteq> 0" using assms(1) next_seq_nonzero by simp
  have u: "unat s < 65536" "0 < unat s" using unsigned_less [of s] nz by (auto simp: unat_gt_0)
  have "(unat s - 1 + k) mod 65535 \<noteq> unat s - 1"
  proof
    assume "(unat s - 1 + k) mod 65535 = unat s - 1"
    then have "unat s - 1 + k = (unat s - 1 + k) div 65535 * 65535 + (unat s - 1)"
      using div_mult_mod_eq [of "unat s - 1 + k" 65535] by linarith
    then have "k = (unat s - 1 + k) div 65535 * 65535" by linarith
    then show False using assms(2,3) by (metis dvd_triv_right nat_dvd_not_less)
  qed
  then have "unat ((next_seq ^^ k) s) \<noteq> unat s" using next_seq_iterate [OF nz, of k] u by linarith
  then show ?thesis using next_seq_iterate [OF nz, of k] by auto
qed

theorem ubus_seq_no_reuse_witness: "(next_seq ^^ 1) (next_seq 65535) \<noteq> next_seq 65535 \<and> (next_seq ^^ 1) (next_seq 65535) \<noteq> 0"
  by (rule ubus_seq_no_reuse [OF refl]) simp_all

end
