(* ===== verification/State_Bus.thy ===== *)
theory State_Bus
  imports Ubus_Client Device_Session
begin

text \<open>
  How the rest of the daemon reaches the bus: \<open>command::run\<close> and, of \<open>state.rs\<close>,
  \<open>validate_name\<close>, \<open>ubus\<close>, \<open>ubus_cli\<close> and \<open>ubus_list\<close>.  A request goes over the
  socket first and to the \<open>ubus\<close> program when the socket could not take it.  What the
  program did and the JSON parser are arguments.
\<close>

section \<open>Running a program\<close>

datatype exit_status = ExitCode nat | ExitSignal string

datatype run_outcome =
    SpawnFailed
  | RunTimedOut
  | WaitFailed string
  | Exited exit_status bytes

definition max_output :: nat where "max_output = 1024 * 1024"

fun exit_text :: "exit_status \<Rightarrow> string" where
  "exit_text (ExitCode n) = ''exit status: '' @ show_nat n"
| "exit_text (ExitSignal t) = ''signal: '' @ t"

fun command_run :: "string \<Rightarrow> run_outcome \<Rightarrow> string + bytes" where
  "command_run program SpawnFailed = Inl (''spawn '' @ program)"
| "command_run program RunTimedOut = Inl (program @ '' timed out'')"
| "command_run program (WaitFailed e) = Inl e"
| "command_run program (Exited st out) =
     (if st \<noteq> ExitCode 0 then Inl (program @ '' exited with '' @ exit_text st)
      else if length out > max_output then Inl (program @ '' output exceeds limit'')
      else Inr out)"

section \<open>Requests\<close>

definition valid_name :: "string \<Rightarrow> bool" where
  "valid_name v \<longleftrightarrow>
     v \<noteq> [] \<and> length v \<le> 128 \<and> list_all (\<lambda>b. is_ascii_alphanumeric b \<or> b \<in> set ''._-'') v"

record bus_env =
  be_bin :: string
  be_mode :: string
  be_now :: nat
  be_later :: nat
  be_collect :: bool
  be_first :: "exchange list"
  be_retry :: "exchange list"
  be_run :: run_outcome
  be_parse :: "bytes \<Rightarrow> string + json"

definition bus_enabled :: "bus_env \<Rightarrow> bool" where "bus_enabled e \<longleftrightarrow> be_mode e \<noteq> ''cli''"
definition bus_strict :: "bus_env \<Rightarrow> bool" where "bus_strict e \<longleftrightarrow> be_mode e = ''socket''"

definition ascii_whitespace :: "u8 \<Rightarrow> bool" where
  "ascii_whitespace b \<longleftrightarrow> b \<in> {9, 10, 12, 13, 32}"

text \<open>The flag of the result tells whether the program was started.\<close>

definition ubus_cli :: "bus_env \<Rightarrow> string \<Rightarrow> string \<Rightarrow> json \<Rightarrow> (string + json) \<times> bool" where
  "ubus_cli e service method args =
     (if \<not> valid_name service \<or> \<not> valid_name method then (Inl ''invalid ubus name'', False)
      else if \<not> is_object args then (Inl ''args must be an object'', False)
      else (case command_run (be_bin e) (be_run e) of
          Inl err \<Rightarrow> Inl err
        | Inr raw \<Rightarrow>
            if list_all ascii_whitespace raw then Inr (JObject [])
            else (case be_parse e raw of Inl err \<Rightarrow> Inl (''invalid ubus JSON: '' @ err) | Inr v \<Rightarrow> Inr v),
        True))"

definition state_ubus ::
  "bus_env \<Rightarrow> string \<Rightarrow> string \<Rightarrow> json \<Rightarrow> executor \<Rightarrow> (string + json) \<times> sent list \<times> bool \<times> executor" where
  "state_ubus e service method args x =
     (if \<not> valid_name service \<or> \<not> valid_name method then (Inl ''invalid ubus name'', [], False, x)
      else if \<not> is_object args then (Inl ''args must be an object'', [], False, x)
      else if \<not> bus_enabled e then (let (r, started) = ubus_cli e service method args in (r, [], started, x))
      else case exec_call (be_bin e) (be_now e) (be_later e) (be_collect e) service method args (be_first e) (be_retry e) x of
        (Some r, sent, x1) \<Rightarrow> (r, sent, False, x1)
      | (None, sent, x1) \<Rightarrow>
          if bus_strict e then (Inl ''ubus socket unavailable'', sent, False, x1)
          else let (r, started) = ubus_cli e service method args in (r, sent, started, x1))"

definition ubus_list :: "bus_env \<Rightarrow> bool \<Rightarrow> string + json" where
  "ubus_list e verbose =
     (case command_run (be_bin e) (be_run e) of
        Inl err \<Rightarrow> Inl err
      | Inr raw \<Rightarrow> Inr (jobj [(''ok'', JBool True), (''verbose'', JBool verbose), (''output'', JString (from_utf8_lossy (bytes_str raw)))]))"

section \<open>Laws\<close>

text \<open>The answer of a request as the callers of \<open>state::ubus\<close> see it.\<close>

definition bus_answer :: "bus_env \<Rightarrow> executor \<Rightarrow> ubus_call" where
  "bus_answer e x service method args = fst (state_ubus e service method args x)"

lemma low_byte: "unat (code AND 0xff :: u32) = unat code mod 256"
proof -
  have "code AND 0xff = take_bit 8 code" by (simp add: take_bit_eq_mask mask_eq_exp_minus_1)
  then show ?thesis by (simp add: take_bit_eq_mod unat_mod_distrib)
qed

lemma negated_byte: "unat (256 - (code AND 0xff) :: u32) = 256 - unat code mod 256"
  by (subst unat_sub) (simp_all add: low_byte word_le_nat_alt)

text \<open>The exit code the \<open>ubus\<close> program has for a status, and the text both ways give for it.\<close>

definition cli_exit :: "u32 \<Rightarrow> bool \<Rightarrow> nat" where
  "cli_exit code lookup = (if lookup then unat code mod 256 else (256 - unat code mod 256) mod 256)"

lemma status_text_exit: "status_text bin code lookup = bin @ '' exited with exit status: '' @ show_nat (cli_exit code lookup)"
  by (simp add: status_text_def Let_def low_byte negated_byte cli_exit_def)

lemma status_text_cli:
  "cli_exit code lookup \<noteq> 0 \<Longrightarrow>
   command_run bin (Exited (ExitCode (cli_exit code lookup)) out) = Inl (status_text bin code lookup)"
  by (simp add: status_text_exit)

lemma cli_exit_less: "cli_exit code lookup < 256"
  by (simp add: cli_exit_def)

lemma exit_text_252:
  assumes "n < 256"
  shows "str_contains ''exit status: 252'' (''/bin/ubus exited with exit status: '' @ show_nat n) \<longleftrightarrow> n = 252"
proof -
  have len: "length (show_nat n) \<le> 3" using assms by (cases "n < 10"; cases "n < 100") (simp_all add: show_nat.simps)
  then have no: "\<not> str_contains ''exit status: 252'' (show_nat n)" using contains_length by fastforce
  have "str_contains ''exit status: 252'' (''/bin/ubus exited with exit status: '' @ show_nat n) \<longleftrightarrow> starts_with ''252'' (show_nat n)"
    using no by (simp add: starts_with_def)
  also have "\<dots> \<longleftrightarrow> show_nat n = ''252''"
    using len by (auto simp: starts_with_def length_Suc_conv le_Suc_eq numeral_3_eq_3 split: if_splits)
  also have "\<dots> \<longleftrightarrow> n = 252"
  proof -
    have "show_nat 252 = ''252''" by code_simp
    then show ?thesis using show_nat_inj by metis
  qed
  finally show ?thesis .
qed

section \<open>Properties\<close>

definition demo_bus :: bus_env where
  "demo_bus = \<lparr>be_bin = ''/bin/ubus'', be_mode = [], be_now = 0, be_later = 1, be_collect = False,
     be_first = demo_exchanges, be_retry = [], be_run = Exited (ExitCode 0) [32], be_parse = (\<lambda>_. Inl ''eof'')\<rparr>"

text \<open>
  C5: a request is not carried out twice by the two ways to the bus.  When the \<open>ubus\<close> program
  was started for a request, every invocation that had reached the bus over the socket before was
  answered with \<open>NOT_FOUND\<close>; in \<open>socket\<close> mode the program is never started, in \<open>cli\<close>
  mode the socket is never used, and a request with an invalid name reaches neither.
\<close>

theorem bus_request_once:
  assumes "state_ubus e service method args x = (r, sent, started, x')"
  shows "(started \<longrightarrow> (\<forall>(f, answer) \<in> set sent. fr_kind f = m_invoke \<longrightarrow> answer = Inl (Status not_found)))
    \<and> (bus_strict e \<longrightarrow> \<not> started)
    \<and> (\<not> bus_enabled e \<longrightarrow> sent = [] \<and> x' = x)
    \<and> (\<not> (valid_name service \<and> valid_name method \<and> is_object args) \<longrightarrow> \<not> started \<and> sent = [] \<and> x' = x)"
proof -
  have fallback: "answer = Inl (Status not_found)"
    if "exec_call (be_bin e) (be_now e) (be_later e) (be_collect e) service method args (be_first e) (be_retry e) x = (None, s, y)"
      "(f, answer) \<in> set s" "fr_kind f = m_invoke" for s y f answer
    using exec_fallback_safe [OF that] .
  have strict: "bus_strict e \<Longrightarrow> bus_enabled e" by (simp add: bus_strict_def bus_enabled_def)
  show ?thesis using assms strict
    by (auto simp: state_ubus_def dest: fallback split: if_splits prod.splits option.splits)
qed

theorem bus_request_once_witness:
  "\<exists>sent x'. state_ubus demo_bus ''svc'' ''run'' (JObject []) demo_executor = (Inr (JObject []), sent, True, x')
     \<and> length sent = 2 \<and> (\<forall>(f, answer) \<in> set sent. fr_kind f = m_invoke \<longrightarrow> answer = Inl (Status not_found))"
proof -
  have quad: "fst q = u \<Longrightarrow> fst (snd (snd q)) = w \<Longrightarrow> q = (u, fst (snd q), w, snd (snd (snd q)))"
    for q :: "(string + json) \<times> sent list \<times> bool \<times> executor" and u w
    by (cases q) auto
  let ?r = "state_ubus demo_bus ''svc'' ''run'' (JObject []) demo_executor"
  have a: "fst ?r = Inr (JObject [])" by code_simp
  have l: "length (fst (snd ?r)) = 2" by code_simp
  have b: "fst (snd (snd ?r)) = True" by code_simp
  have e: "?r = (Inr (JObject []), fst (snd ?r), True, snd (snd (snd ?r)))" by (rule quad [OF a b])
  show ?thesis using e l bus_request_once [OF e] by blast
qed

end
