(* ===== verification/Uci.thy ===== *)
theory Uci
  imports State_Bus
begin

text \<open>
  The configuration store of the device through the \<open>uci\<close> program, from \<open>state.rs\<close>:
  reading one option, the cached \<open>uci show\<close> of a package with its quoting, and writing.
  The metadata of the two files of a package and what the program did are arguments.
\<close>

type_synonym stamp_part = "int \<times> int \<times> nat \<times> nat"
type_synonym uci_stamp_value = "stamp_part option \<times> stamp_part option"
type_synonym uci_values = "(string \<times> string) list"
type_synonym uci_cache = "string \<rightharpoonup> uci_stamp_value \<times> uci_values"

record uci_env =
  ue_bin :: "string option"
  ue_config :: "string \<Rightarrow> stamp_part option"
  ue_pending :: "string \<Rightarrow> stamp_part option"
  ue_run :: "string list \<Rightarrow> run_outcome"

definition uci_bin :: "uci_env \<Rightarrow> string" where
  "uci_bin e = (case ue_bin e of Some v \<Rightarrow> v | None \<Rightarrow> ''/sbin/uci'')"

definition uci_stamp :: "uci_env \<Rightarrow> string \<Rightarrow> uci_stamp_value option" where
  "uci_stamp e package =
     (if ue_bin e \<noteq> None then None
      else case ue_config e package of None \<Rightarrow> None | Some c \<Rightarrow> Some (Some c, ue_pending e package))"

definition uci_parse :: "bytes \<Rightarrow> uci_values" where
  "uci_parse raw =
     fold (\<lambda>line m. case split_once (CHR ''='') line of None \<Rightarrow> m | Some (k, v) \<Rightarrow> map_insert k v m)
       (lines (from_utf8_lossy (bytes_str raw))) []"

definition uci_fetch :: "uci_env \<Rightarrow> string \<Rightarrow> uci_values option" where
  "uci_fetch e package =
     (case command_run (uci_bin e) (ue_run e [''-q'', ''show'', package]) of
        Inl _ \<Rightarrow> None | Inr raw \<Rightarrow> Some (uci_parse raw))"

definition uci_show_raw :: "uci_env \<Rightarrow> string \<Rightarrow> uci_cache \<Rightarrow> uci_values \<times> uci_cache" where
  "uci_show_raw e package cache =
     (if \<not> valid_name package then ([], cache)
      else
        let st = uci_stamp e package in
        case (st, cache package) of
          (Some s, Some (cached, values)) \<Rightarrow>
            if cached = s then (values, cache)
            else (case uci_fetch e package of None \<Rightarrow> ([], cache) | Some fresh \<Rightarrow> (fresh, cache(package \<mapsto> (s, fresh))))
        | (Some s, None) \<Rightarrow>
            (case uci_fetch e package of None \<Rightarrow> ([], cache) | Some fresh \<Rightarrow> (fresh, cache(package \<mapsto> (s, fresh))))
        | (None, _) \<Rightarrow> (case uci_fetch e package of None \<Rightarrow> ([], cache) | Some fresh \<Rightarrow> (fresh, cache)))"

definition strip_quotes :: "string \<Rightarrow> string" where
  "strip_quotes raw =
     (case Option.bind (strip_prefix [CHR 0x27] raw) (strip_suffix [CHR 0x27]) of Some v \<Rightarrow> v | None \<Rightarrow> raw)"

definition uci_show :: "uci_env \<Rightarrow> string \<Rightarrow> uci_cache \<Rightarrow> uci_values \<times> uci_cache" where
  "uci_show e package cache =
     (let (m, cache') = uci_show_raw e package cache in (map (\<lambda>(k, raw). (k, strip_quotes raw)) m, cache'))"

fun unquote_from :: "bool \<Rightarrow> string \<Rightarrow> string" where
  "unquote_from quoted [] = []"
| "unquote_from quoted (c # cs) =
     (if c = CHR 0x27 then unquote_from (\<not> quoted) cs
      else case cs of
        d # ds \<Rightarrow> if c = CHR 0x5C \<and> \<not> quoted \<and> d = CHR 0x27 then CHR 0x27 # unquote_from quoted ds
                  else c # unquote_from quoted cs
      | [] \<Rightarrow> c # unquote_from quoted cs)"

definition uci_unquote :: "string \<Rightarrow> string" where
  "uci_unquote raw = unquote_from False raw"

definition uci_path_ok :: "string \<Rightarrow> bool" where
  "uci_path_ok path \<longleftrightarrow>
     path \<noteq> [] \<and> length path \<le> 256 \<and> list_all (\<lambda>b. is_ascii_alphanumeric b \<or> b \<in> set ''._-@[]'') path"

definition uci_read :: "uci_env \<Rightarrow> string \<Rightarrow> string" where
  "uci_read e path =
     (if \<not> uci_path_ok path then []
      else case command_run (uci_bin e) (ue_run e [''-q'', ''get'', path]) of
        Inl _ \<Rightarrow> [] | Inr raw \<Rightarrow> trim (from_utf8_lossy (bytes_str raw)))"

definition uci_sample :: "uci_env \<Rightarrow> string \<Rightarrow> uci_cache \<Rightarrow> string \<times> uci_cache" where
  "uci_sample e path cache =
     (case split_once (CHR ''.'') path of
        None \<Rightarrow> (uci_read e path, cache)
      | Some (package, _) \<Rightarrow>
          if CHR ''@'' \<in> set path \<or> CHR ''['' \<in> set path \<or> uci_stamp e package = None
          then (uci_read e path, cache)
          else let (m, cache') = uci_show_raw e package cache
               in ((case map_of m path of Some raw \<Rightarrow> trim (uci_unquote raw) | None \<Rightarrow> []), cache'))"

definition uci_write_args :: "string \<Rightarrow> string \<Rightarrow> string option \<Rightarrow> string + string list" where
  "uci_write_args operation path v =
     (if operation \<notin> {''set'', ''add_list'', ''del_list'', ''delete'', ''commit'', ''revert''}
         \<or> \<not> uci_path_ok path
         \<or> (case v of Some t \<Rightarrow> length t > 8192 \<or> list_ex (\<lambda>c. cval c \<in> {0, 13, 10}) t | None \<Rightarrow> False)
      then Inl ''invalid UCI mutation''
      else if operation \<in> {''set'', ''add_list'', ''del_list''}
      then (case v of None \<Rightarrow> Inl ''missing UCI value'' | Some t \<Rightarrow> Inr [operation, path @ ''='' @ t])
      else Inr [operation, path])"

definition uci_write :: "uci_env \<Rightarrow> string \<Rightarrow> string \<Rightarrow> string option \<Rightarrow> string + unit" where
  "uci_write e operation path v =
     (case uci_write_args operation path v of
        Inl err \<Rightarrow> Inl err
      | Inr args \<Rightarrow> (case command_run (uci_bin e) (ue_run e args) of Inl err \<Rightarrow> Inl err | Inr _ \<Rightarrow> Inr ()))"

definition uci_get :: "uci_values list \<Rightarrow> string \<Rightarrow> string" where
  "uci_get sets path =
     (case List.find (\<lambda>s. map_of s path \<noteq> None) sets of
        Some s \<Rightarrow> the (map_of s path) | None \<Rightarrow> [])"

section \<open>Quoting\<close>

text \<open>
  How \<open>uci show\<close> prints a value: in single quotes, a quote inside as \<open>'\''\<close>, the items of a
  list one after the other with a space between.
\<close>

definition quote_char :: "char \<Rightarrow> string" where
  "quote_char c = (if c = CHR 0x27 then [CHR 0x27, CHR 0x5C, CHR 0x27, CHR 0x27] else [c])"

definition uci_quote :: "string \<Rightarrow> string" where
  "uci_quote s = [CHR 0x27] @ concat (map quote_char s) @ [CHR 0x27]"

fun join_spaces :: "string list \<Rightarrow> string" where
  "join_spaces [] = []"
| "join_spaces [s] = s"
| "join_spaces (s # t # ts) = s @ '' '' @ join_spaces (t # ts)"

lemma unquote_steps:
  "unquote_from q (CHR 0x27 # cs) = unquote_from (\<not> q) cs"
  "c \<noteq> CHR 0x27 \<Longrightarrow> unquote_from True (c # cs) = c # unquote_from True cs"
  "unquote_from False (CHR 0x5C # CHR 0x27 # cs) = CHR 0x27 # unquote_from False cs"
  "unquote_from False (CHR 0x20 # cs) = CHR 0x20 # unquote_from False cs"
  by (simp_all split: list.split)

declare unquote_from.simps(2) [simp del]

lemma unquote_body: "unquote_from True (concat (map quote_char s) @ [CHR 0x27] @ rest) = s @ unquote_from False rest"
  by (induction s) (simp_all add: quote_char_def unquote_steps)

lemma unquote_quote: "unquote_from False (uci_quote s @ rest) = s @ unquote_from False rest"
  using unquote_body [of s rest] by (simp add: uci_quote_def unquote_steps)

section \<open>The cache\<close>

text \<open>
  A world in which the stamp of a package determines what \<open>uci show\<close> prints for it, which is what
  the cache relies on; a cache is good when it holds only answers of that world.
\<close>

definition stamped :: "(string \<Rightarrow> uci_stamp_value \<Rightarrow> uci_values option) \<Rightarrow> uci_env \<Rightarrow> bool" where
  "stamped world e \<longleftrightarrow> (\<forall>p s. uci_stamp e p = Some s \<longrightarrow> uci_fetch e p = world p s)"

definition cache_good :: "(string \<Rightarrow> uci_stamp_value \<Rightarrow> uci_values option) \<Rightarrow> uci_cache \<Rightarrow> bool" where
  "cache_good world cache \<longleftrightarrow> (\<forall>p s m. cache p = Some (s, m) \<longrightarrow> world p s = Some m)"

lemma show_raw_good:
  assumes "stamped world e" "cache_good world cache"
  shows "fst (uci_show_raw e p cache) = (if valid_name p then (case uci_fetch e p of None \<Rightarrow> [] | Some m \<Rightarrow> m) else [])
    \<and> cache_good world (snd (uci_show_raw e p cache))"
  using assms
  by (auto simp: uci_show_raw_def stamped_def cache_good_def Let_def split: option.splits prod.splits if_splits)

definition show_all :: "(uci_env \<times> string) list \<Rightarrow> uci_cache \<Rightarrow> uci_cache" where
  "show_all reads cache = fold (\<lambda>(e, p) c. snd (uci_show_raw e p c)) reads cache"

lemma show_all_good:
  "list_all (\<lambda>(e, p). stamped world e) reads \<Longrightarrow> cache_good world cache \<Longrightarrow> cache_good world (show_all reads cache)"
  by (induction reads arbitrary: cache) (auto simp: show_all_def show_raw_good)

section \<open>Properties\<close>

text \<open>
  An option or a list of options reads back from the quoted text of \<open>uci show\<close> as the values
  that were printed, quotes and backslashes inside them included, joined by spaces as \<open>uci get\<close>
  joins them.
\<close>

theorem uci_unquote_roundtrip: "uci_unquote (join_spaces (map uci_quote items)) = join_spaces items"
proof -
  have "unquote_from False (join_spaces (map uci_quote items) @ []) = join_spaces items"
  proof (induction items rule: join_spaces.induct)
    case (3 s t ts)
    have "unquote_from False ('' '' @ join_spaces (map uci_quote (t # ts))) = '' '' @ join_spaces (t # ts)"
      using 3 by (simp add: unquote_steps)
    then show ?case using unquote_quote [of s "'' '' @ join_spaces (map uci_quote (t # ts))"] by simp
  qed (use unquote_quote [of _ "[]"] in simp_all)
  then show ?thesis by (simp add: uci_unquote_def)
qed

text \<open>
  C38: the cache never shows stale settings.  In a world where the metadata of the two files of a
  package determines what \<open>uci show\<close> prints for it, a read after any earlier reads returns
  exactly what running the program now would return.
\<close>

theorem uci_cache_fresh:
  assumes "list_all (\<lambda>(e, p). stamped world e) reads" "stamped world e" "valid_name package"
  shows "fst (uci_show_raw e package (show_all reads Map.empty)) = (case uci_fetch e package of None \<Rightarrow> [] | Some m \<Rightarrow> m)"
proof -
  have "cache_good world Map.empty" by (simp add: cache_good_def)
  from show_raw_good [OF assms(2) show_all_good [OF assms(1) this], of package] assms(3)
  show ?thesis by simp
qed

definition demo_uci :: "nat \<Rightarrow> uci_env" where
  "demo_uci v = \<lparr>ue_bin = None, ue_config = (\<lambda>_. Some (int v, 0, v, 7)), ue_pending = (\<lambda>_. None),
     ue_run = (\<lambda>_. Exited (ExitCode 0) (str_bytes (''lan.a='' @ show_nat v)))\<rparr>"

definition demo_world :: "string \<Rightarrow> uci_stamp_value \<Rightarrow> uci_values option" where
  "demo_world p s = (case fst s of Some (_, _, v, _) \<Rightarrow> uci_fetch (demo_uci v) p | None \<Rightarrow> None)"

lemma demo_stamped: "stamped demo_world (demo_uci v)"
  by (simp add: stamped_def demo_world_def uci_stamp_def demo_uci_def)

theorem uci_cache_fresh_witness:
  "fst (uci_show_raw (demo_uci 2) ''lan'' (show_all [(demo_uci 1, ''lan''), (demo_uci 1, ''lan'')] Map.empty)) = [(''lan.a'', ''2'')]"
proof -
  have f: "uci_fetch (demo_uci 2) ''lan'' = Some [(''lan.a'', ''2'')]" by code_simp
  have v: "valid_name ''lan''" by code_simp
  have r: "list_all (\<lambda>(e, p). stamped demo_world e) [(demo_uci 1, ''lan''), (demo_uci 1, ''lan'')]"
    by (simp add: demo_stamped)
  show ?thesis using uci_cache_fresh [OF r demo_stamped v, of 2] f by simp
qed

end
