(* ===== verification/Clock_Domain.thy ===== *)
theory Clock_Domain
  imports Datad_Prelude
begin

text \<open>
  The lock between work that depends on the wall clock and a change of that clock
  (\<open>ClockDomain\<close> in \<open>time_control.rs\<close>).  It is built from three atomics, so the model is a
  step relation in which every atomic operation of every thread is one step; a thread is
  where its program counter says.  A lease is held from the successful exchange of
  \<open>ClockDomain::read\<close> to the drop of the guard, the clock may be set from the successful
  exchange of \<open>Transition::begin\<close> to the first step of the drop of the transition.
\<close>

datatype clock_pc =
    CIdle
  | RTest | RLoad | RSwap int | RHold
  | WTest | WTry | WHold | WRelease | WUnblock

record clock_domain =
  cd_leases :: int
  cd_waiting :: bool
  cd_generation :: u64
  cd_pc :: "nat \<Rightarrow> clock_pc"

definition clock_domain_new :: clock_domain where
  "clock_domain_new = \<lparr>cd_leases = 0, cd_waiting = False, cd_generation = 0, cd_pc = (\<lambda>_. CIdle)\<rparr>"

definition clock_change_in_progress :: "clock_domain \<Rightarrow> bool" where
  "clock_change_in_progress s \<longleftrightarrow> cd_leases s < 0"

abbreviation goto :: "nat \<Rightarrow> clock_pc \<Rightarrow> clock_domain \<Rightarrow> clock_domain" where
  "goto t p s \<equiv> s\<lparr>cd_pc := (cd_pc s)(t := p)\<rparr>"

section \<open>Atomic steps\<close>

text \<open>
  \<open>read\<close>: test \<open>waiting\<close>, load \<open>leases\<close>, exchange; a failed exchange starts over, and the drop of
  the guard gives the lease back.
\<close>

inductive read_step :: "clock_domain \<Rightarrow> clock_domain \<Rightarrow> bool" where
  read_call: "cd_pc s t = CIdle \<Longrightarrow> read_step s (goto t RTest s)"
| read_refused_waiting: "cd_pc s t = RTest \<Longrightarrow> cd_waiting s \<Longrightarrow> read_step s (goto t CIdle s)"
| read_not_waiting: "cd_pc s t = RTest \<Longrightarrow> \<not> cd_waiting s \<Longrightarrow> read_step s (goto t RLoad s)"
| read_refused_leases: "cd_pc s t = RLoad \<Longrightarrow> cd_leases s < 0 \<or> cd_leases s = i64_max \<Longrightarrow> read_step s (goto t CIdle s)"
| read_loaded: "cd_pc s t = RLoad \<Longrightarrow> \<not> (cd_leases s < 0 \<or> cd_leases s = i64_max) \<Longrightarrow> read_step s (goto t (RSwap (cd_leases s)) s)"
| read_exchanged: "cd_pc s t = RSwap current \<Longrightarrow> cd_leases s = current \<Longrightarrow>
    read_step s ((goto t RHold s)\<lparr>cd_leases := current + 1\<rparr>)"
| read_retry: "cd_pc s t = RSwap current \<Longrightarrow> cd_leases s \<noteq> current \<Longrightarrow> read_step s (goto t RTest s)"
| read_drop: "cd_pc s t = RHold \<Longrightarrow> read_step s ((goto t CIdle s)\<lparr>cd_leases := cd_leases s - 1\<rparr>)"

text \<open>
  \<open>Transition::begin\<close>: claim \<open>waiting\<close>, exchange 0 for -1 until it succeeds or the deadline passes;
  the drop advances the generation, clears \<open>leases\<close> and then \<open>waiting\<close>.
\<close>

inductive transition_step :: "clock_domain \<Rightarrow> clock_domain \<Rightarrow> bool" where
  begin_call: "cd_pc s t = CIdle \<Longrightarrow> transition_step s (goto t WTest s)"
| begin_busy: "cd_pc s t = WTest \<Longrightarrow> cd_waiting s \<Longrightarrow> transition_step s (goto t CIdle s)"
| begin_claim: "cd_pc s t = WTest \<Longrightarrow> \<not> cd_waiting s \<Longrightarrow> transition_step s ((goto t WTry s)\<lparr>cd_waiting := True\<rparr>)"
| begin_exchanged: "cd_pc s t = WTry \<Longrightarrow> cd_leases s = 0 \<Longrightarrow> transition_step s ((goto t WHold s)\<lparr>cd_leases := -1\<rparr>)"
| begin_timeout: "cd_pc s t = WTry \<Longrightarrow> cd_leases s \<noteq> 0 \<Longrightarrow> transition_step s (goto t WUnblock s)"
| drop_generation: "cd_pc s t = WHold \<Longrightarrow> transition_step s ((goto t WRelease s)\<lparr>cd_generation := cd_generation s + 1\<rparr>)"
| drop_leases: "cd_pc s t = WRelease \<Longrightarrow> transition_step s ((goto t WUnblock s)\<lparr>cd_leases := 0\<rparr>)"
| drop_waiting: "cd_pc s t = WUnblock \<Longrightarrow> transition_step s ((goto t CIdle s)\<lparr>cd_waiting := False\<rparr>)"

definition clock_step :: "clock_domain \<Rightarrow> clock_domain \<Rightarrow> bool" where
  "clock_step s s' \<longleftrightarrow> read_step s s' \<or> transition_step s s'"

inductive clock_reachable :: "clock_domain \<Rightarrow> bool" where
  reach_new: "clock_reachable clock_domain_new"
| reach_step: "clock_reachable s \<Longrightarrow> clock_step s s' \<Longrightarrow> clock_reachable s'"

inductive_cases clock_step_cases: "read_step s s'" "transition_step s s'"

section \<open>Invariant\<close>

definition threads_at :: "clock_pc set \<Rightarrow> clock_domain \<Rightarrow> nat set" where
  "threads_at ps s = {t. cd_pc s t \<in> ps}"

abbreviation claimed :: "clock_pc set" where "claimed \<equiv> {WTry, WHold, WRelease, WUnblock}"
abbreviation exclusive :: "clock_pc set" where "exclusive \<equiv> {WHold, WRelease}"

text \<open>
  \<open>waiting\<close> is set exactly while one thread owns it; \<open>leases\<close> is -1 exactly while that thread has the
  domain to itself, and otherwise counts the leases that are held.
\<close>

definition clock_inv :: "clock_domain \<Rightarrow> bool" where
  "clock_inv s \<longleftrightarrow>
     finite (threads_at {RHold} s)
     \<and> (cd_waiting s \<longleftrightarrow> threads_at claimed s \<noteq> {})
     \<and> (\<exists>t. threads_at claimed s \<subseteq> {t})
     \<and> (if threads_at exclusive s = {} then cd_leases s = int (card (threads_at {RHold} s))
        else cd_leases s = -1 \<and> threads_at {RHold} s = {})
     \<and> (\<forall>t c. cd_pc s t = RSwap c \<longrightarrow> 0 \<le> c \<and> c < i64_max)
     \<and> cd_leases s \<le> i64_max"

lemma threads_goto:
  "threads_at ps (goto t p s) = (if p \<in> ps then insert t (threads_at ps s) else threads_at ps s - {t})"
  by (auto simp: threads_at_def)

lemma threads_upd [simp]:
  "threads_at ps (s\<lparr>cd_leases := l\<rparr>) = threads_at ps s"
  "threads_at ps (s\<lparr>cd_waiting := w\<rparr>) = threads_at ps s"
  "threads_at ps (s\<lparr>cd_generation := g\<rparr>) = threads_at ps s"
  by (simp_all add: threads_at_def)

lemma at_pc: "t \<in> threads_at ps s \<longleftrightarrow> cd_pc s t \<in> ps"
  by (simp add: threads_at_def)

lemma clock_inv_new: "clock_inv clock_domain_new"
  by (simp add: clock_inv_def clock_domain_new_def threads_at_def i64_max_def)

text \<open>A step is checked on what it does to the three sets of threads.\<close>

lemma threads_moved:
  "cd_pc s t \<notin> ps \<Longrightarrow> p \<notin> ps \<Longrightarrow> threads_at ps (goto t p s) = threads_at ps s"
  by (auto simp: threads_at_def)

lemma exclusive_empty:
  assumes "threads_at claimed s \<subseteq> {t}" "cd_pc s t \<notin> exclusive"
  shows "threads_at exclusive s = {}"
proof -
  have "threads_at exclusive s \<subseteq> threads_at claimed s" by (auto simp: at_pc)
  then show ?thesis using assms at_pc [of _ exclusive s] by blast
qed

lemma inv_leases:
  assumes "clock_inv s"
  shows "threads_at exclusive s = {} \<Longrightarrow> cd_leases s = int (card (threads_at {RHold} s))"
    and "threads_at exclusive s \<noteq> {} \<Longrightarrow> cd_leases s = -1 \<and> threads_at {RHold} s = {}"
    and "cd_pc s t = RSwap c \<Longrightarrow> 0 \<le> c \<and> c < i64_max"
    and "finite (threads_at {RHold} s)" and "cd_leases s \<le> i64_max"
  using assms unfolding clock_inv_def by (auto split: if_splits)

lemma read_exchanged_inv:
  assumes "clock_inv s" "cd_pc s t = RSwap (cd_leases s)"
  shows "clock_inv ((goto t RHold s)\<lparr>cd_leases := cd_leases s + 1\<rparr>)"
proof -
  have sets: "threads_at {RHold} (goto t RHold s) = insert t (threads_at {RHold} s)" "t \<notin> threads_at {RHold} s"
    "threads_at claimed (goto t RHold s) = threads_at claimed s"
    "threads_at exclusive (goto t RHold s) = threads_at exclusive s"
    using assms(2) by (simp_all add: threads_goto threads_moved at_pc)
  have free: "threads_at exclusive s = {}" "cd_leases s < i64_max"
    using inv_leases [OF assms(1)] assms(2) by force+
  show ?thesis using assms(1) sets free unfolding clock_inv_def threads_upd sets by simp
qed

lemma read_drop_inv:
  assumes "clock_inv s" "cd_pc s t = RHold"
  shows "clock_inv ((goto t CIdle s)\<lparr>cd_leases := cd_leases s - 1\<rparr>)"
proof -
  have sets: "threads_at {RHold} (goto t CIdle s) = threads_at {RHold} s - {t}" "t \<in> threads_at {RHold} s"
    "threads_at claimed (goto t CIdle s) = threads_at claimed s"
    "threads_at exclusive (goto t CIdle s) = threads_at exclusive s"
    using assms(2) by (simp_all add: threads_goto threads_moved at_pc)
  have free: "threads_at exclusive s = {}" "finite (threads_at {RHold} s)"
    using inv_leases [OF assms(1)] sets(2) by auto
  have "card (threads_at {RHold} s) = Suc (card (threads_at {RHold} s - {t}))"
    by (rule card.remove [OF free(2) sets(2)])
  then show ?thesis using assms(1) sets free unfolding clock_inv_def threads_upd sets by simp
qed

text \<open>Steps that hold no lease and own nothing before and after keep the invariant.\<close>

lemma quiet_inv:
  assumes "clock_inv s" "cd_pc s t \<notin> insert RHold claimed" "p \<notin> insert RHold claimed"
    "\<And>c. p = RSwap c \<Longrightarrow> 0 \<le> c \<and> c < i64_max"
  shows "clock_inv (goto t p s)"
proof -
  have sets: "threads_at {RHold} (goto t p s) = threads_at {RHold} s"
    "threads_at claimed (goto t p s) = threads_at claimed s"
    "threads_at exclusive (goto t p s) = threads_at exclusive s"
    using assms(2,3) by (auto intro!: threads_moved)
  show ?thesis using assms(1,4) unfolding clock_inv_def sets by auto
qed

lemma read_step_inv: "read_step s s' \<Longrightarrow> clock_inv s \<Longrightarrow> clock_inv s'"
proof (induction rule: read_step.induct)
  case (read_loaded s t)
  then have "cd_leases s < i64_max" by (auto simp: clock_inv_def)
  then show ?case using read_loaded by (intro quiet_inv) auto
qed (auto intro: quiet_inv read_exchanged_inv read_drop_inv)

lemma owner_unique:
  assumes "clock_inv s" "cd_pc s t \<in> claimed"
  shows "threads_at claimed s = {t}"
proof -
  have "t \<in> threads_at claimed s" using assms(2) by (simp only: at_pc)
  moreover obtain u where "threads_at claimed s \<subseteq> {u}" using assms(1) by (auto simp: clock_inv_def)
  ultimately show ?thesis by blast
qed

text \<open>The owner of \<open>waiting\<close> moves on: only its own place among the owners changes.\<close>

lemma owner_inv:
  assumes "clock_inv s" "cd_pc s t \<in> claimed" "p \<in> claimed"
    "if p \<in> exclusive then l = -1 \<and> threads_at {RHold} s = {} else l = int (card (threads_at {RHold} s))" "l \<le> i64_max"
  shows "clock_inv ((goto t p s)\<lparr>cd_leases := l, cd_generation := g\<rparr>)"
proof -
  have own: "threads_at claimed s = {t}" by (rule owner_unique [OF assms(1,2)])
  have sets: "threads_at {RHold} (goto t p s) = threads_at {RHold} s"
    "threads_at claimed (goto t p s) = {t}"
    using assms(2,3) own by (auto simp: threads_goto at_pc)
  have "threads_at exclusive s \<subseteq> {t}" using own by (auto simp: threads_at_def)
  then have ex: "threads_at exclusive (goto t p s) = (if p \<in> exclusive then {t} else {})"
    by (auto simp: threads_goto)
  have "cd_waiting s" using assms(1) own by (simp add: clock_inv_def)
  moreover have "RSwap c \<noteq> p" for c using assms(3) by auto
  ultimately show ?thesis using assms(1,4,5)
    unfolding clock_inv_def threads_upd sets ex by auto
qed

lemma owner_moves:
  assumes "clock_inv s" "cd_pc s t \<in> claimed" "p \<in> claimed"
    "if p \<in> exclusive then cd_leases s = -1 \<and> threads_at {RHold} s = {} else cd_leases s = int (card (threads_at {RHold} s))"
  shows "clock_inv ((goto t p s)\<lparr>cd_generation := g\<rparr>)"
proof -
  have "(goto t p s)\<lparr>cd_leases := cd_leases s, cd_generation := g\<rparr> = (goto t p s)\<lparr>cd_generation := g\<rparr>" by simp
  then show ?thesis using owner_inv [OF assms inv_leases(5) [OF assms(1)], of g] by argo
qed

lemma drop_waiting_inv:
  assumes "clock_inv s" "cd_pc s t = WUnblock"
  shows "clock_inv ((goto t CIdle s)\<lparr>cd_waiting := False\<rparr>)"
proof -
  have own: "threads_at claimed s = {t}" using owner_unique [OF assms(1)] assms(2) by simp
  have ex: "threads_at exclusive s = {}" using exclusive_empty [of s t] own assms(2) by simp
  have sets: "threads_at {RHold} (goto t CIdle s) = threads_at {RHold} s"
    "threads_at claimed (goto t CIdle s) = {}" "threads_at exclusive (goto t CIdle s) = {}"
    using assms(2) own ex by (auto simp: threads_goto at_pc)
  show ?thesis using assms(1) ex unfolding clock_inv_def threads_upd sets by auto
qed

lemma claim_inv:
  assumes "clock_inv s" "cd_pc s t = WTest" "\<not> cd_waiting s"
  shows "clock_inv ((goto t WTry s)\<lparr>cd_waiting := True\<rparr>)"
proof -
  have own: "threads_at claimed s = {}" using assms by (simp add: clock_inv_def)
  then have ex: "threads_at exclusive s = {}" by (auto simp: threads_at_def)
  have sets: "threads_at {RHold} (goto t WTry s) = threads_at {RHold} s"
    "threads_at claimed (goto t WTry s) = {t}" "threads_at exclusive (goto t WTry s) = {}"
    using assms(2) own ex by (auto simp: threads_goto at_pc)
  show ?thesis using assms(1) ex unfolding clock_inv_def threads_upd sets by auto
qed

lemma leases_of:
  assumes "clock_inv s"
  shows "cd_pc s t \<in> exclusive \<Longrightarrow> cd_leases s = -1 \<and> threads_at {RHold} s = {}"
    and "cd_pc s t \<in> {WTry, WUnblock} \<Longrightarrow> cd_leases s = int (card (threads_at {RHold} s))"
proof -
  assume "cd_pc s t \<in> exclusive"
  then have "t \<in> threads_at exclusive s" by (simp add: at_pc)
  then show "cd_leases s = -1 \<and> threads_at {RHold} s = {}" using inv_leases(2) [OF assms] by auto
next
  assume p: "cd_pc s t \<in> {WTry, WUnblock}"
  then have "threads_at claimed s = {t}" using owner_unique [OF assms, of t] by auto
  then have "threads_at exclusive s = {}" using exclusive_empty [of s t] p by auto
  then show "cd_leases s = int (card (threads_at {RHold} s))" using inv_leases(1) [OF assms] by simp
qed

lemma transition_step_inv: "transition_step s s' \<Longrightarrow> clock_inv s \<Longrightarrow> clock_inv s'"
proof (induction rule: transition_step.induct)
  case (begin_exchanged s t)
  then have "threads_at {RHold} s = {}" using leases_of(2) [of s t] inv_leases(4) [of s] by simp
  then show ?case using owner_inv [of s t WHold "-1" "cd_generation s"] begin_exchanged by (simp add: i64_max_def)
next
  case (begin_timeout s t)
  then show ?case using owner_moves [of s t WUnblock "cd_generation s"] leases_of(2) [of s t] by simp
next
  case (drop_generation s t)
  then show ?case using owner_moves [of s t WRelease "cd_generation s + 1"] leases_of(1) [of s t] by simp
next
  case (drop_leases s t)
  then show ?case using owner_inv [of s t WUnblock 0 "cd_generation s"] leases_of(1) [of s t]
    by (simp add: i64_max_def)
qed (auto intro: quiet_inv claim_inv drop_waiting_inv)

lemma reachable_inv: "clock_reachable s \<Longrightarrow> clock_inv s"
  by (induction rule: clock_reachable.induct)
    (auto simp: clock_step_def clock_inv_new dest: read_step_inv transition_step_inv)

section \<open>Properties\<close>

text \<open>
  C7: a lease excludes a change of the clock.  In every reachable state of every interleaving, while
  some thread holds a lease no thread has the clock to itself, \<open>clock_change_in_progress\<close> is
  false, and no step advances the clock generation.
\<close>

theorem clock_lease_excludes_change:
  assumes "clock_reachable s" "cd_pc s t = RHold"
  shows "\<not> clock_change_in_progress s \<and> threads_at exclusive s = {}
    \<and> (\<forall>s'. clock_step s s' \<longrightarrow> cd_generation s' = cd_generation s)"
proof -
  have inv: "clock_inv s" by (rule reachable_inv [OF assms(1)])
  have "t \<in> threads_at {RHold} s" using assms(2) by (simp add: at_pc)
  then have free: "threads_at exclusive s = {}" using inv by (auto simp: clock_inv_def split: if_splits)
  moreover have "cd_generation s' = cd_generation s" if "clock_step s s'" for s'
    using that free by (auto simp: clock_step_def threads_at_def elim!: clock_step_cases)
  ultimately show ?thesis using inv by (auto simp: clock_inv_def clock_change_in_progress_def)
qed

definition demo_lease :: clock_domain where
  "demo_lease = ((goto 0 RHold clock_domain_new)\<lparr>cd_leases := 1\<rparr>)"

lemma demo_lease_reachable: "clock_reachable demo_lease"
proof -
  let ?a = "goto 0 RTest clock_domain_new" and ?b = "goto 0 RLoad clock_domain_new"
    and ?c = "goto 0 (RSwap 0) clock_domain_new"
  have a: "clock_step clock_domain_new ?a"
    using read_call [of clock_domain_new 0] by (simp add: clock_step_def clock_domain_new_def)
  have b: "clock_step ?a ?b"
    using read_not_waiting [of ?a 0] by (simp add: clock_step_def clock_domain_new_def)
  have c: "clock_step ?b ?c"
    using read_loaded [of ?b 0] by (simp add: clock_step_def clock_domain_new_def i64_max_def)
  have d: "clock_step ?c demo_lease"
    using read_exchanged [of ?c 0 0] by (simp add: clock_step_def clock_domain_new_def demo_lease_def)
  show ?thesis using reach_step [OF reach_step [OF reach_step [OF reach_step [OF reach_new a] b] c] d] .
qed

theorem clock_lease_excludes_change_witness:
  "cd_pc demo_lease 0 = RHold \<and> \<not> clock_change_in_progress demo_lease"
proof -
  have p: "cd_pc demo_lease 0 = RHold" by (simp add: demo_lease_def)
  show ?thesis using p clock_lease_excludes_change [OF demo_lease_reachable p] by blast
qed

end
