(* ===== verification/Ntp.thy ===== *)
theory Ntp
  imports Json_Value
begin

text \<open>
  The SNTP reply of \<open>time_control/ntp.rs\<close>: time stamps across the era change of 2036 and
  the checks on a packet.  Times are nanoseconds since 1970 (\<open>i128\<close>, far from its bounds
  here), \<open>rtt\<close> the round trip in nanoseconds.
\<close>

definition ntp_offset :: int where "ntp_offset = 2208988800"
definition ntp_low :: int where "ntp_low = 1704067200"
definition ntp_high :: int where "ntp_high = 4102444800"

definition era_time :: "int \<Rightarrow> int \<Rightarrow> int option" where
  "era_time sec era =
     (let unix = sec + era * 2 ^ 32 - ntp_offset in if ntp_low \<le> unix \<and> unix < ntp_high then Some unix else None)"

definition stamp_frac :: "nat \<Rightarrow> int" where
  "stamp_frac raw = int (raw mod 2 ^ 32) * 1000000000 div 2 ^ 32"

definition stamp :: "bytes \<Rightarrow> string + int" where
  "stamp bs =
     (if length bs \<noteq> 8 then Inl ''invalid_packet''
      else
        let raw = be_nat bs in
        if raw = 0 then Inl ''invalid_timestamp''
        else
          let sec = int (raw div 2 ^ 32);
              frac = stamp_frac raw
          in case era_time sec 0 of
               Some unix \<Rightarrow> Inr (unix * 1000000000 + frac)
             | None \<Rightarrow>
                 (case era_time sec 1 of
                    Some unix \<Rightarrow> Inr (unix * 1000000000 + frac)
                  | None \<Rightarrow> Inl ''invalid_timestamp''))"

definition part :: "nat \<Rightarrow> nat \<Rightarrow> bytes \<Rightarrow> bytes" where
  "part i j raw = take (j - i) (drop i raw)"

definition parse_packet :: "bytes \<Rightarrow> bytes \<Rightarrow> nat \<Rightarrow> string + int" where
  "parse_packet raw nonce rtt =
     (if \<not> (48 \<le> length raw \<and> length raw \<le> 512)
         \<or> raw ! 0 AND 7 \<noteq> 4
         \<or> (drop_bit 3 (raw ! 0)) AND 7 \<notin> {3, 4}
         \<or> drop_bit 6 (raw ! 0) = 3
      then Inl ''invalid_packet''
      else if raw ! 1 = 0 then Inl ''ntp_kod''
      else if unat (raw ! 1) \<ge> 16 \<or> part 24 32 raw \<noteq> nonce \<or> rtt > 3 * 10 ^ 9 then Inl ''invalid_packet''
      else case stamp (part 32 40 raw) of Inl e \<Rightarrow> Inl e
      | Inr receive \<Rightarrow>
        (case stamp (part 40 48 raw) of Inl e \<Rightarrow> Inl e
         | Inr transmit \<Rightarrow>
           (case stamp (part 16 24 raw) of Inl e \<Rightarrow> Inl e
            | Inr reference \<Rightarrow>
              let processing = transmit - receive in
              if reference > transmit \<or> processing < 0 \<or> processing > int rtt + 50000000 then Inl ''invalid_packet''
              else
                let delay = to_signed 32 (be_nat (part 4 8 raw));
                    dispersion = int (be_nat (part 8 12 raw))
                in if delay < 0 \<or> tdiv delay 2 + dispersion > 10 * 65536 then Inl ''invalid_packet''
                   else Inr (transmit + tdiv (max (int rtt - processing) 0) 2))))"

text \<open>The request of \<open>query\<close>, for a nonce that is replaced when it is zero.\<close>

definition ntp_nonce :: "bytes \<Rightarrow> bytes" where
  "ntp_nonce random = (if random = replicate 8 0 then replicate 7 0 @ [1] else random)"

definition ntp_request :: "bytes \<Rightarrow> bytes" where
  "ntp_request nonce = [0x23] @ replicate 39 0 @ nonce"

section \<open>Laws\<close>

text \<open>The 64-bit stamp of an instant: seconds since 1900 modulo the era, and a binary fraction.\<close>

definition ntp_stamp :: "int \<Rightarrow> nat \<Rightarrow> bytes" where
  "ntp_stamp unix frac = to_be 8 (nat ((unix + ntp_offset) mod 2 ^ 32) * 2 ^ 32 + frac)"

lemma era_time_unique:
  assumes "ntp_low \<le> unix" "unix < ntp_high" "s = (unix + ntp_offset) mod 2 ^ 32"
  shows "(case era_time s 0 of Some u \<Rightarrow> Some u | None \<Rightarrow> era_time s 1) = Some unix"
proof (cases "unix + ntp_offset < 2 ^ 32")
  case True
  then have "s = unix + ntp_offset" using assms by (simp add: ntp_low_def ntp_offset_def)
  then show ?thesis using assms by (simp add: era_time_def)
next
  case False
  then have "(unix + ntp_offset - 2 ^ 32) mod 2 ^ 32 = unix + ntp_offset - 2 ^ 32"
    using assms(2) by (intro mod_pos_pos_trivial) (simp_all add: ntp_high_def ntp_offset_def)
  moreover have "(unix + ntp_offset - 2 ^ 32) mod 2 ^ 32 = s" by (simp add: assms(3))
  ultimately have "s = unix + ntp_offset - 2 ^ 32" by simp
  then show ?thesis using assms(1,2) by (simp add: era_time_def ntp_low_def ntp_high_def ntp_offset_def)
qed

lemma stamp_frac_range: "0 \<le> stamp_frac raw \<and> stamp_frac raw < 1000000000"
proof -
  have "int (raw mod 2 ^ 32) < 2 ^ 32" by simp
  then have "int (raw mod 2 ^ 32) * 1000000000 < 1000000000 * 2 ^ 32" by simp
  moreover have "x div 2 ^ 32 * 2 ^ 32 \<le> x" for x :: int
    using div_mult_mod_eq [of x "2 ^ 32"] pos_mod_sign [of "2 ^ 32" x, OF zero_less_power [OF zero_less_numeral]] by linarith
  ultimately have "int (raw mod 2 ^ 32) * 1000000000 div 2 ^ 32 * 2 ^ 32 < 1000000000 * 2 ^ 32"
    by (rule le_less_trans [rotated])
  then have "int (raw mod 2 ^ 32) * 1000000000 div 2 ^ 32 < 1000000000"
    by (rule mult_right_less_imp_less) simp
  then show ?thesis by (simp add: stamp_frac_def)
qed

lemma era_time_range: "era_time sec era = Some unix \<Longrightarrow> ntp_low \<le> unix \<and> unix < ntp_high"
  by (auto simp: era_time_def Let_def split: if_splits)

lemma stamp_range: "stamp bs = Inr t \<Longrightarrow> ntp_low * 1000000000 \<le> t \<and> t < ntp_high * 1000000000"
proof -
  assume st: "stamp bs = Inr t"
  obtain unix where u: "ntp_low \<le> unix \<and> unix < ntp_high" "t = unix * 1000000000 + stamp_frac (be_nat bs)"
    using st era_time_range by (auto simp: stamp_def Let_def split: if_splits option.splits)
  then show ?thesis using stamp_frac_range [of "be_nat bs"] by linarith
qed

lemma stamp_ntp_stamp:
  assumes "ntp_low \<le> unix" "unix < ntp_high" "frac < 2 ^ 32" "unix \<noteq> 2085978496 \<or> 0 < frac"
  shows "stamp (ntp_stamp unix frac) = Inr (unix * 1000000000 + int frac * 1000000000 div 2 ^ 32)"
proof -
  define s where "s = (unix + ntp_offset) mod 2 ^ 32"
  have s: "0 \<le> s" "s < 2 ^ 32" by (simp_all add: s_def)
  have "nat s < 2 ^ 32" using s by (simp add: nat_less_iff)
  then have "nat s * 2 ^ 32 + frac < 2 ^ 64" using assms(3) by simp
  then have raw: "be_nat (ntp_stamp unix frac) = nat s * 2 ^ 32 + frac"
    by (simp add: ntp_stamp_def be_nat_to_be s_def)
  have parts: "(nat s * 2 ^ 32 + frac) div 2 ^ 32 = nat s" "(nat s * 2 ^ 32 + frac) mod 2 ^ 32 = frac"
    using assms(3) by simp_all
  have era: "(case era_time s 0 of Some u \<Rightarrow> Some u | None \<Rightarrow> era_time s 1) = Some unix"
    using era_time_unique [OF assms(1,2) s_def] .
  have nz: "nat s * 2 ^ 32 + frac \<noteq> 0"
  proof
    assume "nat s * 2 ^ 32 + frac = 0"
    then have "s = 0" "frac = 0" using s by simp_all
    then show False using era assms(4) by (simp add: era_time_def ntp_low_def ntp_high_def ntp_offset_def)
  qed
  have "length (ntp_stamp unix frac) = 8" by (simp add: ntp_stamp_def)
  then show ?thesis using nz era s
    by (simp only: stamp_def raw Let_def parts stamp_frac_def) (auto split: option.splits)
qed

section \<open>Properties\<close>

text \<open>
  Time stamps are read in the right era.  For every second from 2024 to 2100 and every
  fraction, the 64-bit stamp of that instant, whose seconds wrap in 2036, is read back as that
  instant in nanoseconds; the one exception is the instant of the wrap itself, whose stamp is
  zero and stands for an unknown time.
\<close>

theorem ntp_stamp_roundtrip:
  assumes "1704067200 \<le> unix" "unix < 4102444800" "frac < 2 ^ 32" "unix \<noteq> 2085978496 \<or> 0 < frac"
  shows "stamp (ntp_stamp unix frac) = Inr (unix * 1000000000 + int frac * 1000000000 div 2 ^ 32)"
  using assms by (intro stamp_ntp_stamp) (simp_all add: ntp_low_def ntp_high_def)

theorem ntp_stamp_roundtrip_witness:
  "stamp (ntp_stamp 2085978496 2147483648) = Inr 2085978496500000000
   \<and> ntp_stamp 2085978496 2147483648 = [0, 0, 0, 0, 128, 0, 0, 0]"
proof -
  have "ntp_stamp 2085978496 2147483648 = [0, 0, 0, 0, 128, 0, 0, 0]" by code_simp
  then show ?thesis using ntp_stamp_roundtrip [of 2085978496 2147483648] by simp
qed

text \<open>
  An accepted time is bounded by what the server sent.  A packet is accepted only when it
  echoes the nonce of the request, comes from a synchronised server and took at most three
  seconds; the time it yields is between the server's transmit stamp and one and a half
  seconds later, and the stamp lies between 2024 and 2100.
\<close>

theorem ntp_packet_bounds:
  assumes "parse_packet raw nonce rtt = Inr t"
  shows "part 24 32 raw = nonce \<and> 1 \<le> unat (raw ! 1) \<and> unat (raw ! 1) \<le> 15 \<and> rtt \<le> 3 * 10 ^ 9
    \<and> (\<exists>transmit. stamp (part 40 48 raw) = Inr transmit \<and> transmit \<le> t \<and> t \<le> transmit + 1500000000
         \<and> 1704067200 * 1000000000 \<le> transmit \<and> transmit < 4102444800 * 1000000000)"
proof -
  obtain receive transmit where tr: "stamp (part 40 48 raw) = Inr transmit" "0 \<le> transmit - receive"
    and t: "t = transmit + tdiv (max (int rtt - (transmit - receive)) 0) 2"
    and hd: "part 24 32 raw = nonce" "raw ! 1 \<noteq> 0" "unat (raw ! 1) < 16" "rtt \<le> 3 * 10 ^ 9"
    using assms by (auto simp: parse_packet_def Let_def not_less not_le split: if_splits sum.splits)
  have one: "1 \<le> unat (raw ! 1)" using hd(2) by (simp add: unat_gt_0 Suc_le_eq)
  have "max (int rtt - (transmit - receive)) 0 \<le> 3000000000" using hd(4) tr(2) by simp
  then have "tdiv (max (int rtt - (transmit - receive)) 0) 2 \<le> 1500000000"
    "0 \<le> tdiv (max (int rtt - (transmit - receive)) 0) 2"
    by (simp_all add: tdiv_nonneg)
  then show ?thesis using t hd one tr(1) stamp_range [OF tr(1)] by (simp add: ntp_low_def ntp_high_def)
qed

definition demo_packet :: bytes where
  "demo_packet = [0x24, 1, 0, 0] @ replicate 12 0 @ ntp_stamp 1800000000 0 @ [1, 2, 3, 4, 5, 6, 7, 8]
     @ ntp_stamp 1800000000 0 @ ntp_stamp 1800000000 0"

theorem ntp_packet_bounds_witness:
  "parse_packet demo_packet [1, 2, 3, 4, 5, 6, 7, 8] 20000000 = Inr 1800000000010000000
   \<and> part 24 32 demo_packet = [1, 2, 3, 4, 5, 6, 7, 8]"
proof -
  have p: "parse_packet demo_packet [1, 2, 3, 4, 5, 6, 7, 8] 20000000 = Inr 1800000000010000000" by code_simp
  show ?thesis using ntp_packet_bounds [OF p] p by blast
qed

end
