(* ===== verification/Stun.thy ===== *)
theory Stun
  imports Json_Value
begin

text \<open>
  The STUN client of \<open>stun.rs\<close>: server names, binding requests and the parser of binding
  responses.  A transaction id is a list of twelve bytes, an address its octets.
\<close>

definition magic :: bytes where "magic = [0x21, 0x12, 0xa4, 0x42]"
definition binding_request_kind :: nat where "binding_request_kind = 0x0001"
definition binding_success :: nat where "binding_success = 0x0101"
definition binding_error :: nat where "binding_error = 0x0111"
definition xor_mapped_address :: nat where "xor_mapped_address = 0x0020"
definition mapped_address :: nat where "mapped_address = 0x0001"
definition change_request :: nat where "change_request = 0x0003"
definition changed_address :: nat where "changed_address = 0x0005"
definition other_address :: nat where "other_address = 0x802c"

datatype stun_ip = Ip4 bytes | Ip6 bytes

record sock_addr =
  sa_ip :: stun_ip
  sa_port :: u16

datatype stun_response = Mapped sock_addr "sock_addr option" | BindingError

definition parse_server :: "string \<Rightarrow> (string \<times> nat) option" where
  "parse_server v =
     (case strip_prefix ''stun:'' v of None \<Rightarrow> None
      | Some rest \<Rightarrow>
          let ok = (\<lambda>host port. if host \<noteq> [] \<and> length host \<le> 253
                \<and> list_all (\<lambda>b. is_ascii_alphanumeric b \<or> b = CHR ''.'' \<or> b = CHR ''-'') host
              then Some (host, port) else None)
          in case rsplit_once (CHR '':'') rest of
               Some (host, port) \<Rightarrow>
                 (case parse_unsigned 65535 port of None \<Rightarrow> None
                  | Some p \<Rightarrow> if p \<noteq> 0 then ok host p else None)
             | None \<Rightarrow> ok rest 3478)"

definition stun_request :: "bytes \<Rightarrow> u8 \<Rightarrow> bytes" where
  "stun_request transaction change =
     to_be 2 binding_request_kind @ to_be 2 (if change = 0 then 0 else 8) @ magic @ transaction
     @ (if change \<noteq> 0 then to_be 2 change_request @ to_be 2 4 @ [0, 0, 0, change] else [])"

definition binding_request :: "bytes \<Rightarrow> bytes" where
  "binding_request transaction = stun_request transaction 0"

definition xor_bytes :: "bytes \<Rightarrow> bytes \<Rightarrow> bytes" where
  "xor_bytes octets ms = map2 (\<lambda>x m. x XOR m) octets ms"

definition decode_ip :: "bytes \<Rightarrow> bool \<Rightarrow> bytes \<Rightarrow> stun_ip option" where
  "decode_ip v masked transaction =
     (if v ! 1 = 1 \<and> length v \<ge> 8 then
        (let octets = take 4 (drop 4 v) in Some (Ip4 (if masked then xor_bytes octets magic else octets)))
      else if v ! 1 = 2 \<and> length v \<ge> 20 then
        (let octets = take 16 (drop 4 v) in Some (Ip6 (if masked then xor_bytes octets (magic @ transaction) else octets)))
      else None)"

definition decode_address :: "bytes \<Rightarrow> bool \<Rightarrow> bytes \<Rightarrow> sock_addr option" where
  "decode_address v masked transaction =
     (if length v < 4 then None
      else
        let raw = (word_of_nat (be_nat [v ! 2, v ! 3]) :: u16);
            port = (if masked then raw XOR word_of_nat (be_nat [magic ! 0, magic ! 1]) else raw)
        in case decode_ip v masked transaction of None \<Rightarrow> None
           | Some ip \<Rightarrow> if port \<noteq> 0 then Some \<lparr>sa_ip = ip, sa_port = port\<rparr> else None)"

record stun_found =
  sf_xor :: "sock_addr option"
  sf_plain :: "sock_addr option"
  sf_other :: "sock_addr option"
  sf_changed :: "sock_addr option"

definition note_attr :: "bytes \<Rightarrow> nat \<Rightarrow> bytes \<Rightarrow> stun_found \<Rightarrow> stun_found" where
  "note_attr transaction kind v s =
     (if kind = xor_mapped_address then s\<lparr>sf_xor := decode_address v True transaction\<rparr>
      else if kind = mapped_address then s\<lparr>sf_plain := decode_address v False transaction\<rparr>
      else if kind = other_address then s\<lparr>sf_other := decode_address v False transaction\<rparr>
      else if kind = changed_address then s\<lparr>sf_changed := decode_address v False transaction\<rparr>
      else s)"

text \<open>The loop over the attributes; \<open>rest\<close> is the body from the current offset.\<close>

function scan_attrs :: "bytes \<Rightarrow> bytes \<Rightarrow> stun_found \<Rightarrow> stun_found option" where
  "scan_attrs transaction rest s =
     (if length rest < 4 then Some s
      else
        let kind = be_nat (take 2 rest); n = be_nat (take 2 (drop 2 rest)) in
        if 4 + n > length rest then None
        else scan_attrs transaction (drop (4 + (n + 3) div 4 * 4) rest) (note_attr transaction kind (take n (drop 4 rest)) s))"
  by pat_completeness auto

termination scan_attrs
  by (relation "measure (\<lambda>(_, rest, _). length rest)") auto

declare scan_attrs.simps [simp del]

definition opt_or :: "'a option \<Rightarrow> 'a option \<Rightarrow> 'a option" where
  "opt_or a b = (case a of Some x \<Rightarrow> Some x | None \<Rightarrow> b)"

definition no_address :: stun_found where
  "no_address = \<lparr>sf_xor = None, sf_plain = None, sf_other = None, sf_changed = None\<rparr>"

definition stun_parse :: "bytes \<Rightarrow> bytes \<Rightarrow> stun_response option" where
  "stun_parse packet transaction =
     (if length packet < 20 \<or> take 4 (drop 4 packet) \<noteq> magic \<or> take 12 (drop 8 packet) \<noteq> transaction then None
      else
        let kind = be_nat (take 2 packet) in
        if kind = binding_error then Some BindingError
        else if kind \<noteq> binding_success then None
        else
          let n = be_nat (take 2 (drop 2 packet)) in
          if 20 + n > length packet then None
          else case scan_attrs transaction (take n (drop 20 packet)) no_address of None \<Rightarrow> None
            | Some s \<Rightarrow>
                (case opt_or (sf_xor s) (sf_plain s) of None \<Rightarrow> None
                 | Some mapped \<Rightarrow> Some (Mapped mapped (opt_or (sf_other s) (sf_changed s)))))"

definition parse_response :: "bytes \<Rightarrow> bytes \<Rightarrow> sock_addr option" where
  "parse_response packet transaction =
     (case stun_parse packet transaction of Some (Mapped mapped _) \<Rightarrow> Some mapped | _ \<Rightarrow> None)"

section \<open>What a server sends\<close>

text \<open>The address attributes of RFC 5389: family, port and octets, plain or masked.\<close>

fun ip_octets :: "stun_ip \<Rightarrow> bytes" where
  "ip_octets (Ip4 xs) = xs"
| "ip_octets (Ip6 xs) = xs"

fun ip_family :: "stun_ip \<Rightarrow> u8" where
  "ip_family (Ip4 xs) = 1"
| "ip_family (Ip6 xs) = 2"

fun ip_wf :: "stun_ip \<Rightarrow> bool" where
  "ip_wf (Ip4 xs) = (length xs = 4)"
| "ip_wf (Ip6 xs) = (length xs = 16)"

definition encode_address :: "sock_addr \<Rightarrow> bool \<Rightarrow> bytes \<Rightarrow> bytes" where
  "encode_address a masked transaction =
     [0, ip_family (sa_ip a)] @ to_be 2 (unat (if masked then sa_port a XOR 0x2112 else sa_port a))
     @ (if masked then xor_bytes (ip_octets (sa_ip a)) (magic @ transaction) else ip_octets (sa_ip a))"

definition stun_attr :: "nat \<Rightarrow> bytes \<Rightarrow> bytes" where
  "stun_attr kind v = to_be 2 kind @ to_be 2 (length v) @ v @ replicate ((length v + 3) div 4 * 4 - length v) 0"

definition stun_success :: "bytes \<Rightarrow> bytes \<Rightarrow> bytes" where
  "stun_success transaction body = to_be 2 binding_success @ to_be 2 (length body) @ magic @ transaction @ body"

section \<open>Laws\<close>

lemma xor_cancel: "(a XOR b) XOR b = (a :: 'a::len word)"
  by (simp add: xor.assoc)

lemma xor_bytes_cancel: "length os \<le> length m \<Longrightarrow> xor_bytes (xor_bytes os m) m = os"
  by (induction os m rule: list_induct2') (auto simp: xor_bytes_def xor_cancel)

lemma length_xor_bytes [simp]: "length (xor_bytes os m) = min (length os) (length m)"
  by (simp add: xor_bytes_def)

lemma xor_bytes_take: "length os \<le> length m \<Longrightarrow> xor_bytes os (m @ n) = xor_bytes os m"
  by (induction os m rule: list_induct2') (auto simp: xor_bytes_def)

lemma port_word: "(word_of_nat (be_nat (to_be 2 (unat p))) :: u16) = p"
proof -
  have "unat p < 256 ^ 2" using unsigned_less [of p] by simp
  then show ?thesis by (simp add: be_nat_to_be)
qed

lemma length_two: "length xs = 2 \<Longrightarrow> [xs ! 0, xs ! 1] = xs"
  by (cases xs rule: remdups_adj.cases) auto

lemma decode_ip_encoded:
  assumes "ip_wf ip" "length transaction = 12"
    "v = [0, ip_family ip] @ p @ (if masked then xor_bytes (ip_octets ip) (magic @ transaction) else ip_octets ip)" "length p = 2"
  shows "decode_ip v masked transaction = Some ip"
proof -
  have m: "length (magic @ transaction) = 16" "length magic = 4" using assms(2) by (simp_all add: magic_def)
  have tl: "drop 4 v = (if masked then xor_bytes (ip_octets ip) (magic @ transaction) else ip_octets ip)"
    using assms(4) by (simp add: assms(3))
  show ?thesis
  proof (cases ip)
    case (Ip4 xs)
    then have l: "length xs = 4" using assms(1) by simp
    have "xor_bytes (xor_bytes xs (magic @ transaction)) magic = xs"
      using xor_bytes_take [of xs magic transaction] xor_bytes_cancel [of xs magic] l m by simp
    moreover have "v ! 1 = 1" "8 \<le> length v" using Ip4 l assms(4) m by (simp_all add: assms(3))
    ultimately show ?thesis using Ip4 tl l m by (simp add: decode_ip_def)
  next
    case (Ip6 xs)
    then have l: "length xs = 16" using assms(1) by simp
    have "xor_bytes (xor_bytes xs (magic @ transaction)) (magic @ transaction) = xs"
      using xor_bytes_cancel [of xs "magic @ transaction"] l m by simp
    moreover have "v ! 1 = 2" "20 \<le> length v" using Ip6 l assms(4) m by (simp_all add: assms(3))
    ultimately show ?thesis using Ip6 tl l m by (simp add: decode_ip_def)
  qed
qed

lemma decode_encode_address:
  assumes "ip_wf (sa_ip a)" "sa_port a \<noteq> 0" "length transaction = 12"
  shows "decode_address (encode_address a masked transaction) masked transaction = Some a"
proof -
  let ?w = "if masked then sa_port a XOR 0x2112 else sa_port a"
  let ?p = "to_be 2 (unat ?w)"
  let ?v = "encode_address a masked transaction"
  have v: "?v = [0, ip_family (sa_ip a)] @ ?p
      @ (if masked then xor_bytes (ip_octets (sa_ip a)) (magic @ transaction) else ip_octets (sa_ip a))"
    by (simp add: encode_address_def)
  have "[?v ! 2, ?v ! 3] = [?p ! 0, ?p ! 1]" by (simp add: v nth_append numeral_2_eq_2 numeral_3_eq_3)
  then have raw: "(word_of_nat (be_nat [?v ! 2, ?v ! 3]) :: u16) = ?w"
    using length_two [of ?p] port_word [of ?w] by simp
  have "(word_of_nat (be_nat [magic ! 0, magic ! 1]) :: u16) = 0x2112" by (simp add: magic_def)
  then have port: "(if masked then ?w XOR word_of_nat (be_nat [magic ! 0, magic ! 1]) else ?w) = sa_port a"
    by (simp add: xor_cancel)
  have "decode_ip ?v masked transaction = Some (sa_ip a)"
    by (rule decode_ip_encoded [OF assms(1,3) v]) simp
  moreover have "\<not> length ?v < 4" by (simp add: v)
  ultimately show ?thesis using raw port assms(2) by (simp add: decode_address_def Let_def)
qed

lemma scan_stun_attr:
  assumes "length v < 2 ^ 16" "kind < 2 ^ 16"
  shows "scan_attrs transaction (stun_attr kind v @ rest) s = scan_attrs transaction rest (note_attr transaction kind v s)"
proof -
  let ?r = "stun_attr kind v @ rest"
  have k: "be_nat (take 2 ?r) = kind" "be_nat (take 2 (drop 2 ?r)) = length v"
    using assms by (simp_all add: stun_attr_def be_nat_to_be)
  have "take (length v) (drop 4 ?r) = v" by (simp add: stun_attr_def)
  moreover have "drop (4 + (length v + 3) div 4 * 4) ?r = rest" by (simp add: stun_attr_def)
  moreover have "\<not> length ?r < 4" "\<not> 4 + length v > length ?r" by (simp_all add: stun_attr_def)
  ultimately show ?thesis using k by (subst scan_attrs.simps) (simp add: Let_def)
qed

definition found_ports :: "stun_found \<Rightarrow> bool" where
  "found_ports s \<longleftrightarrow> (\<forall>a\<in>set_option (sf_xor s) \<union> set_option (sf_plain s). sa_port a \<noteq> 0)"

lemma decode_address_port: "decode_address v m tr = Some a \<Longrightarrow> sa_port a \<noteq> 0"
  by (auto simp: decode_address_def Let_def split: if_splits option.splits)

lemma note_attr_ports: "found_ports s \<Longrightarrow> found_ports (note_attr tr k v s)"
  using decode_address_port by (auto simp: note_attr_def found_ports_def)

lemma scan_ports: "scan_attrs tr rest s = Some s' \<Longrightarrow> found_ports s \<Longrightarrow> found_ports s'"
proof (induction tr rest s rule: scan_attrs.induct)
  case (1 tr rest s)
  let ?k = "be_nat (take 2 rest)" and ?n = "be_nat (take 2 (drop 2 rest))"
  show ?case
  proof (cases "length rest < 4")
    case True
    then show ?thesis using "1.prems" by (simp add: scan_attrs.simps)
  next
    case False
    have "\<not> 4 + ?n > length rest
      \<and> scan_attrs tr (drop (4 + (?n + 3) div 4 * 4) rest) (note_attr tr ?k (take ?n (drop 4 rest)) s) = Some s'"
      using "1.prems"(1) False by (subst (asm) scan_attrs.simps) (auto simp: Let_def split: if_splits)
    then show ?thesis using "1.IH" [OF False refl refl] note_attr_ports [OF "1.prems"(2)] by blast
  qed
qed

section \<open>Properties\<close>

text \<open>
  The parser finds the address a server reports.  For every well-formed address with a
  port, IPv4 or IPv6, masked as \<open>XOR-MAPPED-ADDRESS\<close>, followed or not by the alternate
  address of an RFC 5780 server, parsing the success response of the same transaction gives
  exactly these addresses.
\<close>

theorem stun_reads_addresses:
  assumes "ip_wf (sa_ip a)" "sa_port a \<noteq> 0" "length transaction = 12"
    "case other of None \<Rightarrow> True | Some o' \<Rightarrow> ip_wf (sa_ip o') \<and> sa_port o' \<noteq> 0"
    "body = stun_attr xor_mapped_address (encode_address a True transaction)
       @ (case other of None \<Rightarrow> [] | Some o' \<Rightarrow> stun_attr other_address (encode_address o' False transaction))"
  shows "stun_parse (stun_success transaction body) transaction = Some (Mapped a other)"
proof -
  have len: "length (encode_address b x transaction) \<le> 20" if "ip_wf (sa_ip b)" for b x
    using that assms(3) by (cases "sa_ip b") (auto simp: encode_address_def magic_def)
  have small: "length (encode_address b x transaction) < 2 ^ 16" if "ip_wf (sa_ip b)" for b x
    using len [OF that, of x] by simp
  have attr: "length (stun_attr k (encode_address b x transaction)) \<le> 27" if "ip_wf (sa_ip b)" for b x k
    using len [OF that, of x] by (simp add: stun_attr_def)
  have "length body \<le> 27 + 27"
  proof (cases other)
    case (Some b)
    then show ?thesis using attr [OF assms(1), of xor_mapped_address True] attr [of b other_address False] assms(4)
      by (simp add: assms(5))
  qed (use attr [OF assms(1), of xor_mapped_address True] in \<open>simp add: assms(5)\<close>)
  then have n: "be_nat (take 2 (drop 2 (stun_success transaction body))) = length body"
    by (simp add: stun_success_def be_nat_to_be)
  have kinds: "xor_mapped_address < 2 ^ 16" "other_address < 2 ^ 16" "other_address \<noteq> xor_mapped_address" "other_address \<noteq> mapped_address"
    by (simp_all add: xor_mapped_address_def other_address_def mapped_address_def)
  have nil: "scan_attrs transaction [] s = Some s" for s by (subst scan_attrs.simps) simp
  have first: "scan_attrs transaction (stun_attr xor_mapped_address (encode_address a True transaction) @ rest) s
      = scan_attrs transaction rest (s\<lparr>sf_xor := Some a\<rparr>)" for rest s
    using decode_encode_address [OF assms(1-3), of True] 
    by (subst scan_stun_attr [OF small [OF assms(1)] kinds(1)]) (simp add: note_attr_def)
  have "scan_attrs transaction body no_address = Some (no_address\<lparr>sf_xor := Some a, sf_other := other\<rparr>)"
  proof (cases other)
    case None
    then show ?thesis using first [of "[]"] by (simp add: assms(5) nil no_address_def)
  next
    case (Some b)
    then have b: "ip_wf (sa_ip b)" "sa_port b \<noteq> 0" using assms(4) by auto
    have "scan_attrs transaction (stun_attr other_address (encode_address b False transaction) @ []) s
        = scan_attrs transaction [] (s\<lparr>sf_other := Some b\<rparr>)" for s
      using decode_encode_address [OF b assms(3), of False]
      by (subst scan_stun_attr [OF small [OF b(1)] kinds(2)]) (simp add: note_attr_def kinds)
    then show ?thesis using Some first by (simp add: assms(5) nil)
  qed
  moreover have "be_nat (take 2 (stun_success transaction body)) = binding_success" "binding_success \<noteq> binding_error"
    by (simp_all add: stun_success_def be_nat_to_be binding_success_def binding_error_def)
  moreover have "take 4 (drop 4 (stun_success transaction body)) = magic" "take 12 (drop 8 (stun_success transaction body)) = transaction"
    "drop 20 (stun_success transaction body) = body" "length (stun_success transaction body) = 20 + length body"
    using assms(3) by (simp_all add: stun_success_def magic_def)
  ultimately show ?thesis using n
    by (cases other) (simp_all add: stun_parse_def Let_def opt_or_def no_address_def)
qed

definition demo_addr :: sock_addr where
  "demo_addr = \<lparr>sa_ip = Ip4 [203, 0, 113, 7], sa_port = 40000\<rparr>"

definition demo_transaction :: bytes where
  "demo_transaction = [1, 2, 3, 4, 5, 6, 7, 8, 9, 10, 11, 12]"

theorem stun_reads_addresses_witness:
  "ip_wf (sa_ip demo_addr) \<and> sa_port demo_addr \<noteq> 0 \<and> length demo_transaction = 12
   \<and> stun_parse (stun_success demo_transaction (stun_attr xor_mapped_address (encode_address demo_addr True demo_transaction)))
       demo_transaction = Some (Mapped demo_addr None)"
proof -
  have h: "ip_wf (sa_ip demo_addr)" "sa_port demo_addr \<noteq> 0" "length demo_transaction = 12"
    by (simp_all add: demo_addr_def demo_transaction_def)
  show ?thesis using stun_reads_addresses [OF h, of None] h by simp
qed

text \<open>
  Only answers to the own transaction count.  A packet is taken as a response, success or
  error, only when it carries the magic cookie and the twelve bytes of the transaction, and an
  address that is returned has a port.
\<close>

theorem stun_own_transaction:
  assumes "stun_parse packet transaction = Some r"
  shows "20 \<le> length packet \<and> take 4 (drop 4 packet) = magic \<and> take 12 (drop 8 packet) = transaction
    \<and> (case r of Mapped a _ \<Rightarrow> sa_port a \<noteq> 0 | BindingError \<Rightarrow> True)"
proof -
  note keep = scan_ports [of transaction _ no_address]
  show ?thesis using assms keep
    by (fastforce simp: stun_parse_def Let_def opt_or_def no_address_def found_ports_def split: if_splits option.splits)
qed

theorem stun_own_transaction_witness:
  "stun_parse (to_be 2 binding_error @ [0, 0] @ magic @ demo_transaction) demo_transaction = Some BindingError
   \<and> take 12 (drop 8 (to_be 2 binding_error @ [0, 0] @ magic @ demo_transaction)) = demo_transaction"
proof -
  have p: "stun_parse (to_be 2 binding_error @ [0, 0] @ magic @ demo_transaction) demo_transaction = Some BindingError"
    by code_simp
  show ?thesis using stun_own_transaction [OF p] p by blast
qed

end
