(* ===== verification/Mesh_Frame.thy ===== *)
theory Mesh_Frame
  imports Json_Value
begin

text \<open>
  The data-channel framing of \<open>mesh/frame.rs\<close>: a 32-bit header length, a JSON header and a
  payload.  \<open>to_vec\<close> and \<open>from_slice\<close> are the JSON printer and parser of
  \<open>serde_json\<close>.
\<close>

definition max_frame :: nat where "max_frame = 256 * 1024"
definition max_header :: nat where "max_header = 32 * 1024"

definition mesh_decode :: "(bytes \<Rightarrow> json option) \<Rightarrow> bytes \<Rightarrow> string + json \<times> bytes" where
  "mesh_decode from_slice data =
     (if length data < 4 \<or> length data > max_frame then Inl ''bad_frame''
      else
        let header_len = be_nat (take 4 data) in
        if header_len = 0 \<or> header_len > max_header \<or> length data < 4 + header_len then Inl ''bad_frame''
        else case from_slice (take header_len (drop 4 data)) of
          None \<Rightarrow> Inl ''bad_header''
        | Some header \<Rightarrow>
            if \<not> is_object header then Inl ''bad_header''
            else Inr (header, drop (4 + header_len) data))"

definition mesh_encode :: "(json \<Rightarrow> bytes option) \<Rightarrow> json \<Rightarrow> bytes \<Rightarrow> bytes option" where
  "mesh_encode to_vec header payload =
     (case to_vec header of None \<Rightarrow> None
      | Some h \<Rightarrow>
          if length h > max_header \<or> 4 + length h + length payload > max_frame then None
          else Some (to_be 4 (length h mod 2 ^ 32) @ h @ payload))"

fun is_number :: "json \<Rightarrow> bool" where
  "is_number (JNumber _) = True"
| "is_number _ = False"

definition mesh_pong :: "(string \<Rightarrow> json option) \<Rightarrow> (json \<Rightarrow> string) \<Rightarrow> string \<Rightarrow> string option" where
  "mesh_pong from_str to_string text =
     (case from_str text of None \<Rightarrow> None
      | Some v \<Rightarrow>
          (case Option.bind (jget v ''t'') as_str of None \<Rightarrow> None
           | Some t \<Rightarrow>
               if t \<noteq> ''ping'' then None
               else case jget v ''n'' of None \<Rightarrow> None
                 | Some n \<Rightarrow> if is_number n then Some (to_string (jobj [(''t'', JString ''pong''), (''n'', n)])) else None))"

section \<open>Properties\<close>

text \<open>
  What the frame encoder accepts, the decoder returns.  When the JSON printer and parser
  are inverse on the header, an object, every frame that \<open>encode\<close> builds is split by
  \<open>decode\<close> into the same header and payload, and is within the size limits.
\<close>

theorem mesh_frame_roundtrip:
  assumes "\<And>b. to_vec header = Some b \<Longrightarrow> from_slice b = Some header \<and> b \<noteq> []"
    "is_object header" "mesh_encode to_vec header payload = Some data"
  shows "mesh_decode from_slice data = Inr (header, payload) \<and> length data \<le> 256 * 1024"
proof -
  obtain h where h: "to_vec header = Some h" "length h \<le> max_header" "4 + length h + length payload \<le> max_frame"
    and data: "data = to_be 4 (length h mod 2 ^ 32) @ h @ payload"
    using assms(3) by (auto simp: mesh_encode_def not_less split: option.splits if_splits)
  have js: "from_slice h = Some header" "h \<noteq> []" using assms(1) [OF h(1)] by auto
  have "length h < 2 ^ 32" using h(2) by (simp add: max_header_def)
  then have len: "be_nat (take 4 data) = length h" by (simp add: data be_nat_to_be)
  have "length data = 4 + length h + length payload" by (simp add: data)
  moreover have "take (length h) (drop 4 data) = h" "drop (4 + length h) data = payload" by (simp_all add: data)
  ultimately show ?thesis using len h js assms(2) by (simp add: mesh_decode_def Let_def max_frame_def)
qed

definition demo_to_vec :: "json \<Rightarrow> bytes option" where
  "demo_to_vec v = (if v = JObject [] then Some [123, 125] else None)"

definition demo_from_slice :: "bytes \<Rightarrow> json option" where
  "demo_from_slice b = (if b = [123, 125] then Some (JObject []) else None)"

theorem mesh_frame_roundtrip_witness:
  "mesh_encode demo_to_vec (JObject []) [7, 8] = Some [0, 0, 0, 2, 123, 125, 7, 8]
   \<and> mesh_decode demo_from_slice [0, 0, 0, 2, 123, 125, 7, 8] = Inr (JObject [], [7, 8])"
proof -
  have p: "demo_to_vec (JObject []) = Some b \<Longrightarrow> demo_from_slice b = Some (JObject []) \<and> b \<noteq> []" for b
    by (auto simp: demo_to_vec_def demo_from_slice_def)
  have e: "mesh_encode demo_to_vec (JObject []) [7, 8] = Some [0, 0, 0, 2, 123, 125, 7, 8]" by code_simp
  show ?thesis using mesh_frame_roundtrip [OF p _ e] e by simp
qed

end
