(* ===== verification/Cooling.thy ===== *)
theory Cooling
  imports Json_Value
begin

text \<open>
  The cooling controller of \<open>cooling.rs\<close>: fan curve, fan and pump policies, the
  configuration file and the calls that change them.  The device files the controller writes
  are \<open>cool_node\<close>s, the last value written to each is part of the state; what the device
  answers during one call (which devices exist, readings, failing writes) is the record
  \<open>cool_env\<close>.  Every call runs under one lock.
\<close>

section \<open>Configuration\<close>

definition default_curve :: "(int \<times> int) list" where
  "default_curve = [(40, 0), (45, 0), (50, 76), (60, 128), (70, 255)]"

definition liquid_amplitude :: "int \<Rightarrow> int" where
  "liquid_amplitude level = (if level = 1 then 60 else if level = 2 then 90 else 0)"

record cool_config =
  cc_fan_always :: bool
  cc_fan_mode :: int
  cc_fan_speed :: int
  cc_liquid_always :: bool
  cc_liquid_level :: int
  cc_temps :: "int list"
  cc_hyst :: "int list"
  cc_curve :: "(int \<times> int) list"

definition cool_default :: cool_config where
  "cool_default = \<lparr>cc_fan_always = False, cc_fan_mode = 2, cc_fan_speed = 50, cc_liquid_always = False,
     cc_liquid_level = 1, cc_temps = [44, 48, 53], cc_hyst = [4, 4, 4], cc_curve = default_curve\<rparr>"

definition clamp :: "int \<Rightarrow> int \<Rightarrow> int \<Rightarrow> int" where
  "clamp lo hi v = (if v < lo then lo else if v > hi then hi else v)"

definition conf_entry :: "string \<Rightarrow> (string \<times> int) list" where
  "conf_entry line =
     (case split_once (CHR ''='') line of None \<Rightarrow> []
      | Some (k, v) \<Rightarrow> (case parse_i64 v of Some n \<Rightarrow> [(k, n)] | None \<Rightarrow> []))"

text \<open>Later lines replace earlier ones.\<close>

definition conf_map :: "string \<Rightarrow> string \<Rightarrow> int option" where
  "conf_map raw = map_of (rev (concat (map conf_entry (lines raw))))"

definition get_or :: "(string \<Rightarrow> int option) \<Rightarrow> string \<Rightarrow> int \<Rightarrow> int" where
  "get_or m k d = (case m k of Some v \<Rightarrow> v | None \<Rightarrow> d)"

definition curve_point :: "(string \<Rightarrow> int option) \<Rightarrow> nat \<Rightarrow> int \<times> int" where
  "curve_point m i =
     (get_or m (''custom_temperature_'' @ show_nat (i + 1)) (if i < length default_curve then fst (default_curve ! i) else 70),
      get_or m (''custom_pwm_'' @ show_nat (i + 1)) (if i < length default_curve then snd (default_curve ! i) else 255))"

definition config_of :: "(string \<Rightarrow> int option) \<Rightarrow> cool_config" where
  "config_of m =
     \<lparr>cc_fan_always = (get_or m ''fan_always_on'' 0 \<noteq> 0),
      cc_fan_mode = (case m ''fan_mode'' of Some v \<Rightarrow> v | None \<Rightarrow> if get_or m ''fan_auto'' 0 \<noteq> 0 then 1 else 2),
      cc_fan_speed = get_or m ''fan_speed_percent'' 50,
      cc_liquid_always =
        (get_or (\<lambda>_. case m ''liquid_always_on'' of Some v \<Rightarrow> Some v | None \<Rightarrow> m ''liquid_enabled'') [] 0 \<noteq> 0),
      cc_liquid_level = clamp 1 2 (get_or m ''liquid_level'' 1),
      cc_temps = map (\<lambda>i. get_or m (''temperature_'' @ show_nat (i + 1)) (cc_temps cool_default ! i)) [0..<3],
      cc_hyst = map (\<lambda>i. get_or m (''hysteresis_'' @ show_nat (i + 1)) (cc_hyst cool_default ! i)) [0..<3],
      cc_curve = map (curve_point m) [0..<nat (clamp 2 8 (get_or m ''custom_curve_count'' 5))]\<rparr>"

definition cool_load :: "string option \<Rightarrow> cool_config" where
  "cool_load conf = (case conf of None \<Rightarrow> cool_default | Some raw \<Rightarrow> config_of (conf_map raw))"

definition flag :: "bool \<Rightarrow> int" where
  "flag b = (if b then 1 else 0)"

text \<open>The \<open>key=value\<close> lines \<open>save\<close> writes.\<close>

definition conf_pairs :: "cool_config \<Rightarrow> (string \<times> int) list" where
  "conf_pairs c =
     [(''fan_enabled'', 1), (''fan_always_on'', flag (cc_fan_always c)), (''fan_auto'', flag (cc_fan_mode c = 1)),
      (''fan_mode'', cc_fan_mode c), (''fan_speed_percent'', cc_fan_speed c),
      (''liquid_enabled'', flag (cc_liquid_always c)), (''liquid_always_on'', flag (cc_liquid_always c)),
      (''liquid_level'', cc_liquid_level c),
      (''temperature_1'', cc_temps c ! 0), (''temperature_2'', cc_temps c ! 1), (''temperature_3'', cc_temps c ! 2),
      (''hysteresis_1'', cc_hyst c ! 0), (''hysteresis_2'', cc_hyst c ! 1), (''hysteresis_3'', cc_hyst c ! 2),
      (''custom_curve_count'', int (length (cc_curve c)))]
     @ concat (map (\<lambda>i. [(''custom_temperature_'' @ show_nat (i + 1), fst (cc_curve c ! i)),
                          (''custom_pwm_'' @ show_nat (i + 1), snd (cc_curve c ! i))]) [0..<length (cc_curve c)])"

definition conf_text :: "cool_config \<Rightarrow> string" where
  "conf_text c = concat (map (\<lambda>(k, v). k @ ''='' @ show_int v @ [char_of (10 :: nat)]) (conf_pairs c))"

definition cool_panel :: "cool_config \<Rightarrow> json" where
  "cool_panel c = jobj
     [(''fan_mode'', JString (if cc_fan_always c then ''always_on'' else if cc_fan_mode c = 1 then ''automatic'' else ''custom'')),
      (''fan_always_on'', JBool (cc_fan_always c)),
      (''fan_curve'', JArray (map (\<lambda>(t, p). jobj [(''temperature'', jint t), (''pwm'', jint p)]) (cc_curve c))),
      (''liquid_mode'', JString (if \<not> cc_liquid_always c then ''automatic'' else if cc_liquid_level c = 2 then ''high'' else ''low''))]"

section \<open>The curve\<close>

text \<open>\<open>None\<close> without a temperature; the division panics only on \<open>i64::MIN / -1\<close>, modelled as no value.\<close>

fun curve_scan :: "int \<Rightarrow> (int \<times> int) list \<Rightarrow> int option" where
  "curve_scan temp ((x0, y0) # (x1, y1) # ps) =
     (if temp \<le> x1 then
        (let dx = wrap_i64 (x1 - x0);
             n = wrap_i64 (wrap_i64 (wrap_i64 (temp - x0) * wrap_i64 (y1 - y0)) + tdiv dx 2)
         in if dx = 0 \<or> dx = -1 \<and> n = i64_min then None else Some (wrap_i64 (y0 + tdiv n dx)))
      else curve_scan temp ((x1, y1) # ps))"
| "curve_scan temp [(x, y)] = Some y"
| "curve_scan temp [] = None"

definition curve_pwm :: "(int \<times> int) list \<Rightarrow> int \<Rightarrow> int option" where
  "curve_pwm curve temp =
     (if temp \<ge> 80 then Some 255
      else if temp \<le> 0 then None
      else if temp \<le> fst (curve ! 0) then Some (snd (curve ! 0))
      else curve_scan temp curve)"

section \<open>Device and state\<close>

datatype cool_node = NThermalEnable | NZoneMode | NFanState | NLowSpeed | NPwm
  | NTripTemp nat | NTripHyst nat | NLiquidThermal | NLiquidDrive

record cool_env =
  ce_zone :: bool
  ce_fan :: bool
  ce_low_speed :: "string + bool"
  ce_temp :: "string option"
  ce_write_err :: "cool_node \<Rightarrow> string option"
  ce_readback :: "string \<Rightarrow> string + string"
  ce_parse_err :: string
  ce_liquid_status :: "string option"
  ce_vendor :: "string \<Rightarrow> bool \<Rightarrow> string option"
  ce_save_err :: "string option"
  ce_conf_exists :: "string + bool"
  ce_mc_state :: "string option"

record cooling =
  co_conf :: "string option"
  co_nodes :: "cool_node \<rightharpoonup> string"
  co_override :: bool
  co_stopping :: bool
  co_revision :: nat
  co_handed_back :: bool
  co_liquid_written :: string
  co_policy :: "bool \<times> bool \<times> string"

type_synonym 'a cool_res = "(string + 'a) \<times> cooling"

definition andthen :: "unit cool_res \<Rightarrow> (cooling \<Rightarrow> 'a cool_res) \<Rightarrow> 'a cool_res" where
  "andthen r f = (case r of (Inl e, s) \<Rightarrow> (Inl e, s) | (Inr _, s) \<Rightarrow> f s)"

definition node_write :: "cool_env \<Rightarrow> cool_node \<Rightarrow> string \<Rightarrow> cooling \<Rightarrow> unit cool_res" where
  "node_write env n v s =
     (case ce_write_err env n of Some e \<Rightarrow> (Inl e, s)
      | None \<Rightarrow> (Inr (), s\<lparr>co_nodes := (co_nodes s)(n \<mapsto> v)\<rparr>))"

definition temperature :: "cool_env \<Rightarrow> int" where
  "temperature env =
     (if \<not> ce_zone env then -1
      else case Option.bind (ce_temp env) (\<lambda>t. parse_i64 (trim t)) of
        None \<Rightarrow> -1
      | Some v \<Rightarrow> if v \<ge> 1000 then tdiv (wrap_i64 (v + 500)) 1000 else v)"

definition prepare_fan :: "cool_env \<Rightarrow> cooling \<Rightarrow> unit cool_res" where
  "prepare_fan env s =
     (if \<not> ce_zone env then (Inl ''fan thermal zone not found'', s)
      else if \<not> ce_fan env then (Inl ''pwm-fan cooling device not found'', s)
      else andthen (node_write env NThermalEnable ''1'' s) (\<lambda>s.
           andthen (node_write env NZoneMode ''disabled'' s) (\<lambda>s.
           andthen (node_write env NFanState ''0'' s) (\<lambda>s.
           case ce_low_speed env of
             Inl e \<Rightarrow> (Inl e, s)
           | Inr present \<Rightarrow> if present then node_write env NLowSpeed ''0'' s else (Inr (), s)))))"

definition restore_kernel_fan :: "cool_env \<Rightarrow> cooling \<Rightarrow> unit cool_res" where
  "restore_kernel_fan env s =
     (if \<not> ce_zone env then (Inl ''fan thermal zone not found'', s)
      else
        let (thermal, s1) = node_write env NThermalEnable ''1'' s;
            (mode, s2) = node_write env NZoneMode ''enabled'' s1
        in (case thermal of Inl e \<Rightarrow> Inl e | Inr _ \<Rightarrow> mode, s2))"

definition fan_pwm :: "cool_env \<Rightarrow> int \<Rightarrow> cooling \<Rightarrow> unit cool_res" where
  "fan_pwm env pwm s =
     andthen (prepare_fan env s) (\<lambda>s.
       let requested = clamp 0 255 pwm in
       andthen (node_write env NPwm (show_int requested) s) (\<lambda>s.
         case ce_readback env (show_int requested) of
           Inl e \<Rightarrow> (Inl e, s)
         | Inr text \<Rightarrow>
             (case parse_i64 (trim text) of
                None \<Rightarrow> (Inl (ce_parse_err env), s)
              | Some actual \<Rightarrow>
                  if actual \<noteq> requested
                  then (Inl (''fan PWM readback mismatch: requested '' @ show_int requested @ '', got '' @ show_int actual), s)
                  else (Inr (), s))))"

definition set_override :: "bool \<Rightarrow> unit cool_res \<Rightarrow> unit cool_res" where
  "set_override b r = (case r of (Inr _, s) \<Rightarrow> (Inr (), s\<lparr>co_override := b\<rparr>) | (Inl e, s) \<Rightarrow> (Inl e, s))"

fun write_trips :: "cool_env \<Rightarrow> cool_config \<Rightarrow> nat list \<Rightarrow> cooling \<Rightarrow> unit cool_res" where
  "write_trips env c [] s = (Inr (), s)"
| "write_trips env c (i # is) s =
     andthen (node_write env (NTripTemp i) (show_int (wrap_i64 (cc_temps c ! i * 1000))) s) (\<lambda>s.
     andthen (node_write env (NTripHyst i) (show_int (wrap_i64 (cc_hyst c ! i * 1000))) s) (\<lambda>s.
       write_trips env c is s))"

definition apply_fan :: "cool_env \<Rightarrow> cool_config \<Rightarrow> cooling \<Rightarrow> unit cool_res" where
  "apply_fan env c s =
     (let temp = temperature env in
      if temp \<ge> 80 \<or> temp \<le> 0 \<and> co_override s then set_override True (fan_pwm env 255 s)
      else if cc_fan_always c then fan_pwm env 128 s
      else if cc_fan_mode c = 1 then
        (if \<not> ce_zone env then (Inl ''fan thermal zone not found'', s)
         else andthen (node_write env NThermalEnable ''1'' s) (\<lambda>s.
              andthen (write_trips env c [0, 1, 2] s) (\<lambda>s.
                set_override False (node_write env NZoneMode ''enabled'' s))))
      else case curve_pwm (cc_curve c) temp of
        None \<Rightarrow> (Inl ''fan temperature unavailable'', s)
      | Some pwm \<Rightarrow> set_override False (fan_pwm env pwm s))"

definition apply_fan_recorded :: "cool_env \<Rightarrow> cool_config \<Rightarrow> cooling \<Rightarrow> unit cool_res" where
  "apply_fan_recorded env c s =
     (let (result, s2) =
        (case apply_fan env c s of
           (Inr _, s1) \<Rightarrow> (Inr (), s1)
         | (Inl e, s1) \<Rightarrow>
             (case restore_kernel_fan env s1 of
                (Inr _, s2) \<Rightarrow> (Inl (e @ ''; kernel thermal control restored''), s2)
              | (Inl r, s2) \<Rightarrow> (Inl (e @ ''; kernel recovery failed: '' @ r), s2)))
      in (result, s2\<lparr>co_policy := (True, result = Inr (), case result of Inl e \<Rightarrow> e | Inr _ \<Rightarrow> [])\<rparr>))"

definition apply_liquid :: "cool_env \<Rightarrow> cool_config \<Rightarrow> bool \<Rightarrow> cooling \<Rightarrow> unit cool_res" where
  "apply_liquid env c force s =
     (let wanted = (if cc_liquid_always c
                    then ''1023 '' @ show_int (liquid_amplitude (clamp 1 2 (cc_liquid_level c))) @ '' 200''
                    else ''0 0 0'');
          status = (case ce_liquid_status env of Some t \<Rightarrow> t | None \<Rightarrow> []);
          unchanged = (co_liquid_written s = wanted)
      in if \<not> force \<and> unchanged \<and> str_contains ''thermal_enable:1'' status
            \<and> \<not> (cc_liquid_always c \<and> str_contains ''ws_active:0'' status)
         then (Inr (), s)
         else andthen (node_write env NLiquidThermal ''1'' s) (\<lambda>s.
              andthen (node_write env NLiquidDrive wanted s) (\<lambda>s.
                (Inr (), s\<lparr>co_liquid_written := wanted\<rparr>))))"

definition trim_quotes :: "string \<Rightarrow> string" where
  "trim_quotes s = (let q = (\<lambda>c. cval c \<in> {34, 39}) in rev (dropWhile q (rev (dropWhile q s))))"

definition power_off_state :: "string \<Rightarrow> bool" where
  "power_off_state raw =
     list_ex (\<lambda>line. case strip_prefix ''option mode_main_state'' (trim line) of None \<Rightarrow> False
       | Some v \<Rightarrow> starts_with ''mode_power_off'' (trim_quotes (trim v))) (lines raw)"

definition oem_powered_off :: "cool_env \<Rightarrow> bool" where
  "oem_powered_off env = (case ce_mc_state env of Some raw \<Rightarrow> power_off_state raw | None \<Rightarrow> False)"

definition cool_save :: "cool_env \<Rightarrow> cool_config \<Rightarrow> cooling \<Rightarrow> unit cool_res" where
  "cool_save env c s =
     (case ce_save_err env of Some e \<Rightarrow> (Inl e, s) | None \<Rightarrow> (Inr (), s\<lparr>co_conf := Some (conf_text c)\<rparr>))"

definition vendor_switch :: "cool_env \<Rightarrow> string \<Rightarrow> bool \<Rightarrow> cooling \<Rightarrow> unit cool_res" where
  "vendor_switch env path v s = (case ce_vendor env path v of Some e \<Rightarrow> (Inl e, s) | None \<Rightarrow> (Inr (), s))"

section \<open>Calls\<close>

text \<open>An error of \<open>execute\<close>: whether the request was invalid, and its text.\<close>

type_synonym 'a exec_res = "((bool \<times> string) + 'a) \<times> cooling"

definition exec_failed :: "unit cool_res \<Rightarrow> (cooling \<Rightarrow> 'a exec_res) \<Rightarrow> 'a exec_res" where
  "exec_failed r f = (case r of (Inl e, s) \<Rightarrow> (Inl (False, e), s) | (Inr _, s) \<Rightarrow> f s)"

definition exec_invalid :: "string \<Rightarrow> cooling \<Rightarrow> 'a exec_res" where
  "exec_invalid msg s = (Inl (True, msg), s)"

definition fan_switch :: string where "fan_switch = ''zwrt_deviceui.Device.fan_switch_status''"
definition liquid_switch :: string where "liquid_switch = ''zwrt_deviceui.Device.liquid_cooling_switch_status''"

definition commit_fan :: "cool_env \<Rightarrow> cool_config \<Rightarrow> bool \<Rightarrow> json \<Rightarrow> cooling \<Rightarrow> json exec_res" where
  "commit_fan env c e reply s =
     exec_failed (apply_fan_recorded env c s) (\<lambda>s.
     exec_failed (vendor_switch env fan_switch e s) (\<lambda>s.
     exec_failed (cool_save env c s) (\<lambda>s. (Inr reply, s))))"

definition commit_liquid :: "cool_env \<Rightarrow> cool_config \<Rightarrow> bool \<Rightarrow> json \<Rightarrow> cooling \<Rightarrow> json exec_res" where
  "commit_liquid env c e reply s =
     exec_failed (apply_liquid env c True s) (\<lambda>s.
     exec_failed (vendor_switch env liquid_switch e s) (\<lambda>s.
     exec_failed (cool_save env c s) (\<lambda>s. (Inr reply, s))))"

definition curve_error :: string where
  "curve_error = ''curve temperatures must increase and pwm must not decrease''"

fun read_curve :: "(int \<times> int) list \<Rightarrow> json list \<Rightarrow> string + (int \<times> int) list" where
  "read_curve acc [] = Inr acc"
| "read_curve acc (point # ps) =
     (case (Option.bind (jget point ''temperature'') as_i64, Option.bind (jget point ''pwm'') as_i64) of
        (Some t, Some pwm) \<Rightarrow>
          if \<not> (20 \<le> t \<and> t \<le> 80) \<or> \<not> (0 \<le> pwm \<and> pwm \<le> 255)
             \<or> (acc \<noteq> [] \<and> (t \<le> fst (last acc) \<or> pwm < snd (last acc)))
          then Inl curve_error
          else read_curve (acc @ [(t, pwm)]) ps
      | _ \<Rightarrow> Inl ''invalid curve point'')"

definition fan_set_enabled :: "cool_env \<Rightarrow> json \<Rightarrow> cool_config \<Rightarrow> cooling \<Rightarrow> json exec_res" where
  "fan_set_enabled env p c s =
     (case Option.bind (jget p ''enabled'') as_bool of
        None \<Rightarrow> exec_invalid ''enabled must be boolean'' s
      | Some e \<Rightarrow>
          commit_fan env (c\<lparr>cc_fan_always := e, cc_fan_mode := (if e then cc_fan_mode c else 2)\<rparr>) e
            (jobj [(''enabled'', JBool e), (''always_on'', JBool e), (''mode'', JString (if e then ''always_on'' else ''custom''))]) s)"

definition fan_mode_config :: "string \<Rightarrow> cool_config \<Rightarrow> cool_config option" where
  "fan_mode_config mode c =
     (if mode = ''automatic'' then Some (c\<lparr>cc_fan_always := False, cc_fan_mode := 1\<rparr>)
      else if mode = ''custom'' then Some (c\<lparr>cc_fan_always := False, cc_fan_mode := 2\<rparr>)
      else if mode = ''always_on'' then Some (c\<lparr>cc_fan_always := True\<rparr>)
      else None)"

definition fan_set_mode :: "cool_env \<Rightarrow> json \<Rightarrow> cool_config \<Rightarrow> cooling \<Rightarrow> json exec_res" where
  "fan_set_mode env p c s =
     (case Option.bind (jget p ''mode'') as_str of
        None \<Rightarrow> exec_invalid ''missing parameter: mode'' s
      | Some mode \<Rightarrow>
          (case fan_mode_config mode c of
             None \<Rightarrow> exec_invalid ''mode must be automatic, custom, or always_on'' s
           | Some c' \<Rightarrow>
               commit_fan env c' (cc_fan_always c')
                 (jobj [(''enabled'', JBool (cc_fan_always c')), (''always_on'', JBool (cc_fan_always c')), (''mode'', JString mode)]) s))"

definition fan_set_curve :: "cool_env \<Rightarrow> json \<Rightarrow> cool_config \<Rightarrow> cooling \<Rightarrow> json exec_res" where
  "fan_set_curve env p c s =
     (case Option.bind (jget p ''points'') as_array of
        None \<Rightarrow> exec_invalid ''points must be an array'' s
      | Some points \<Rightarrow>
          if \<not> (2 \<le> length points \<and> length points \<le> 8) then exec_invalid ''points must contain 2 to 8 objects'' s
          else case read_curve [] points of
            Inl e \<Rightarrow> exec_invalid e s
          | Inr curve \<Rightarrow>
              let c' = c\<lparr>cc_curve := curve, cc_fan_mode := (if cc_fan_always c then cc_fan_mode c else 2)\<rparr> in
              commit_fan env c' (cc_fan_always c')
                (jobj [(''enabled'', JBool (cc_fan_always c')), (''always_on'', JBool (cc_fan_always c')),
                       (''mode'', JString (if cc_fan_always c' then ''always_on'' else ''custom'')),
                       (''points'', JArray (map (\<lambda>(t, pwm). jobj [(''temperature'', jint t), (''pwm'', jint pwm)]) curve))]) s)"

definition liquid_set_enabled :: "cool_env \<Rightarrow> json \<Rightarrow> cool_config \<Rightarrow> cooling \<Rightarrow> json exec_res" where
  "liquid_set_enabled env p c s =
     (case Option.bind (jget p ''enabled'') as_bool of
        None \<Rightarrow> exec_invalid ''enabled must be boolean'' s
      | Some e \<Rightarrow>
          commit_liquid env (c\<lparr>cc_liquid_always := e, cc_liquid_level := (if e then 2 else cc_liquid_level c)\<rparr>) e
            (jobj [(''enabled'', JBool e), (''always_on'', JBool e), (''mode'', JString (if e then ''high'' else ''automatic'')),
                   (''level'', jint (if e then 2 else 0)), (''amplitude'', jint (if e then liquid_amplitude 2 else 0))]) s)"

definition liquid_mode_config :: "string \<Rightarrow> cool_config \<Rightarrow> cool_config option" where
  "liquid_mode_config mode c =
     (if mode = ''automatic'' then Some (c\<lparr>cc_liquid_always := False\<rparr>)
      else if mode = ''low'' then Some (c\<lparr>cc_liquid_always := True, cc_liquid_level := 1\<rparr>)
      else if mode = ''high'' then Some (c\<lparr>cc_liquid_always := True, cc_liquid_level := 2\<rparr>)
      else None)"

definition liquid_set_mode :: "cool_env \<Rightarrow> json \<Rightarrow> cool_config \<Rightarrow> cooling \<Rightarrow> json exec_res" where
  "liquid_set_mode env p c s =
     (case Option.bind (jget p ''mode'') as_str of
        None \<Rightarrow> exec_invalid ''mode must be automatic, low, or high'' s
      | Some mode \<Rightarrow>
          (case liquid_mode_config mode c of
             None \<Rightarrow> exec_invalid ''mode must be automatic, low, or high'' s
           | Some c' \<Rightarrow>
               commit_liquid env c' (cc_liquid_always c')
                 (jobj [(''enabled'', JBool (cc_liquid_always c')), (''always_on'', JBool (cc_liquid_always c')),
                        (''mode'', JString mode),
                        (''level'', jint (if cc_liquid_always c' then cc_liquid_level c' else 0)),
                        (''amplitude'', jint (if cc_liquid_always c' then liquid_amplitude (cc_liquid_level c') else 0)),
                        (''speed_percent'', jint (if cc_liquid_always c' then if cc_liquid_level c' = 2 then 100 else 30 else 0))]) s))"

definition cool_execute :: "cool_env \<Rightarrow> string \<Rightarrow> json \<Rightarrow> cooling \<Rightarrow> json exec_res" where
  "cool_execute env action p s0 =
     (let s1 = s0\<lparr>co_handed_back := False\<rparr> in
      if co_stopping s1 then (Inl (False, ''cooling controller is shutting down''), s1)
      else
        let s = s1\<lparr>co_revision := wadd64 (co_revision s1) 1\<rparr>;
            c = cool_load (co_conf s)
        in if action = ''cooling.fan.set_enabled'' then fan_set_enabled env p c s
           else if action = ''cooling.fan.set_mode'' then fan_set_mode env p c s
           else if action = ''cooling.fan.set_curve'' then fan_set_curve env p c s
           else if action = ''cooling.liquid.set_enabled'' then liquid_set_enabled env p c s
           else if action = ''cooling.liquid.set_mode'' then liquid_set_mode env p c s
           else exec_invalid ''unsupported cooling action'' s)"

definition sync_fan :: "cool_env \<Rightarrow> bool option \<Rightarrow> cool_config \<Rightarrow> cooling \<Rightarrow> cool_config cool_res" where
  "sync_fan env fan c s =
     (case fan of
        Some v \<Rightarrow>
          if v \<noteq> cc_fan_always c then
            (let c' = c\<lparr>cc_fan_always := v, cc_fan_mode := (if v then cc_fan_mode c else 2)\<rparr> in
             andthen (apply_fan_recorded env c' s) (\<lambda>s. (Inr c', s)))
          else (Inr c, s)
      | None \<Rightarrow> (Inr c, s))"

definition sync_liquid :: "cool_env \<Rightarrow> bool option \<Rightarrow> cool_config \<Rightarrow> cooling \<Rightarrow> cool_config cool_res" where
  "sync_liquid env liquid c s =
     (case liquid of
        Some v \<Rightarrow>
          if v \<noteq> cc_liquid_always c then
            (let c' = c\<lparr>cc_liquid_always := v, cc_liquid_level := (if v then 2 else cc_liquid_level c)\<rparr> in
             andthen (apply_liquid env c' True s) (\<lambda>s. (Inr c', s)))
          else (Inr c, s)
      | None \<Rightarrow> (Inr c, s))"

definition sync_vendor_switches ::
  "cool_env \<Rightarrow> nat \<Rightarrow> bool option \<Rightarrow> bool option \<Rightarrow> cooling \<Rightarrow> unit cool_res" where
  "sync_vendor_switches env revision fan liquid s =
     (if co_stopping s \<or> revision \<noteq> co_revision s then (Inr (), s)
      else case ce_conf_exists env of Inl e \<Rightarrow> (Inl e, s)
      | Inr False \<Rightarrow> (Inr (), s)
      | Inr True \<Rightarrow>
          let c = cool_load (co_conf s);
              fan_changed = (case fan of Some v \<Rightarrow> v \<noteq> cc_fan_always c | None \<Rightarrow> False);
              liquid_changed = (case liquid of Some v \<Rightarrow> v \<noteq> cc_liquid_always c | None \<Rightarrow> False)
          in if \<not> fan_changed \<and> \<not> liquid_changed then (Inr (), s)
             else case sync_fan env fan c (s\<lparr>co_revision := wadd64 (co_revision s) 1\<rparr>) of
               (Inl e, s1) \<Rightarrow> (Inl e, s1)
             | (Inr c1, s1) \<Rightarrow>
                 (case sync_liquid env liquid c1 s1 of
                    (Inl e, s2) \<Rightarrow> (Inl e, s2)
                  | (Inr c2, s2) \<Rightarrow> cool_save env c2 s2))"

definition cool_tick :: "cool_env \<Rightarrow> cooling \<Rightarrow> cooling" where
  "cool_tick env s =
     (if co_stopping s \<or> ce_conf_exists env \<noteq> Inr True then s
      else
        let c = cool_load (co_conf s) in
        if oem_powered_off env then
          (if co_handed_back s then s
           else
             let s1 = snd (restore_kernel_fan env (s\<lparr>co_handed_back := True\<rparr>)) in
             if cc_liquid_always c then snd (apply_liquid env (c\<lparr>cc_liquid_always := False\<rparr>) True s1) else s1)
        else
          let resumed = co_handed_back s;
              s1 = s\<lparr>co_handed_back := False\<rparr>;
              s2 = (if cc_liquid_always c then snd (apply_liquid env c resumed s1) else s1)
          in snd (apply_fan_recorded env c s2))"

definition cool_shutdown :: "cool_env \<Rightarrow> cooling \<Rightarrow> cooling" where
  "cool_shutdown env s =
     (if co_stopping s then s
      else
        let s1 = s\<lparr>co_stopping := True\<rparr> in
        if ce_conf_exists env = Inr True then snd (restore_kernel_fan env s1) else s1)"

section \<open>Laws of the curve\<close>

fun curve_valid :: "(int \<times> int) list \<Rightarrow> bool" where
  "curve_valid ((x0, y0) # (x1, y1) # ps) \<longleftrightarrow>
     20 \<le> x0 \<and> x0 < x1 \<and> 0 \<le> y0 \<and> y0 \<le> y1 \<and> curve_valid ((x1, y1) # ps)"
| "curve_valid [(x, y)] \<longleftrightarrow> 20 \<le> x \<and> x \<le> 80 \<and> 0 \<le> y \<and> y \<le> 255"
| "curve_valid [] \<longleftrightarrow> True"

lemma curve_valid_head: "curve_valid ((x, y) # ps) \<Longrightarrow> 20 \<le> x \<and> x \<le> 80 \<and> 0 \<le> y \<and> y \<le> 255"
  by (induction "(x, y) # ps" arbitrary: x y ps rule: curve_valid.induct) auto

lemma curve_valid_snoc:
  "curve_valid ps \<Longrightarrow> 20 \<le> t \<Longrightarrow> t \<le> 80 \<Longrightarrow> 0 \<le> p \<Longrightarrow> p \<le> 255
   \<Longrightarrow> (ps \<noteq> [] \<Longrightarrow> fst (last ps) < t \<and> snd (last ps) \<le> p) \<Longrightarrow> curve_valid (ps @ [(t, p)])"
  by (induction ps rule: curve_valid.induct) auto

lemma read_curve_valid:
  "read_curve acc points = Inr curve \<Longrightarrow> curve_valid acc \<Longrightarrow> curve_valid curve \<and> length curve = length acc + length points"
proof (induction acc points rule: read_curve.induct)
  case (2 acc point ps)
  obtain t p where tp: "Option.bind (jget point ''temperature'') as_i64 = Some t" "Option.bind (jget point ''pwm'') as_i64 = Some p"
    "20 \<le> t" "t \<le> 80" "0 \<le> p" "p \<le> 255" "acc \<noteq> [] \<Longrightarrow> fst (last acc) < t \<and> snd (last acc) \<le> p"
    "read_curve (acc @ [(t, p)]) ps = Inr curve"
    using "2.prems"(1) by (auto split: option.splits if_splits)
  have "curve_valid (acc @ [(t, p)])" using "2.prems"(2) tp by (intro curve_valid_snoc)
  moreover have "\<not> (\<not> (20 \<le> t \<and> t \<le> 80) \<or> \<not> (0 \<le> p \<and> p \<le> 255) \<or> (acc \<noteq> [] \<and> (t \<le> fst (last acc) \<or> p < snd (last acc))))"
    using tp by auto
  ultimately show ?case using "2.IH" [OF refl tp(1,2)] tp(8) by auto
qed simp

definition interp :: "int \<times> int \<Rightarrow> int \<times> int \<Rightarrow> int \<Rightarrow> int" where
  "interp a b t = snd a + ((t - fst a) * (snd b - snd a) + (fst b - fst a) div 2) div (fst b - fst a)"

lemma wrap_small: "\<bar>i\<bar> \<le> 100000 \<Longrightarrow> wrap_i64 i = i"
  by (rule wrap_i64_small) auto

lemma interp_bounds:
  assumes "fst a < fst b" "snd a \<le> snd b" "fst a \<le> t" "t \<le> fst b"
  shows "snd a \<le> interp a b t \<and> interp a b t \<le> snd b"
proof -
  let ?dx = "fst b - fst a" and ?dy = "snd b - snd a"
  have dx: "0 < ?dx" "0 \<le> ?dy" using assms by auto
  have "0 \<le> (t - fst a) * ?dy" using assms dx by simp
  then have lo: "0 \<le> ((t - fst a) * ?dy + ?dx div 2) div ?dx"
    using dx by (intro pos_imp_zdiv_nonneg_iff [THEN iffD2]) auto
  have "(t - fst a) * ?dy \<le> ?dx * ?dy" using assms dx by (intro mult_right_mono) auto
  then have "((t - fst a) * ?dy + ?dx div 2) div ?dx \<le> (?dx div 2 + ?dy * ?dx) div ?dx"
    using dx by (intro zdiv_mono1) (auto simp: mult.commute)
  also have "\<dots> = ?dy" using dx by (simp add: div_mult_self1)
  finally show ?thesis using lo by (simp add: interp_def)
qed

lemma interp_mono:
  assumes "fst a < fst b" "snd a \<le> snd b" "t \<le> t'"
  shows "interp a b t \<le> interp a b t'"
proof -
  have "(t - fst a) * (snd b - snd a) \<le> (t' - fst a) * (snd b - snd a)"
    using assms by (intro mult_right_mono) auto
  then show ?thesis using assms(1) by (auto simp: interp_def intro: zdiv_mono1)
qed

lemma curve_scan_interp:
  assumes "curve_valid ((x0, y0) # (x1, y1) # ps)" "x0 < t" "t \<le> x1"
  shows "curve_scan t ((x0, y0) # (x1, y1) # ps) = Some (interp (x0, y0) (x1, y1) t)"
proof -
  have r: "20 \<le> x0" "x0 < x1" "x1 \<le> 80" "0 \<le> y0" "y0 \<le> y1" "y1 \<le> 255"
    using assms(1) curve_valid_head [of x1 y1 ps] by auto
  let ?n = "(t - x0) * (y1 - y0)"
  have "?n \<le> 60 * 255" by (rule mult_mono) (use assms(2,3) r in auto)
  then have n: "0 \<le> ?n" "?n \<le> 60 * 255" using assms(2) r by auto
  have half: "tdiv (x1 - x0) 2 = (x1 - x0) div 2" using r by (simp add: tdiv_nonneg)
  have w: "wrap_i64 (x1 - x0) = x1 - x0" "wrap_i64 (t - x0) = t - x0" "wrap_i64 (y1 - y0) = y1 - y0"
    "wrap_i64 ?n = ?n" "wrap_i64 (?n + (x1 - x0) div 2) = ?n + (x1 - x0) div 2"
    using r assms(2,3) n by (auto intro!: wrap_small)
  have q: "tdiv (?n + (x1 - x0) div 2) (x1 - x0) = (?n + (x1 - x0) div 2) div (x1 - x0)"
    using r n by (intro tdiv_nonneg) auto
  have "y0 \<le> interp (x0, y0) (x1, y1) t \<and> interp (x0, y0) (x1, y1) t \<le> y1"
    using interp_bounds [of "(x0, y0)" "(x1, y1)" t] r assms(2,3) by simp
  then have "wrap_i64 (interp (x0, y0) (x1, y1) t) = interp (x0, y0) (x1, y1) t" using r by (intro wrap_small) auto
  then show ?thesis using assms(3) r w q half by (simp add: Let_def interp_def)
qed

lemma curve_scan_bounds:
  "curve_valid ((x0, y0) # ps) \<Longrightarrow> x0 < t \<Longrightarrow> \<exists>p. curve_scan t ((x0, y0) # ps) = Some p \<and> y0 \<le> p \<and> p \<le> 255"
proof (induction ps arbitrary: x0 y0)
  case Nil
  then show ?case by simp
next
  case (Cons b ps)
  obtain x1 y1 where b: "b = (x1, y1)" by (cases b)
  show ?case
  proof (cases "t \<le> x1")
    case True
    have "y0 \<le> interp (x0, y0) (x1, y1) t \<and> interp (x0, y0) (x1, y1) t \<le> y1"
      using interp_bounds [of "(x0, y0)" "(x1, y1)" t] Cons.prems True by (simp add: b)
    then show ?thesis using curve_scan_interp [of x0 y0 x1 y1 ps t] Cons.prems True curve_valid_head [of x1 y1 ps]
      by (auto simp: b)
  next
    case False
    then have "\<exists>p. curve_scan t ((x1, y1) # ps) = Some p \<and> y1 \<le> p \<and> p \<le> 255" using Cons by (simp add: b)
    then show ?thesis using False Cons.prems by (auto simp: b)
  qed
qed

lemma curve_scan_mono:
  "curve_valid ((x0, y0) # ps) \<Longrightarrow> x0 < t \<Longrightarrow> t \<le> t' \<Longrightarrow>
   the (curve_scan t ((x0, y0) # ps)) \<le> the (curve_scan t' ((x0, y0) # ps))"
proof (induction ps arbitrary: x0 y0)
  case (Cons b ps)
  obtain x1 y1 where b: "b = (x1, y1)" by (cases b)
  have v: "curve_valid ((x0, y0) # (x1, y1) # ps)" using Cons.prems by (simp add: b)
  then have xy: "x0 < x1" "y0 \<le> y1" "curve_valid ((x1, y1) # ps)" by auto
  consider "t' \<le> x1" | "t \<le> x1" "x1 < t'" | "x1 < t" by linarith
  then show ?case
  proof cases
    case 1
    then show ?thesis using curve_scan_interp [OF v] interp_mono [of "(x0, y0)" "(x1, y1)" t t'] Cons.prems xy
      by (simp add: b del: curve_scan.simps)
  next
    case 2
    have "interp (x0, y0) (x1, y1) t \<le> y1" using interp_bounds [of "(x0, y0)" "(x1, y1)" t] xy 2 Cons.prems by simp
    moreover obtain p where "curve_scan t' ((x1, y1) # ps) = Some p" "y1 \<le> p" using curve_scan_bounds [OF xy(3) 2(2)] by auto
    moreover have "curve_scan t' ((x0, y0) # (x1, y1) # ps) = curve_scan t' ((x1, y1) # ps)" using 2 by simp
    ultimately show ?thesis using curve_scan_interp [OF v _ 2(1)] Cons.prems by (simp add: b del: curve_scan.simps)
  next
    case 3
    then show ?thesis using Cons.IH [OF xy(3)] Cons.prems by (simp add: b)
  qed
qed simp

lemma curve_pwm_bounds:
  assumes "curve_valid curve" "curve \<noteq> []" "0 < t"
  shows "\<exists>p. curve_pwm curve t = Some p \<and> snd (curve ! 0) \<le> p \<and> p \<le> 255"
proof -
  obtain x y ps where c: "curve = (x, y) # ps" using assms(2) by (metis neq_Nil_conv surj_pair)
  then show ?thesis using curve_scan_bounds [of x y ps t] curve_valid_head [of x y ps] assms(1,3)
    by (auto simp: curve_pwm_def)
qed

lemma curve_pwm_mono:
  assumes "curve_valid curve" "curve \<noteq> []" "0 < t" "t \<le> t'"
  shows "the (curve_pwm curve t) \<le> the (curve_pwm curve t')"
proof -
  obtain x y ps where c: "curve = (x, y) # ps" using assms(2) by (metis neq_Nil_conv surj_pair)
  obtain p where p: "curve_pwm curve t = Some p" "p \<le> 255" using curve_pwm_bounds [OF assms(1-3)] by auto
  obtain p' where p': "curve_pwm curve t' = Some p'" "y \<le> p'" using curve_pwm_bounds [OF assms(1,2), of t'] assms(3,4) c by auto
  show ?thesis
  proof (cases "t' \<ge> 80 \<or> t \<le> x")
    case True
    then show ?thesis using p p' c assms(3,4) by (auto simp: curve_pwm_def split: if_splits)
  next
    case False
    then show ?thesis using curve_scan_mono [of x y ps t t'] assms c by (auto simp: curve_pwm_def)
  qed
qed

section \<open>The configuration file\<close>

definition i64_ok :: "int \<Rightarrow> bool" where
  "i64_ok i \<longleftrightarrow> i64_min \<le> i \<and> i \<le> i64_max"

definition config_wf :: "cool_config \<Rightarrow> bool" where
  "config_wf c \<longleftrightarrow> i64_ok (cc_fan_mode c) \<and> i64_ok (cc_fan_speed c) \<and> cc_liquid_level c \<in> {1, 2}
     \<and> length (cc_temps c) = 3 \<and> list_all i64_ok (cc_temps c) \<and> length (cc_hyst c) = 3 \<and> list_all i64_ok (cc_hyst c)
     \<and> 2 \<le> length (cc_curve c) \<and> length (cc_curve c) \<le> 8
     \<and> list_all (\<lambda>(t, p). i64_ok t \<and> i64_ok p) (cc_curve c)"

definition fixed_pairs :: "cool_config \<Rightarrow> (string \<times> int) list" where
  "fixed_pairs c =
     [(''fan_enabled'', 1), (''fan_always_on'', flag (cc_fan_always c)), (''fan_auto'', flag (cc_fan_mode c = 1)),
      (''fan_mode'', cc_fan_mode c), (''fan_speed_percent'', cc_fan_speed c),
      (''liquid_enabled'', flag (cc_liquid_always c)), (''liquid_always_on'', flag (cc_liquid_always c)),
      (''liquid_level'', cc_liquid_level c),
      (''temperature_1'', cc_temps c ! 0), (''temperature_2'', cc_temps c ! 1), (''temperature_3'', cc_temps c ! 2),
      (''hysteresis_1'', cc_hyst c ! 0), (''hysteresis_2'', cc_hyst c ! 1), (''hysteresis_3'', cc_hyst c ! 2),
      (''custom_curve_count'', int (length (cc_curve c)))]"

definition curve_pairs :: "(int \<times> int) list \<Rightarrow> (string \<times> int) list" where
  "curve_pairs ps = concat (map (\<lambda>i. [(''custom_temperature_'' @ show_nat (i + 1), fst (ps ! i)),
     (''custom_pwm_'' @ show_nat (i + 1), snd (ps ! i))]) [0..<length ps])"

lemma conf_pairs_split: "conf_pairs c = fixed_pairs c @ curve_pairs (cc_curve c)"
  by (simp add: conf_pairs_def fixed_pairs_def curve_pairs_def)

definition key_ok :: "string \<Rightarrow> bool" where
  "key_ok k \<longleftrightarrow> list_all (\<lambda>ch. ch \<noteq> CHR ''='' \<and> cval ch \<noteq> 10) k"

lemma show_nat_key: "key_ok (show_nat n)"
proof -
  have "is_ascii_digit ch \<Longrightarrow> ch \<noteq> CHR ''='' \<and> cval ch \<noteq> 10" for ch
    by (auto simp: is_ascii_digit_def cval_def)
  then show ?thesis using show_nat_digits [of n] by (auto simp: key_ok_def list_all_iff)
qed

lemma key_ok_append: "key_ok (a @ b) \<longleftrightarrow> key_ok a \<and> key_ok b"
  by (simp add: key_ok_def)

lemma show_int_key: "key_ok (show_int v)"
  using show_nat_key by (simp add: show_int_def key_ok_def cval_def)

lemma conf_entry_line:
  assumes "key_ok k" "i64_ok v"
  shows "conf_entry (k @ ''='' @ show_int v) = [(k, v)]"
proof -
  have "takeWhile (\<lambda>ch. ch \<noteq> CHR ''='') (k @ ''='' @ show_int v) = k"
    using assms(1) by (simp add: takeWhile_append key_ok_def list_all_iff)
  then show ?thesis using parse_i64_show_int [of v] assms(2) by (simp add: conf_entry_def split_once_def Let_def i64_ok_def)
qed

lemma chomp_cr_digit: "s \<noteq> [] \<Longrightarrow> cval (last s) \<noteq> 13 \<Longrightarrow> chomp_cr s = s"
  by (cases s rule: rev_cases) (auto simp: chomp_cr_def strip_suffix_def cval_def)

lemma last_show_int: "cval (last (show_int v)) \<noteq> 13 \<and> show_int v \<noteq> []"
proof -
  have "cval (last (show_nat n)) \<noteq> 13 \<and> show_nat n \<noteq> []" for n
    using show_nat_digits [of n] by (auto simp: list_all_iff is_ascii_digit_def dest!: bspec [of _ _ "last (show_nat n)"])
  then show ?thesis by (simp add: show_int_def)
qed

lemma conf_line_ok: "key_ok k \<Longrightarrow> char_of (10 :: nat) \<notin> set (k @ ''='' @ show_int v) \<and> chomp_cr (k @ ''='' @ show_int v) = k @ ''='' @ show_int v"
proof
  assume k: "key_ok k"
  have "\<forall>ch\<in>set (k @ ''='' @ show_int v). cval ch \<noteq> 10"
    using k show_int_key [of v] by (auto simp: key_ok_def list_all_iff cval_def)
  moreover have "cval (char_of (10 :: nat)) = 10" by (simp add: cval_def)
  ultimately show "char_of (10 :: nat) \<notin> set (k @ ''='' @ show_int v)" by metis
  show "chomp_cr (k @ ''='' @ show_int v) = k @ ''='' @ show_int v"
    by (rule chomp_cr_digit) (use last_show_int [of v] in auto)
qed

lemma conf_entries:
  assumes "\<forall>(k, v)\<in>set ps. key_ok k \<and> i64_ok v"
  shows "concat (map conf_entry (lines (concat (map (\<lambda>(k, v). k @ ''='' @ show_int v @ [char_of (10 :: nat)]) ps)))) = ps"
proof -
  let ?ls = "map (\<lambda>(k, v). k @ ''='' @ show_int v) ps"
  have "concat (map (\<lambda>(k, v). k @ ''='' @ show_int v @ [char_of (10 :: nat)]) ps) = concat (map (\<lambda>l. l @ [char_of (10 :: nat)]) ?ls)"
    by (simp add: comp_def case_prod_unfold)
  moreover have "lines (concat (map (\<lambda>l. l @ [char_of (10 :: nat)]) ?ls)) = ?ls"
    using assms conf_line_ok by (intro lines_concat) auto
  moreover have "concat (map conf_entry ?ls) = ps" using assms conf_entry_line by (induction ps) auto
  ultimately show ?thesis by simp
qed

lemma distinct_curve_keys: "distinct (map fst (curve_pairs ps))"
proof -
  have "distinct (map fst (concat (map (\<lambda>i. [(''custom_temperature_'' @ show_nat (i + 1), f i), (''custom_pwm_'' @ show_nat (i + 1), g i)]) is)))"
    if "distinct is" for f g :: "nat \<Rightarrow> int" and "is"
    using that by (induction "is") (auto dest: show_nat_inj)
  then show ?thesis by (simp add: curve_pairs_def)
qed

lemma curve_keys: "k \<in> fst ` set (curve_pairs ps) \<Longrightarrow> key_ok k \<and> (\<exists>n. k = ''custom_temperature_'' @ show_nat n \<or> k = ''custom_pwm_'' @ show_nat n)"
  using show_nat_key by (auto simp: curve_pairs_def key_ok_append) (auto simp: key_ok_def cval_def)

lemma fixed_keys:
  "distinct (map fst (fixed_pairs c))" "\<forall>k\<in>fst ` set (fixed_pairs c). key_ok k"
  "\<forall>k\<in>fst ` set (fixed_pairs c). k \<noteq> ''custom_temperature_'' @ s \<and> k \<noteq> ''custom_pwm_'' @ s"
  by (simp_all add: fixed_pairs_def key_ok_def cval_def)

lemma map_of_rev_distinct: "distinct (map fst ps) \<Longrightarrow> map_of (rev ps) = map_of ps"
  by (rule map_of_inject_set [THEN iffD2]) (simp_all flip: rev_map)

lemma flag_ok: "i64_ok (flag b)" "flag b \<noteq> 0 \<longleftrightarrow> b"
  by (simp_all add: flag_def i64_ok_def i64_min_def i64_max_def)

lemma conf_pairs_ok:
  assumes "config_wf c"
  shows "distinct (map fst (conf_pairs c))" "\<forall>(k, v)\<in>set (conf_pairs c). key_ok k \<and> i64_ok v"
proof -
  have "set (map fst (fixed_pairs c)) \<inter> set (map fst (curve_pairs (cc_curve c))) = {}"
  proof (rule ccontr)
    assume "set (map fst (fixed_pairs c)) \<inter> set (map fst (curve_pairs (cc_curve c))) \<noteq> {}"
    then obtain k where k: "k \<in> fst ` set (fixed_pairs c)" "k \<in> fst ` set (curve_pairs (cc_curve c))"
      unfolding set_map by blast
    obtain n where "k = ''custom_temperature_'' @ show_nat n \<or> k = ''custom_pwm_'' @ show_nat n"
      using curve_keys [OF k(2)] by blast
    then show False using fixed_keys(3) [of c "show_nat n"] k(1) by blast
  qed
  then show "distinct (map fst (conf_pairs c))"
    unfolding conf_pairs_split map_append distinct_append using fixed_keys(1) distinct_curve_keys by blast
  have t: "i64_ok (cc_temps c ! i)" "i64_ok (cc_hyst c ! i)" if "i < 3" for i
    using assms that by (simp_all add: config_wf_def list_all_length)
  have f: "\<forall>(k, v)\<in>set (fixed_pairs c). i64_ok v"
    using assms t [of 0] t [of 1] t [of 2] flag_ok(1)
    by (auto simp: fixed_pairs_def config_wf_def i64_ok_def i64_min_def i64_max_def)
  have "i64_ok (fst (cc_curve c ! i))" "i64_ok (snd (cc_curve c ! i))" if "i < length (cc_curve c)" for i
    using assms that by (auto simp: config_wf_def list_all_length case_prod_unfold)
  then have "\<forall>(k, v)\<in>set (curve_pairs (cc_curve c)). i64_ok v" by (auto simp: curve_pairs_def)
  moreover have "\<forall>(k, v)\<in>set (fixed_pairs c). key_ok k" using fixed_keys(2) [of c] by force
  moreover have "\<forall>(k, v)\<in>set (curve_pairs (cc_curve c)). key_ok k" using curve_keys by force
  ultimately show "\<forall>(k, v)\<in>set (conf_pairs c). key_ok k \<and> i64_ok v"
    using f unfolding conf_pairs_split set_append by blast
qed

lemma conf_map_text:
  assumes "config_wf c"
  shows "conf_map (conf_text c) = map_of (fixed_pairs c @ curve_pairs (cc_curve c))"
  using conf_entries [OF conf_pairs_ok(2) [OF assms]] map_of_rev_distinct [OF conf_pairs_ok(1) [OF assms]]
  by (simp add: conf_map_def conf_text_def flip: conf_pairs_split)

lemma curve_pairs_lookup:
  assumes "i < length ps"
  shows "map_of (curve_pairs ps) (''custom_temperature_'' @ show_nat (i + 1)) = Some (fst (ps ! i))"
    "map_of (curve_pairs ps) (''custom_pwm_'' @ show_nat (i + 1)) = Some (snd (ps ! i))"
  using assms by (simp_all add: distinct_curve_keys) (auto simp: curve_pairs_def intro!: bexI [of _ i])

lemma fixed_lookup: "map_of (fixed_pairs c) k = Some v \<Longrightarrow> map_of (fixed_pairs c @ ps) k = Some v"
  by (simp add: map_add_Some_iff)

lemma get_or_fixed: "map_of (fixed_pairs c) k = Some v \<Longrightarrow> get_or (map_of (fixed_pairs c @ ps)) k d = v"
  using fixed_lookup [of c k v ps] by (simp add: get_or_def)

lemma curve_point_text:
  assumes "config_wf c" "i < length (cc_curve c)"
  shows "curve_point (map_of (fixed_pairs c @ curve_pairs (cc_curve c))) i = cc_curve c ! i"
proof -
  have "map_of (fixed_pairs c) (''custom_temperature_'' @ show_nat (i + 1)) = None"
    "map_of (fixed_pairs c) (''custom_pwm_'' @ show_nat (i + 1)) = None"
    using fixed_keys(3) [of c "show_nat (i + 1)"] by (auto simp: map_of_eq_None_iff)
  then show ?thesis using curve_pairs_lookup [OF assms(2)]
    by (simp add: curve_point_def get_or_def map_add_def)
qed

lemma three: "length xs = 3 \<Longrightarrow> [xs ! 0, xs ! 1, xs ! 2] = xs"
  by (auto simp: numeral_3_eq_3 numeral_2_eq_2 length_Suc_conv)

lemma config_of_text:
  assumes "config_wf c"
  shows "config_of (conf_map (conf_text c)) = c"
proof -
  let ?m = "map_of (fixed_pairs c @ curve_pairs (cc_curve c))"
  have look: "map_of (fixed_pairs c) ''fan_always_on'' = Some (flag (cc_fan_always c))"
    "map_of (fixed_pairs c) ''fan_mode'' = Some (cc_fan_mode c)"
    "map_of (fixed_pairs c) ''fan_speed_percent'' = Some (cc_fan_speed c)"
    "map_of (fixed_pairs c) ''liquid_always_on'' = Some (flag (cc_liquid_always c))"
    "map_of (fixed_pairs c) ''liquid_level'' = Some (cc_liquid_level c)"
    "map_of (fixed_pairs c) ''custom_curve_count'' = Some (int (length (cc_curve c)))"
    by (simp_all add: fixed_pairs_def)
  have digit: "show_nat 1 = ''1''" "show_nat 2 = ''2''" "show_nat 3 = ''3''" by code_simp+
  have arr: "map_of (fixed_pairs c) (''temperature_'' @ show_nat (i + 1)) = Some (cc_temps c ! i)"
    "map_of (fixed_pairs c) (''hysteresis_'' @ show_nat (i + 1)) = Some (cc_hyst c ! i)" if "i \<in> {0, 1, 2}" for i
    using that digit by (auto simp: fixed_pairs_def numeral_2_eq_2 numeral_3_eq_3)
  have "map (\<lambda>i. get_or ?m (''temperature_'' @ show_nat (i + 1)) (cc_temps cool_default ! i)) [0, 1, 2] = [cc_temps c ! 0, cc_temps c ! 1, cc_temps c ! 2]"
    "map (\<lambda>i. get_or ?m (''hysteresis_'' @ show_nat (i + 1)) (cc_hyst cool_default ! i)) [0, 1, 2] = [cc_hyst c ! 0, cc_hyst c ! 1, cc_hyst c ! 2]"
    by (simp_all only: list.map get_or_fixed [OF arr(1)] get_or_fixed [OF arr(2)] insert_iff simp_thms)
  moreover have "[0..<3] = [0, 1, 2 :: nat]" by (simp add: upt_rec)
  moreover have "nat (clamp 2 8 (int (length (cc_curve c)))) = length (cc_curve c)"
    using assms by (auto simp: clamp_def config_wf_def)
  moreover have "map (curve_point ?m) [0..<length (cc_curve c)] = cc_curve c"
    using curve_point_text [OF assms] by (intro nth_equalityI) simp_all
  moreover have "clamp 1 2 (cc_liquid_level c) = cc_liquid_level c" using assms by (auto simp: clamp_def config_wf_def)
  moreover have "?m ''liquid_always_on'' = Some (flag (cc_liquid_always c))" "?m ''fan_mode'' = Some (cc_fan_mode c)"
    using fixed_lookup look by blast+
  ultimately show ?thesis
    using assms three [of "cc_temps c"] three [of "cc_hyst c"] flag_ok(2)
    by (simp add: config_of_def conf_map_text [OF assms] get_or_fixed [OF look(1)] get_or_fixed [OF look(3)]
        get_or_fixed [OF look(5)] get_or_fixed [OF look(6)] config_wf_def del: map_of_append) (simp add: get_or_def flag_ok)
qed

section \<open>Laws of the fan policy\<close>

lemma node_write_result:
  "node_write env n v s = (r, s') \<Longrightarrow>
   (r = Inr () \<and> s' = s\<lparr>co_nodes := (co_nodes s)(n \<mapsto> v)\<rparr>) \<or> (\<exists>e. r = Inl e) \<and> s' = s"
  by (auto simp: node_write_def split: option.splits)

lemma prepare_fan_ok:
  "prepare_fan env s = (Inr (), s') \<Longrightarrow> co_nodes s' NZoneMode = Some ''disabled'' \<and> co_override s' = co_override s"
  by (auto simp: prepare_fan_def andthen_def node_write_def split: if_splits option.splits sum.splits)

lemma fan_pwm_ok:
  assumes "fan_pwm env pwm s = (Inr (), s')"
  shows "co_nodes s' NPwm = Some (show_int (clamp 0 255 pwm)) \<and> co_nodes s' NZoneMode = Some ''disabled''
    \<and> co_override s' = co_override s
    \<and> (\<exists>text. ce_readback env (show_int (clamp 0 255 pwm)) = Inr text \<and> parse_i64 (trim text) = Some (clamp 0 255 pwm))"
proof -
  obtain s1 where p: "prepare_fan env s = (Inr (), s1)"
    using assms by (cases "prepare_fan env s") (auto simp: fan_pwm_def andthen_def split: sum.splits)
  show ?thesis using assms prepare_fan_ok [OF p]
    by (auto simp: fan_pwm_def andthen_def p node_write_def Let_def split: option.splits sum.splits if_splits)
qed

lemma restore_kernel_fan_ok:
  "restore_kernel_fan env s = (Inr (), s') \<Longrightarrow> co_nodes s' NZoneMode = Some ''enabled''"
  by (auto simp: restore_kernel_fan_def node_write_def Let_def split: if_splits option.splits)

section \<open>Properties\<close>

text \<open>
  The fan curve is monotone and in range.  For every curve that \<open>set_curve\<close> accepts, a
  readable temperature always yields a speed between 0 and 255, a higher temperature never a
  lower speed, and from 80 degrees on it is 255.
\<close>

theorem cooling_curve_monotone:
  assumes "read_curve [] points = Inr curve" "2 \<le> length points" "0 < t" "t \<le> t'"
  shows "\<exists>p p'. curve_pwm curve t = Some p \<and> curve_pwm curve t' = Some p' \<and> 0 \<le> p \<and> p \<le> p' \<and> p' \<le> 255
    \<and> (80 \<le> t' \<longrightarrow> p' = 255)"
proof -
  have v: "curve_valid curve" "curve \<noteq> []" using read_curve_valid [OF assms(1)] assms(2) by auto
  obtain x y ps where c: "curve = (x, y) # ps" using v(2) by (metis neq_Nil_conv surj_pair)
  have y: "0 \<le> y" using curve_valid_head [of x y ps] v(1) c by simp
  obtain p where p: "curve_pwm curve t = Some p" "y \<le> p" using curve_pwm_bounds [OF v assms(3)] c by auto
  obtain p' where p': "curve_pwm curve t' = Some p'" "p' \<le> 255" using curve_pwm_bounds [OF v, of t'] assms(3,4) by auto
  have "p \<le> p'" using curve_pwm_mono [OF v assms(3,4)] p p' by simp
  moreover have "80 \<le> t' \<longrightarrow> p' = 255" using p'(1) by (auto simp: curve_pwm_def)
  ultimately show ?thesis using p p' y by auto
qed

definition demo_points :: "json list" where
  "demo_points = map (\<lambda>(t, p). jobj [(''temperature'', jint t), (''pwm'', jint p)]) [(40, 0), (60, 128), (70, 255)]"

theorem cooling_curve_monotone_witness:
  "read_curve [] demo_points = Inr [(40, 0), (60, 128), (70, 255)] \<and> 2 \<le> length demo_points
   \<and> curve_pwm [(40, 0), (60, 128), (70, 255)] 50 = Some 64 \<and> curve_pwm [(40, 0), (60, 128), (70, 255)] 65 = Some 192
   \<and> (64 :: int) \<le> 192"
proof -
  have r: "read_curve [] demo_points = Inr [(40, 0), (60, 128), (70, 255)]" and l: "2 \<le> length demo_points"
    and v: "curve_pwm [(40, 0), (60, 128), (70, 255)] 50 = Some 64" "curve_pwm [(40, 0), (60, 128), (70, 255)] 65 = Some 192"
    by code_simp+
  show ?thesis using cooling_curve_monotone [OF r l, of 50 65] r l v by simp
qed

text \<open>
  C16: heat always wins.  Whenever the temperature is at least 80 degrees, or unreadable after
  that happened, a fan policy that reports success, whatever the configuration, has disabled
  the kernel's control, requested speed 255, read it back, and keeps the override.
\<close>

theorem cooling_overheat_full_speed:
  assumes "temperature env \<ge> 80 \<or> temperature env \<le> 0 \<and> co_override s" "apply_fan_recorded env c s = (Inr (), s')"
  shows "co_nodes s' NPwm = Some ''255'' \<and> co_nodes s' NZoneMode = Some ''disabled'' \<and> co_override s'
    \<and> (\<exists>text. ce_readback env ''255'' = Inr text \<and> parse_i64 (trim text) = Some 255)"
proof -
  obtain s1 where a: "apply_fan env c s = (Inr (), s1)" "co_nodes s' = co_nodes s1" "co_override s' = co_override s1"
    using assms(2) by (cases "apply_fan env c s"; cases "restore_kernel_fan env (snd (apply_fan env c s))")
      (auto simp: apply_fan_recorded_def Let_def split: sum.splits)
  obtain s2 where f: "fan_pwm env 255 s = (Inr (), s2)" "s1 = s2\<lparr>co_override := True\<rparr>"
    using a(1) assms(1) by (auto simp: apply_fan_def set_override_def Let_def split: sum.splits prod.splits)
  have "show_int (clamp 0 255 255) = ''255''" by code_simp
  then show ?thesis using fan_pwm_ok [OF f(1)] a f(2) by (simp add: clamp_def)
qed

definition cool_demo_env :: cool_env where
  "cool_demo_env = \<lparr>ce_zone = True, ce_fan = True, ce_low_speed = Inr False, ce_temp = Some ''81500'', ce_write_err = (\<lambda>_. None),
     ce_readback = (\<lambda>v. Inr v), ce_parse_err = [], ce_liquid_status = None, ce_vendor = (\<lambda>_ _. None), ce_save_err = None,
     ce_conf_exists = Inr True, ce_mc_state = None\<rparr>"

definition demo_cooling :: cooling where
  "demo_cooling = \<lparr>co_conf = None, co_nodes = Map.empty, co_override = False, co_stopping = False, co_revision = 0,
     co_handed_back = False, co_liquid_written = [], co_policy = (False, False, [])\<rparr>"

theorem cooling_overheat_full_speed_witness:
  "temperature cool_demo_env = 82
   \<and> co_nodes (snd (apply_fan_recorded cool_demo_env (cool_default\<lparr>cc_fan_always := True\<rparr>) demo_cooling)) NPwm = Some ''255''"
proof -
  let ?r = "apply_fan_recorded cool_demo_env (cool_default\<lparr>cc_fan_always := True\<rparr>) demo_cooling"
  have t: "temperature cool_demo_env = 82" by code_simp
  then have h: "temperature cool_demo_env \<ge> 80 \<or> temperature cool_demo_env \<le> 0 \<and> co_override demo_cooling" by simp
  have "fst ?r = Inr ()" by code_simp
  then have r: "?r = (Inr (), snd ?r)" by (metis prod.collapse)
  show ?thesis using cooling_overheat_full_speed [OF h r] t by blast
qed

text \<open>
  C35: a failing fan policy gives the fan back.  Whatever fails while a policy is applied, the
  reported error says whether the kernel's thermal control was restored, and when it says so
  the thermal zone was last set to \<open>enabled\<close>.
\<close>

theorem cooling_fails_safe:
  assumes "apply_fan_recorded env c s = (Inl e, s')"
  shows "(\<exists>a. e = a @ ''; kernel thermal control restored'') \<and> co_nodes s' NZoneMode = Some ''enabled''
    \<or> (\<exists>a r. e = a @ ''; kernel recovery failed: '' @ r)"
proof -
  obtain a s1 where "apply_fan env c s = (Inl a, s1)"
    using assms by (cases "apply_fan env c s") (auto simp: apply_fan_recorded_def Let_def split: sum.splits)
  then show ?thesis using assms restore_kernel_fan_ok [of env s1]
    by (cases "restore_kernel_fan env s1") (auto simp: apply_fan_recorded_def Let_def split: sum.splits)
qed

theorem cooling_fails_safe_witness:
  "fst (apply_fan_recorded (cool_demo_env\<lparr>ce_temp := None\<rparr>) cool_default demo_cooling)
     = Inl ''fan temperature unavailable; kernel thermal control restored''
   \<and> co_nodes (snd (apply_fan_recorded (cool_demo_env\<lparr>ce_temp := None\<rparr>) cool_default demo_cooling)) NZoneMode = Some ''enabled''"
proof -
  let ?r = "apply_fan_recorded (cool_demo_env\<lparr>ce_temp := None\<rparr>) cool_default demo_cooling"
  have f: "fst ?r = Inl ''fan temperature unavailable; kernel thermal control restored''" by code_simp
  then have r: "?r = (Inl ''fan temperature unavailable; kernel thermal control restored'', snd ?r)" by (metis prod.collapse)
  have n: "co_nodes (snd ?r) NZoneMode = Some ''enabled''" by code_simp
  show ?thesis using cooling_fails_safe [OF r] f n by blast
qed

text \<open>
  The configuration file is read back as it was written.  For every configuration with
  three thresholds, a pump level of one or two and a curve of two to eight points, loading the
  text that \<open>save\<close> writes gives the configuration again.
\<close>

theorem cooling_config_roundtrip:
  assumes "config_wf c"
  shows "cool_load (Some (conf_text c)) = c"
  using config_of_text [OF assms] by (simp add: cool_load_def)

theorem cooling_config_roundtrip_witness:
  "config_wf cool_default \<and> cool_load (Some (conf_text cool_default)) = cool_default"
proof -
  have "config_wf cool_default" by code_simp
  then show ?thesis using cooling_config_roundtrip by blast
qed

end
