(* ===== verification/Charge_Protection.thy ===== *)
theory Charge_Protection
  imports Json_Value
begin

text \<open>
  The long-charge protection of \<open>charge_protection.rs\<close>.  The battery driver is a parameter,
  a record of functions on its own state \<open>'k\<close>: the texts of its three nodes, a write to a
  node, 100 milliseconds of waiting, and the answer of the device manager on the bus.  Nothing
  is assumed about it: what the properties state about the device is what the code reads back.
\<close>

definition disabled_threshold_minutes :: int where "disabled_threshold_minutes = 71582"
definition default_threshold_minutes :: int where "default_threshold_minutes = 960"
definition long_charging_mode :: int where "long_charging_mode = 2"
definition zgd_policy :: int where "zgd_policy = 5"

record kernel_state =
  k_mode :: int
  k_threshold_minutes :: int
  k_debug :: int
  k_policy :: int

record 'k driver =
  dr_mode :: "'k \<Rightarrow> string option"
  dr_help :: "'k \<Rightarrow> string option"
  dr_policy :: "'k \<Rightarrow> string option"
  dr_write :: "string \<Rightarrow> string \<Rightarrow> 'k \<Rightarrow> string option \<times> 'k"
  dr_wait :: "'k \<Rightarrow> 'k"
  dr_bat_mode :: "'k \<Rightarrow> string + json"

record 'k charge =
  cp_driver :: 'k
  cp_conf :: "string option"
  cp_disabled :: bool
  cp_next_tick :: nat

section \<open>Reading the driver\<close>

fun find_map_opt :: "('a \<Rightarrow> 'b option) \<Rightarrow> 'a list \<Rightarrow> 'b option" where
  "find_map_opt f [] = None"
| "find_map_opt f (x # xs) = (case f x of Some y \<Rightarrow> Some y | None \<Rightarrow> find_map_opt f xs)"

definition help_value :: "string \<Rightarrow> string \<Rightarrow> string option" where
  "help_value help prefix =
     map_option (\<lambda>rest. case split_whitespace rest of [] \<Rightarrow> [] | w # _ \<Rightarrow> w)
       (find_map_opt (\<lambda>line. strip_prefix prefix (trim line)) (lines help))"

definition hex_digit :: "char \<Rightarrow> nat option" where
  "hex_digit c =
     (if is_ascii_digit c then Some (cval c - 48)
      else if 97 \<le> cval c \<and> cval c \<le> 102 then Some (cval c - 87)
      else if 65 \<le> cval c \<and> cval c \<le> 70 then Some (cval c - 55)
      else None)"

fun hex_nat :: "nat \<Rightarrow> string \<Rightarrow> nat option" where
  "hex_nat acc [] = Some acc"
| "hex_nat acc (c # cs) = (case hex_digit c of Some d \<Rightarrow> hex_nat (16 * acc + d) cs | None \<Rightarrow> None)"

text \<open>\<open>i64::from_str_radix(s, 16)\<close>.\<close>

definition parse_hex_i64 :: "string \<Rightarrow> int option" where
  "parse_hex_i64 s =
     (let (neg, ds) = (case s of c # cs \<Rightarrow> if c = CHR ''-'' then (True, cs) else if c = CHR ''+'' then (False, cs) else (False, s)
                       | [] \<Rightarrow> (False, []))
      in if ds = [] then None
         else case hex_nat 0 ds of None \<Rightarrow> None
           | Some n \<Rightarrow> let i = (if neg then - int n else int n) in if i64_min \<le> i \<and> i \<le> i64_max then Some i else None)"

definition cp_parse :: "string \<Rightarrow> string \<Rightarrow> string \<Rightarrow> kernel_state option" where
  "cp_parse mode help policy =
     (case parse_i64 (trim mode) of None \<Rightarrow> None
      | Some m \<Rightarrow>
        (case Option.bind (help_value help ''single_lcm_period is'') parse_i64 of None \<Rightarrow> None
         | Some t \<Rightarrow>
           (case Option.bind (help_value help ''customer_mode_dbg is'') parse_hex_i64 of None \<Rightarrow> None
            | Some d \<Rightarrow>
              (case parse_i64 (trim policy) of None \<Rightarrow> None
               | Some p \<Rightarrow> Some \<lparr>k_mode = m, k_threshold_minutes = t, k_debug = d, k_policy = p\<rparr>))))"

definition cp_read :: "'k driver \<Rightarrow> 'k \<Rightarrow> kernel_state option" where
  "cp_read d k =
     (case (dr_mode d k, dr_help d k, dr_policy d k) of
        (Some mode, Some help, Some policy) \<Rightarrow> cp_parse mode help policy
      | _ \<Rightarrow> None)"

fun settle_from :: "'k driver \<Rightarrow> (kernel_state \<Rightarrow> bool) \<Rightarrow> nat \<Rightarrow> 'k \<Rightarrow> kernel_state option \<times> 'k" where
  "settle_from d accept 0 k = (cp_read d k, k)"
| "settle_from d accept (Suc n) k =
     (let r = cp_read d k in
      if (case r of Some x \<Rightarrow> accept x | None \<Rightarrow> False) then (r, k)
      else settle_from d accept n (dr_wait d k))"

text \<open>Ten attempts, with a wait before every one but the first.\<close>

definition settle :: "'k driver \<Rightarrow> (kernel_state \<Rightarrow> bool) \<Rightarrow> 'k \<Rightarrow> kernel_state option \<times> 'k" where
  "settle d accept k = settle_from d accept 9 k"

section \<open>Changing the driver\<close>

definition release_hold :: "'k driver \<Rightarrow> kernel_state \<Rightarrow> 'k \<Rightarrow> (string + kernel_state) \<times> 'k" where
  "release_hold d kn k =
     (let other = (if k_policy kn = 0 then 1 else 0) in
      case dr_write d ''ui_chg_policy_mode'' (show_int other) k of
        (Some e, k1) \<Rightarrow> (Inl e, k1)
      | (None, k1) \<Rightarrow>
          let (restored, k2) = dr_write d ''ui_chg_policy_mode'' (show_int (k_policy kn)) k1;
              (after, k3) = settle d (\<lambda>x. k_mode x \<noteq> long_charging_mode \<and> k_policy x = k_policy kn) k2
          in case restored of
               Some e \<Rightarrow> (Inl e, k3)
             | None \<Rightarrow>
                 (case after of
                    Some x \<Rightarrow>
                      if k_policy x \<noteq> k_policy kn
                      then (Inl (''charge policy readback is '' @ show_int (k_policy x) @ '', expected '' @ show_int (k_policy kn)), k3)
                      else if k_mode x = long_charging_mode
                      then (Inl ''long-charge protection is still active after the reset'', k3)
                      else (Inr x, k3)
                  | None \<Rightarrow> (Inl ''charge protection state is unreadable'', k3)))"

definition set_threshold :: "'k driver \<Rightarrow> int \<Rightarrow> 'k \<Rightarrow> (string + kernel_state) \<times> 'k" where
  "set_threshold d minutes k =
     (case dr_write d ''customer_mode'' (''2 '' @ show_int minutes) k of
        (Some e, k1) \<Rightarrow> (Inl e, k1)
      | (None, k1) \<Rightarrow>
          (case settle d (\<lambda>x. k_threshold_minutes x = minutes) k1 of
             (Some x, k2) \<Rightarrow>
               if k_threshold_minutes x = minutes then (Inr x, k2)
               else (Inl ''long-charge threshold readback did not confirm the change'', k2)
           | (None, k2) \<Rightarrow> (Inl ''long-charge threshold readback did not confirm the change'', k2)))"

definition restore_default :: "'k driver \<Rightarrow> 'k \<Rightarrow> (string + kernel_state) \<times> 'k" where
  "restore_default d k =
     (case dr_write d ''customer_mode'' ''1 1'' k of
        (Some e, k1) \<Rightarrow> (Inl e, k1)
      | (None, k1) \<Rightarrow>
          (case settle d (\<lambda>x. k_debug x = 0) k1 of
             (Some x, k2) \<Rightarrow>
               if k_debug x = 0 then (Inr x, k2) else (Inl ''long-charge default readback did not confirm the change'', k2)
           | (None, k2) \<Rightarrow> (Inl ''long-charge default readback did not confirm the change'', k2)))"

definition bat_mode_of :: "json \<Rightarrow> int option" where
  "bat_mode_of v =
     (case jget v ''bat_mode'' of
        Some (JString mode) \<Rightarrow> parse_i64 (trim mode)
      | Some (JNumber n) \<Rightarrow> num_i64 n
      | _ \<Rightarrow> None)"

definition holding :: "'k driver \<Rightarrow> kernel_state \<Rightarrow> 'k \<Rightarrow> bool" where
  "holding d kn k \<longleftrightarrow>
     k_mode kn = long_charging_mode
     \<or> (case dr_bat_mode d k of
          Inl _ \<Rightarrow> False
        | Inr v \<Rightarrow> (case bat_mode_of v of Some m \<Rightarrow> m \<ge> long_charging_mode | None \<Rightarrow> False))"

definition enforce :: "'k driver \<Rightarrow> kernel_state \<Rightarrow> 'k \<Rightarrow> (string + kernel_state \<times> bool) \<times> 'k" where
  "enforce d kn k =
     (let held = holding d kn k;
          (r, k1) = (if k_debug kn = 0 \<or> k_threshold_minutes kn \<noteq> disabled_threshold_minutes
                     then set_threshold d disabled_threshold_minutes k else (Inr kn, k))
      in case r of Inl e \<Rightarrow> (Inl e, k1)
         | Inr kn1 \<Rightarrow>
             let release = (held \<and> k_policy kn1 \<noteq> zgd_policy) in
             if release
             then (case release_hold d kn1 k1 of (Inl e, k2) \<Rightarrow> (Inl e, k2) | (Inr kn2, k2) \<Rightarrow> (Inr (kn2, True), k2))
             else (Inr (kn1, False), k1))"

section \<open>The switch\<close>

definition conf_disabled :: "string option \<Rightarrow> bool" where
  "conf_disabled conf =
     (case conf of None \<Rightarrow> False | Some raw \<Rightarrow> list_ex (\<lambda>line. trim line = ''disabled=1'') (lines raw))"

definition cp_init :: "string option \<Rightarrow> 'k \<Rightarrow> 'k charge" where
  "cp_init conf k = \<lparr>cp_driver = k, cp_conf = conf, cp_disabled = conf_disabled conf, cp_next_tick = 0\<rparr>"

definition cp_conf_text :: "bool \<Rightarrow> string" where
  "cp_conf_text disabled = ''disabled='' @ show_int (if disabled then 1 else 0) @ [char_of (10 :: nat)]"

definition cp_save :: "string option \<Rightarrow> bool \<Rightarrow> 'k charge \<Rightarrow> string option \<times> 'k charge" where
  "cp_save io disabled s =
     (case io of Some e \<Rightarrow> (Some e, s) | None \<Rightarrow> (None, s\<lparr>cp_conf := Some (cp_conf_text disabled)\<rparr>))"

definition cp_status :: "kernel_state \<Rightarrow> bool \<Rightarrow> 'k charge \<Rightarrow> json_map" where
  "cp_status kn active s =
     fold (\<lambda>(k, v). map_insert k v)
       [(''supported'', JBool True), (''active'', JBool active), (''mode'', jint (k_mode kn)),
        (''disabled'', JBool (cp_disabled s)), (''threshold_minutes'', jint (k_threshold_minutes kn)),
        (''default_threshold_minutes'', jint default_threshold_minutes)] []"

definition cp_snapshot :: "'k driver \<Rightarrow> 'k charge \<Rightarrow> json option" where
  "cp_snapshot d s =
     map_option (\<lambda>kn. jobj [(''supported'', JBool True), (''disabled'', JBool (cp_disabled s)),
       (''threshold_minutes'', jint (k_threshold_minutes kn))]) (cp_read d (cp_driver s))"

definition cp_tick :: "'k driver \<Rightarrow> nat \<Rightarrow> 'k charge \<Rightarrow> 'k charge" where
  "cp_tick d now s =
     (if \<not> cp_disabled s \<or> now < cp_next_tick s then s
      else
        let s1 = s\<lparr>cp_next_tick := wadd64 now 30\<rparr> in
        case cp_read d (cp_driver s1) of None \<Rightarrow> s1
        | Some kn \<Rightarrow> s1\<lparr>cp_driver := snd (enforce d kn (cp_driver s1))\<rparr>)"

definition cp_release :: "'k driver \<Rightarrow> kernel_state \<Rightarrow> 'k charge \<Rightarrow> ((bool \<times> string) + json) \<times> 'k charge" where
  "cp_release d kn s =
     (if \<not> holding d kn (cp_driver s)
      then (Inr (JObject (map_insert ''released'' (JBool False) (cp_status kn False s))), s)
      else if k_policy kn = zgd_policy
      then (Inl (False, ''the stock ZGD charge policy is active; leave it in the stock UI''), s)
      else case release_hold d kn (cp_driver s) of
        (Inl e, k) \<Rightarrow> (Inl (False, e), s\<lparr>cp_driver := k\<rparr>)
      | (Inr after, k) \<Rightarrow>
          (Inr (JObject (map_insert ''verified'' (JBool True) (map_insert ''released'' (JBool True) (cp_status after False s)))),
           s\<lparr>cp_driver := k\<rparr>))"

fun wanted_switch :: "json option \<Rightarrow> (bool \<times> string) + bool" where
  "wanted_switch (Some (JBool v)) = Inr v"
| "wanted_switch (Some (JNumber n)) =
     (if num_i64 n = Some 0 \<or> num_i64 n = Some 1 then Inr (num_i64 n = Some 1)
      else Inl (True, ''disabled must be a boolean or 0/1''))"
| "wanted_switch (Some _) = Inl (True, ''disabled must be a boolean or 0/1'')"
| "wanted_switch None = Inl (True, ''missing parameter: disabled'')"

definition apply_switch :: "'k driver \<Rightarrow> bool \<Rightarrow> kernel_state \<Rightarrow> 'k \<Rightarrow> (string + kernel_state) \<times> 'k" where
  "apply_switch d wanted kn k =
     (if wanted then (case enforce d kn k of (Inl e, k1) \<Rightarrow> (Inl e, k1) | (Inr (after, _), k1) \<Rightarrow> (Inr after, k1))
      else if k_debug kn \<noteq> 0 then restore_default d k
      else (Inr kn, k))"

definition cp_set :: "'k driver \<Rightarrow> string option \<Rightarrow> json \<Rightarrow> kernel_state \<Rightarrow> 'k charge \<Rightarrow> ((bool \<times> string) + json) \<times> 'k charge" where
  "cp_set d io params kn s =
     (case wanted_switch (jget params ''disabled'') of
        Inl e \<Rightarrow> (Inl e, s)
      | Inr wanted \<Rightarrow>
          let changed = (wanted \<noteq> cp_disabled s) in
          case cp_save io wanted s of
            (Some e, s1) \<Rightarrow> (Inl (False, e), s1)
          | (None, s1) \<Rightarrow>
              let s2 = s1\<lparr>cp_disabled := wanted\<rparr> in
              case apply_switch d wanted kn (cp_driver s2) of
                (Inl e, k) \<Rightarrow> (Inl (False, e), s2\<lparr>cp_driver := k\<rparr>)
              | (Inr after, k) \<Rightarrow>
                  let s3 = s2\<lparr>cp_driver := k\<rparr>;
                      active = (\<not> wanted \<and> holding d after k)
                  in (Inr (JObject (map_insert ''verified'' (JBool True) (map_insert ''changed'' (JBool changed) (cp_status after active s3)))), s3))"

definition cp_execute ::
  "'k driver \<Rightarrow> string option \<Rightarrow> string \<Rightarrow> json \<Rightarrow> 'k charge \<Rightarrow> ((bool \<times> string) + json) \<times> 'k charge" where
  "cp_execute d io action params s =
     (case cp_read d (cp_driver s) of
        None \<Rightarrow>
          if action = ''battery.charge_protection.status''
          then (Inr (jobj [(''supported'', JBool False), (''disabled'', JBool (cp_disabled s))]), s)
          else (Inl (False, ''long-charge protection is not supported on this device''), s)
      | Some kn \<Rightarrow>
          if action = ''battery.charge_protection.status''
          then (Inr (JObject (cp_status kn (holding d kn (cp_driver s)) s)), s)
          else if action = ''battery.charge_protection.release'' then cp_release d kn s
          else if action = ''battery.charge_protection.set'' then cp_set d io params kn s
          else (Inl (True, ''unsupported action: '' @ action), s))"

section \<open>Laws\<close>

lemma settle_reads: "settle d accept k = (r, k') \<Longrightarrow> r = cp_read d k'"
proof -
  have "settle_from d accept n k = (r, k') \<Longrightarrow> r = cp_read d k'" for n
    by (induction n arbitrary: k) (auto simp: Let_def split: if_splits)
  then show "settle d accept k = (r, k') \<Longrightarrow> r = cp_read d k'" by (simp add: settle_def)
qed

lemma release_hold_verified:
  assumes "release_hold d kn k = (Inr x, k')"
  shows "cp_read d k' = Some x \<and> k_policy x = k_policy kn \<and> k_mode x \<noteq> long_charging_mode"
proof -
  let ?acc = "\<lambda>x. k_mode x \<noteq> long_charging_mode \<and> k_policy x = k_policy kn"
  obtain k2 where s: "settle d ?acc k2 = (Some x, k')" "k_policy x = k_policy kn" "k_mode x \<noteq> long_charging_mode"
    using assms by (auto simp: release_hold_def Let_def split: prod.splits option.splits if_splits)
  then show ?thesis using settle_reads [OF s(1)] by simp
qed

lemma set_threshold_verified:
  "set_threshold d minutes k = (Inr x, k') \<Longrightarrow> cp_read d k' = Some x \<and> k_threshold_minutes x = minutes"
  by (auto simp: set_threshold_def dest: settle_reads split: prod.splits option.splits if_splits)

lemma restore_default_verified:
  "restore_default d k = (Inr x, k') \<Longrightarrow> cp_read d k' = Some x \<and> k_debug x = 0"
  by (auto simp: restore_default_def dest: settle_reads split: prod.splits option.splits if_splits)

text \<open>After a successful enforcement the device reads back, and a hold was left when it could be.\<close>

lemma enforce_verified:
  assumes "enforce d kn k = (Inr (x, released), k')" "cp_read d k = Some kn"
  shows "cp_read d k' = Some x \<and> (released \<longrightarrow> k_mode x \<noteq> long_charging_mode)
    \<and> (\<not> released \<longrightarrow> k_threshold_minutes x = disabled_threshold_minutes)"
  using assms
  by (auto simp: enforce_def Let_def dest!: set_threshold_verified release_hold_verified
      split: if_splits sum.splits prod.splits)

lemma conf_roundtrip: "conf_disabled (Some (cp_conf_text b)) = b"
proof -
  have t: "conf_disabled (Some (cp_conf_text True)) = True" by code_simp
  have f: "conf_disabled (Some (cp_conf_text False)) = False" by code_simp
  show ?thesis using t f by (cases b) simp_all
qed

lemma apply_switch_verified:
  assumes "apply_switch d wanted kn k = (Inr x, k')" "cp_read d k = Some kn"
  shows "cp_read d k' = Some x
    \<and> (if wanted then k_threshold_minutes x = disabled_threshold_minutes \<or> k_mode x \<noteq> long_charging_mode
       else k_debug x = 0)"
proof (cases wanted)
  case True
  then obtain released where "enforce d kn k = (Inr (x, released), k')"
    using assms(1) by (auto simp: apply_switch_def split: prod.splits sum.splits)
  from enforce_verified [OF this assms(2)] True show ?thesis by auto
next
  case False
  then show ?thesis using assms by (auto simp: apply_switch_def dest: restore_default_verified split: if_splits)
qed

lemma cp_set_keeps:
  assumes "wanted_switch (jget params ''disabled'') = Inr wanted" "cp_set d None params kn s = (r, s')"
  shows "cp_disabled s' = wanted \<and> cp_conf s' = Some (cp_conf_text wanted) \<and>
    (\<forall>v. r = Inr v \<longrightarrow> (\<exists>x. apply_switch d wanted kn (cp_driver s) = (Inr x, cp_driver s')))"
  using assms by (auto simp: cp_set_def cp_save_def Let_def split: prod.splits sum.splits)

section \<open>A simulated battery driver\<close>

text \<open>
  A driver state of mode, period, debug flag and policy, with node texts in the format of the
  driver's own help text and the documented reaction to each write.
\<close>

definition demo_help :: "kernel_state \<Rightarrow> string" where
  "demo_help k =
     ''single_lcm_period is '' @ show_int (k_threshold_minutes k) @ '' minutes'' @ [char_of (10 :: nat)]
     @ ''customer_mode_dbg is '' @ show_int (k_debug k) @ [char_of (10 :: nat)]"

definition demo_write :: "string \<Rightarrow> string \<Rightarrow> kernel_state \<Rightarrow> string option \<times> kernel_state" where
  "demo_write name v k =
     (if name = ''customer_mode''
      then (if v = ''1 1'' then (None, k\<lparr>k_mode := 1, k_threshold_minutes := default_threshold_minutes, k_debug := 0\<rparr>)
            else case strip_prefix ''2 '' v of
              Some n \<Rightarrow> (case parse_i64 n of Some m \<Rightarrow> (None, k\<lparr>k_mode := 1, k_threshold_minutes := m, k_debug := 1\<rparr>)
                        | None \<Rightarrow> (Some ''invalid'', k))
            | None \<Rightarrow> (Some ''invalid'', k))
      else case parse_i64 v of Some p \<Rightarrow> (None, k\<lparr>k_mode := 1, k_policy := p\<rparr>) | None \<Rightarrow> (Some ''invalid'', k))"

definition demo_driver :: "kernel_state driver" where
  "demo_driver =
     \<lparr>dr_mode = (\<lambda>k. Some (show_int (k_mode k))), dr_help = (\<lambda>k. Some (demo_help k)),
      dr_policy = (\<lambda>k. Some (show_int (k_policy k))), dr_write = demo_write, dr_wait = (\<lambda>k. k),
      dr_bat_mode = (\<lambda>k. Inr (jobj [(''bat_mode'', jint (k_mode k))]))\<rparr>"

definition demo_held :: "kernel_state charge" where
  "demo_held = cp_init None \<lparr>k_mode = 2, k_threshold_minutes = 960, k_debug = 0, k_policy = 3\<rparr>"

section \<open>Properties\<close>

text \<open>
  C29: A valid \<open>battery.charge_protection.set\<close> on a device with the driver, whose settings file
  could be written, leaves the switch and its file at the wanted value whatever the driver does
  (so the 30-second tick tries again); and when the action answers success, the device read back
  as the answer says: with the protection disabled either the longest threshold is in force or
  the running hold was left, with it enabled the driver's debug override is off.
\<close>

theorem charge_switch_verified:
  assumes "cp_read d (cp_driver s) = Some kn"
    and "wanted_switch (jget params ''disabled'') = Inr wanted"
    and "cp_execute d None ''battery.charge_protection.set'' params s = (r, s')"
  shows "cp_disabled s' = wanted \<and> conf_disabled (cp_conf s') = wanted \<and>
    (\<forall>v. r = Inr v \<longrightarrow> (\<exists>x. cp_read d (cp_driver s') = Some x \<and>
       (if wanted then k_threshold_minutes x = disabled_threshold_minutes \<or> k_mode x \<noteq> long_charging_mode
        else k_debug x = 0)))"
proof -
  have "cp_set d None params kn s = (r, s')" using assms(1,3) by (simp add: cp_execute_def)
  note kept = cp_set_keeps [OF assms(2) this]
  show ?thesis using kept conf_roundtrip [of wanted] apply_switch_verified [OF _ assms(1), of wanted] by metis
qed

theorem charge_switch_verified_witness:
  "\<exists>r s'. cp_execute demo_driver None ''battery.charge_protection.set'' (jobj [(''disabled'', JBool True)]) demo_held = (r, s')
     \<and> cp_disabled s' \<and> conf_disabled (cp_conf s')"
proof -
  obtain r s' where e: "cp_execute demo_driver None ''battery.charge_protection.set'' (jobj [(''disabled'', JBool True)]) demo_held = (r, s')"
    by (cases "cp_execute demo_driver None ''battery.charge_protection.set'' (jobj [(''disabled'', JBool True)]) demo_held")
  have rd: "cp_read demo_driver (cp_driver demo_held) = Some \<lparr>k_mode = 2, k_threshold_minutes = 960, k_debug = 0, k_policy = 3\<rparr>"
    by code_simp
  have w: "wanted_switch (jget (jobj [(''disabled'', JBool True)]) ''disabled'') = Inr True" by code_simp
  show ?thesis using e charge_switch_verified [OF rd w e] by auto
qed

text \<open>
  A successful \<open>battery.charge_protection.release\<close> never changes the switch or its file.
  Either no hold was running, and then nothing was written to the driver, or the hold was left:
  the driver reads back with the charge policy it had before, and out of the long-charge mode.
  A device under the stock ZGD policy is refused and left untouched.
\<close>

theorem charge_release_restores_policy:
  assumes "cp_read d (cp_driver s) = Some kn"
    and "cp_execute d io ''battery.charge_protection.release'' params s = (r, s')"
  shows "cp_disabled s' = cp_disabled s \<and> cp_conf s' = cp_conf s \<and>
    (\<not> holding d kn (cp_driver s) \<or> k_policy kn = zgd_policy \<longrightarrow> s' = s) \<and>
    (\<forall>v. r = Inr v \<and> holding d kn (cp_driver s) \<longrightarrow>
       k_policy kn \<noteq> zgd_policy \<and>
       (\<exists>x. cp_read d (cp_driver s') = Some x \<and> k_policy x = k_policy kn \<and> k_mode x \<noteq> long_charging_mode))"
proof -
  have "cp_release d kn s = (r, s')" using assms by (simp add: cp_execute_def)
  then show ?thesis
    by (auto simp: cp_release_def dest!: release_hold_verified split: if_splits sum.splits prod.splits)
qed

theorem charge_release_restores_policy_witness:
  "\<exists>v s' x. cp_execute demo_driver None ''battery.charge_protection.release'' JNull demo_held = (Inr v, s')
     \<and> cp_read demo_driver (cp_driver s') = Some x \<and> k_policy x = 3 \<and> k_mode x \<noteq> long_charging_mode"
proof -
  let ?k = "\<lparr>k_mode = 2, k_threshold_minutes = 960, k_debug = 0, k_policy = 3\<rparr>"
  have ok: "case fst (cp_execute demo_driver None ''battery.charge_protection.release'' JNull demo_held) of Inl _ \<Rightarrow> False | Inr _ \<Rightarrow> True"
    by code_simp
  obtain v s' where e: "cp_execute demo_driver None ''battery.charge_protection.release'' JNull demo_held = (Inr v, s')"
    using ok by (cases "cp_execute demo_driver None ''battery.charge_protection.release'' JNull demo_held") (auto split: sum.splits)
  have rd: "cp_read demo_driver (cp_driver demo_held) = Some ?k" by code_simp
  have h: "holding demo_driver ?k (cp_driver demo_held)" by code_simp
  show ?thesis using e h charge_release_restores_policy [OF rd e] by auto
qed

end
