(* ===== verification/Rust_F64.thy ===== *)
theory Rust_F64
  imports Json_Value
begin

text \<open>
  The finite values of \<open>f64\<close>.  Every one is a multiple of the smallest positive value
  (2 to the power of -1074), so a value is the integer of its multiples; a rounded result keeps the 53 leading
  bits, ties to even.  JSON numbers are finite; a sum beyond the largest value would be infinite
  and compares here by its exact size, which the comparisons with small constants do not see.
\<close>

definition half_even :: "int \<Rightarrow> int \<Rightarrow> int" where
  "half_even n d =
     (let q = n div d; r = 2 * (n mod d)
      in if r < d \<or> (r = d \<and> even q) then q else q + 1)"

fun bit_length :: "nat \<Rightarrow> nat" where
  "bit_length n = (if n = 0 then 0 else Suc (bit_length (n div 2)))"

declare bit_length.simps [simp del]

definition f64_round :: "int \<Rightarrow> int \<Rightarrow> int" where
  "f64_round n d =
     (let k = bit_length (nat (\<bar>n\<bar> div d)) - 53
      in half_even n (d * 2 ^ k) * 2 ^ k)"

definition f64_one :: int where "f64_one = 2 ^ 1074"

text \<open>The constant as a literal, for evaluation.\<close>

lemma f64_one_code [code]:
  "f64_one = 202402253307310618352495346718917307049556649764142118356901358027430339567995346891960383701437124495187077864316811911389808737385793476867013399940738509921517424276566361364466907742093216341239767678472745068562007483424692698618103355649159556340810056512358769552333414615230502532186327508646006263307707741093494784"
  by (simp add: f64_one_def)

definition f64_of_int :: "int \<Rightarrow> int" where
  "f64_of_int i = f64_round i 1 * f64_one"

definition f64_of_bits :: "u64 \<Rightarrow> int" where
  "f64_of_bits b =
     (let e = unat (drop_bit 52 b) mod 2048;
          m = unat b mod 2 ^ 52;
          v = (if e = 0 then int m else int (2 ^ 52 + m) * 2 ^ (e - 1))
      in if unat b \<ge> 2 ^ 63 then - v else v)"

fun num_f64 :: "json_number \<Rightarrow> int" where
  "num_f64 (NInt i) = f64_of_int i"
| "num_f64 (NFloat b) = f64_of_bits b"

fun as_f64 :: "json \<Rightarrow> int option" where
  "as_f64 (JNumber n) = Some (num_f64 n)"
| "as_f64 _ = None"

definition f64_add :: "int \<Rightarrow> int \<Rightarrow> int" where
  "f64_add x y = f64_round (x + y) 1"

text \<open>Division by a positive integer that is itself a value.\<close>

definition f64_div :: "int \<Rightarrow> int \<Rightarrow> int" where
  "f64_div x d = f64_round x d"

lemma bit_length_less: "n < 2 ^ bit_length n"
proof (induction n rule: bit_length.induct)
  case (1 n)
  then show ?case by (cases "n = 0") (auto simp: bit_length.simps [of n])
qed

lemma bit_length_small: "n < 2 ^ k \<Longrightarrow> bit_length n \<le> k"
proof (induction k arbitrary: n)
  case (Suc k)
  then have "bit_length (n div 2) \<le> k" by auto
  then show ?case by (subst bit_length.simps) simp
qed (simp add: bit_length.simps)

text \<open>Integers of at most 53 bits are exact.\<close>

lemma f64_of_int_exact:
  assumes "\<bar>i\<bar> < 2 ^ 53"
  shows "f64_of_int i = i * f64_one"
proof -
  have "nat \<bar>i\<bar> < 2 ^ 53" using assms by (simp add: nat_less_iff)
  then have "bit_length (nat \<bar>i\<bar>) - 53 = 0" using bit_length_small [of "nat \<bar>i\<bar>" 53] by simp
  then show ?thesis by (simp add: f64_of_int_def f64_round_def half_even_def Let_def)
qed

text \<open>A value of at most 53 significant bits is not rounded.\<close>

lemma half_even_dvd: "0 < d \<Longrightarrow> d dvd n \<Longrightarrow> half_even n d * d = n"
  by (simp add: half_even_def Let_def)

lemma f64_round_exact:
  assumes "\<bar>c\<bar> < 2 ^ 53"
  shows "f64_round (c * 2 ^ m) 1 = c * 2 ^ m"
proof -
  let ?k = "bit_length (nat (\<bar>c * 2 ^ m\<bar> div 1)) - 53"
  have "\<bar>c * 2 ^ m\<bar> < 2 ^ (53 + m)" using assms by (simp add: abs_mult power_add)
  then have "nat (\<bar>c * 2 ^ m\<bar> div 1) < 2 ^ (53 + m)" by (simp add: nat_less_iff)
  then have "?k \<le> m" using bit_length_small by fastforce
  then have "2 ^ ?k dvd c * 2 ^ m" by (simp add: le_imp_power_dvd)
  then show ?thesis using half_even_dvd [of "2 ^ ?k" "c * 2 ^ m"] by (simp add: f64_round_def Let_def)
qed

end
