(* ===== verification/Ota.thy ===== *)
theory Ota
  imports Update_Status Auth Rust_F64
begin

text \<open>
  The self-update of \<open>ota.rs\<close>: configuration, the signed manifest, the check of the sources, the
  installation with its safety gates, and the retry state that survives restarts.

  What a call reads from outside is one record, \<open>ota_env\<close>: the version of the running daemon, the
  elapsed and the wall clock (which stand still within a call), the boot id, the state of the
  clock domain, the answers of the HTTP client, the outcome of file writes and of starting the
  installer, and the third-party functions: URL parser, JSON parser of the manifest, SHA-256, base64 and
  the signature check against the built-in key.
\<close>

section \<open>Data\<close>

record ota_config =
  oc_enabled :: bool
  oc_servers :: "string list"
  oc_sources :: "string list"

record artifact =
  ar_name :: string
  ar_size :: int
  ar_sha256 :: string

record manifest =
  mf_notes :: string
  mf_schema :: int
  mf_version :: string
  mf_tag :: string
  mf_published_at :: string
  mf_artifacts :: "(string \<times> artifact) list"

record ota_status =
  os_install_started_at :: int
  os_state :: string
  os_current_version :: string
  os_latest_version :: string
  os_source :: string
  os_progress :: nat
  os_error :: string
  os_last_check_at :: int
  os_last_success_at :: int
  os_next_retry_at :: int
  os_failure_count :: nat
  os_wait_reasons :: "string list"
  os_signature_verified :: bool

record candidate =
  ca_manifest :: manifest
  ca_base_url :: string

record retry_timer =
  rt_boot_id :: string
  rt_deadline_ms :: nat

record stored_status =
  so_status :: ota_status
  so_retry :: "retry_timer option"
  so_install_wait :: "retry_timer option"

record ota_view =
  ov_status :: ota_status
  ov_config :: ota_config
  ov_busy :: bool
  ov_candidate :: "(string \<times> manifest) option"

datatype http_response = HttpFailed string | HttpResponse nat "nat option" "(string + bytes) list"

record ota_env =
  oe_version :: string
  oe_now :: nat
  oe_wall :: int
  oe_clock :: "nat option"
  oe_boot :: "string option"
  oe_changing :: bool
  oe_generation :: nat
  oe_http :: "string \<Rightarrow> http_response"
  oe_write :: "string \<Rightarrow> string option"
  oe_remove_marker :: "string option"
  oe_spawn :: "string option"
  oe_url :: "string \<Rightarrow> url option"
  oe_manifest :: "bytes \<Rightarrow> manifest option"
  oe_sha :: "bytes \<Rightarrow> bytes"
  oe_base64 :: "string \<Rightarrow> bytes option"
  oe_signature :: "bytes \<Rightarrow> bytes \<Rightarrow> bool"
  oe_id :: "candidate \<Rightarrow> string"
  oe_dir :: string
  oe_install_dir_env :: string

text \<open>
  The files of the component are fields: the configuration, the stored status, the marker the
  installer leaves, and the two scripts.  \<open>o_started\<close> lists the installations that were started.
\<close>

record ota =
  o_config :: ota_config
  o_status :: ota_status
  o_candidate :: "candidate option"
  o_idle_since :: "nat option"
  o_idle_observed_at :: "nat option"
  o_clock_generation :: nat
  o_busy :: bool
  o_last_auto_check :: "nat option"
  o_retry_deadline :: "nat option"
  o_install_deadline :: "nat option"
  o_view :: "ota_view option"
  o_log :: status_log
  o_config_file :: "ota_config disk"
  o_state_file :: "stored_status disk"
  o_marker :: "string option"
  o_installer :: bytes
  o_wrapper :: string
  o_started :: "(bytes \<times> string) list"

section \<open>Constants and small functions\<close>

definition netdisk :: string where "netdisk = ''https://pan.ericsfj.com/sd/wN2PJUK8''"
definition github :: string where "github = ''https://github.com/33333s/zwrt-datad/releases/latest/download''"

definition seconds :: "nat \<Rightarrow> nat" where "seconds n = n * 10 ^ 9"
definition idle_for :: nat where "idle_for = seconds 120"
definition auto_check_every :: nat where "auto_check_every = seconds (6 * 3600)"
definition max_idle_observation_gap :: nat where "max_idle_observation_gap = seconds 90"

definition default_sources :: "string list" where
  "default_sources = [''custom'', ''github'', ''netdisk'']"

definition legacy_default_sources :: "string list" where
  "legacy_default_sources = [''custom'', ''netdisk'', ''github'']"

definition ota_config_default :: ota_config where
  "ota_config_default = \<lparr>oc_enabled = True, oc_servers = [], oc_sources = default_sources\<rparr>"

definition ota_status_default :: "string \<Rightarrow> ota_status" where
  "ota_status_default version =
     \<lparr>os_install_started_at = 0, os_state = ''idle'', os_current_version = version, os_latest_version = [],
      os_source = [], os_progress = 0, os_error = [], os_last_check_at = 0, os_last_success_at = 0,
      os_next_retry_at = 0, os_failure_count = 0, os_wait_reasons = [], os_signature_verified = False\<rparr>"

definition retry_delay :: "nat \<Rightarrow> nat" where
  "retry_delay failures =
     seconds (if failures = 1 then 3600 else if failures = 2 then 6 * 3600 else if failures = 3 then 24 * 3600 else 0)"

definition bare_source :: "string \<Rightarrow> string" where
  "bare_source s = trim_end_matches (CHR ''/'') (trim s)"

definition source_url :: "string \<Rightarrow> string \<Rightarrow> string" where
  "source_url base name = trim_end_matches (CHR ''/'') base @ ''/'' @ name"

definition source_name :: "string \<Rightarrow> string" where
  "source_name source =
     (let v = bare_source source in
      if v = [] then []
      else if v = ustr [0x7f51, 0x76d8] then ustr [0x7f51, 0x76d8]
      else if v = ''GitHub'' then ''GitHub''
      else if v = ustr [0x81ea, 0x5b9a, 0x4e49, 0x670d, 0x52a1, 0x5668] then ustr [0x81ea, 0x5b9a, 0x4e49, 0x670d, 0x52a1, 0x5668]
      else if v = netdisk then ustr [0x7f51, 0x76d8]
      else if v = github then ''GitHub''
      else ustr [0x81ea, 0x5b9a, 0x4e49, 0x670d, 0x52a1, 0x5668])"

definition version_values :: "string \<Rightarrow> nat list" where
  "version_values v =
     map (\<lambda>part. case parse_unsigned u64_max part of Some n \<Rightarrow> n | None \<Rightarrow> 0) (take 3 (split_on (CHR ''.'') v))"

definition newer :: "string \<Rightarrow> string \<Rightarrow> bool" where
  "newer left right \<longleftrightarrow> version_values right < version_values left"

definition has_update :: "ota_env \<Rightarrow> candidate \<Rightarrow> bool" where
  "has_update e c = newer (mf_version (ca_manifest c)) (oe_version e)"

definition json_at :: "json \<Rightarrow> string list \<Rightarrow> json option" where
  "json_at v path = foldl (\<lambda>cur key. Option.bind cur (\<lambda>j. jget j key)) (Some v) path"

definition number_at :: "json \<Rightarrow> string list \<Rightarrow> int option" where
  "number_at v path = Option.bind (json_at v path) as_f64"

definition bool_at :: "json \<Rightarrow> string list \<Rightarrow> bool" where
  "bool_at v path = (Option.bind (json_at v path) as_bool = Some True)"

definition hex_sha256 :: "ota_env \<Rightarrow> bytes \<Rightarrow> string" where
  "hex_sha256 e raw = hex_lower (oe_sha e raw)"

definition shell_quote :: "string \<Rightarrow> string" where
  "shell_quote v =
     [CHR 0x27] @ concat (map (\<lambda>c. if c = CHR 0x27 then [CHR 0x27, CHR 0x5C, CHR 0x27, CHR 0x27] else [c]) v) @ [CHR 0x27]"

section \<open>Validation\<close>

definition ota_server_ok :: "(string \<Rightarrow> url option) \<Rightarrow> string \<Rightarrow> bool" where
  "ota_server_ok up v =
     (case up v of None \<Rightarrow> False
      | Some u \<Rightarrow> url_scheme u = ''https'' \<and> url_host_str u \<noteq> None \<and> url_username u = [] \<and> url_password u = None
          \<and> url_query u = None \<and> url_fragment u = None)"

fun check_ota_servers :: "(string \<Rightarrow> url option) \<Rightarrow> nat \<Rightarrow> string list \<Rightarrow> string list \<Rightarrow> string option" where
  "check_ota_servers up index seen [] = None"
| "check_ota_servers up index seen (raw # rest) =
     (let v = bare_source raw in
      if \<not> ota_server_ok up v then Some (ustr [0x7b2c, 0x20] @ show_nat (index + 1) @ ustr [0x20, 0x4e2a, 0x66f4, 0x65b0, 0x670d, 0x52a1, 0x5668, 0x5fc5, 0x987b, 0x662f, 0x20, 0x48, 0x54, 0x54, 0x50, 0x53, 0x20, 0x5730, 0x5740])
      else if v \<in> set seen then Some (ustr [0x66f4, 0x65b0, 0x670d, 0x52a1, 0x5668, 0x5730, 0x5740, 0x91cd, 0x590d])
      else check_ota_servers up (index + 1) (v # seen) rest)"

fun check_ota_sources :: "string list \<Rightarrow> string list \<Rightarrow> string option" where
  "check_ota_sources seen [] = None"
| "check_ota_sources seen (source # rest) =
     (if source \<notin> {''custom'', ''netdisk'', ''github''} then Some (ustr [0x66f4, 0x65b0, 0x6765, 0x6e90, 0x65e0, 0x6548])
      else if source \<in> set seen then Some (ustr [0x66f4, 0x65b0, 0x6765, 0x6e90, 0x91cd, 0x590d])
      else check_ota_sources (source # seen) rest)"

text \<open>\<open>None\<close> is the \<open>Ok\<close> of \<open>validate_config\<close>, \<open>Some\<close> its error.\<close>

definition ota_validate_config :: "(string \<Rightarrow> url option) \<Rightarrow> ota_config \<Rightarrow> string option" where
  "ota_validate_config up c =
     (if length (oc_servers c) > 8 then Some (ustr [0x81ea, 0x5b9a, 0x4e49, 0x66f4, 0x65b0, 0x670d, 0x52a1, 0x5668, 0x6700, 0x591a, 0x20, 0x38, 0x20, 0x4e2a])
      else case check_ota_servers up 0 [] (oc_servers c) of
        Some e \<Rightarrow> Some e
      | None \<Rightarrow> if oc_sources c = [] then Some (ustr [0x81f3, 0x5c11, 0x9009, 0x62e9, 0x4e00, 0x4e2a, 0x66f4, 0x65b0, 0x6765, 0x6e90]) else check_ota_sources [] (oc_sources c))"

definition artifact_ok :: "artifact \<Rightarrow> bool" where
  "artifact_ok a \<longleftrightarrow>
     ar_size a > 0 \<and> length (ar_sha256 a) = 64
     \<and> list_all (\<lambda>c. is_ascii_hexdigit c \<and> \<not> is_ascii_upper c) (ar_sha256 a)
     \<and> ar_name a \<noteq> [] \<and> list_all (\<lambda>c. is_ascii_alphanumeric c \<or> c \<in> set ''._-'') (ar_name a)"

definition version_ok :: "string \<Rightarrow> bool" where
  "version_ok v \<longleftrightarrow>
     length (split_on (CHR ''.'') v) = 3
     \<and> list_all (\<lambda>part. part \<noteq> [] \<and> list_all is_ascii_digit part) (split_on (CHR ''.'') v)"

definition manifest_ok :: "manifest \<Rightarrow> bool" where
  "manifest_ok m \<longleftrightarrow>
     length (mf_notes m) \<le> 32768
     \<and> mf_schema m = 1 \<and> version_ok (mf_version m) \<and> mf_tag m = ''v'' @ mf_version m
     \<and> list_all (\<lambda>key. case map_of (mf_artifacts m) key of Some a \<Rightarrow> artifact_ok a | None \<Rightarrow> False) [''installer'', ''binary'']"

definition ota_verify :: "ota_env \<Rightarrow> bytes \<Rightarrow> bytes \<Rightarrow> bool" where
  "ota_verify e msg encoded \<longleftrightarrow>
     utf8_valid (bytes_str encoded)
     \<and> (case oe_base64 e (trim (bytes_str encoded)) of Some raw \<Rightarrow> oe_signature e msg raw | None \<Rightarrow> False)"

section \<open>Fetching\<close>

fun read_chunks :: "nat \<Rightarrow> bytes \<Rightarrow> (string + bytes) list \<Rightarrow> string + bytes" where
  "read_chunks mx acc [] = Inr acc"
| "read_chunks mx acc (Inl err # _) = Inl err"
| "read_chunks mx acc (Inr chunk # rest) =
     (if length acc + length chunk > mx then Inl (ustr [0x54cd, 0x5e94, 0x8fc7, 0x5927]) else read_chunks mx (acc @ chunk) rest)"

definition ota_fetch :: "ota_env \<Rightarrow> string \<Rightarrow> nat \<Rightarrow> string + bytes" where
  "ota_fetch e u mx =
     (case oe_http e u of
        HttpFailed err \<Rightarrow> Inl err
      | HttpResponse code len chunks \<Rightarrow>
          if \<not> (200 \<le> code \<and> code < 300) then Inl (''HTTP '' @ show_nat code)
          else if (case len of Some n \<Rightarrow> n > mx | None \<Rightarrow> False) then Inl (ustr [0x54cd, 0x5e94, 0x8fc7, 0x5927])
          else read_chunks mx [] chunks)"

section \<open>State\<close>

text \<open>\<open>Duration::saturating_sub\<close> is the subtraction of naturals, \<open>as_secs\<close> and \<open>as_millis\<close> divide.\<close>

definition remaining_seconds :: "nat \<Rightarrow> nat" where
  "remaining_seconds r = min (min (r div 10 ^ 9 + (if r mod 10 ^ 9 \<noteq> 0 then 1 else 0)) u64_max) (nat i64_max)"

definition sat_add_i64 :: "int \<Rightarrow> int \<Rightarrow> int" where
  "sat_add_i64 a b = max i64_min (min i64_max (a + b))"

definition display_status :: "ota_env \<Rightarrow> ota \<Rightarrow> ota_status" where
  "display_status e s =
     (let remaining = (case o_retry_deadline s of Some d \<Rightarrow> d - oe_now e | None \<Rightarrow> 0)
      in (o_status s)\<lparr>os_next_retry_at :=
           (if remaining = 0 then 0 else sat_add_i64 (oe_wall e) (int (remaining_seconds remaining)))\<rparr>)"

definition view_of :: "ota_env \<Rightarrow> ota \<Rightarrow> ota_view" where
  "view_of e s =
     \<lparr>ov_status = display_status e s, ov_config = o_config s,
      ov_busy = (o_busy s \<or> os_state (o_status s) = ''installing''),
      ov_candidate = (case o_candidate s of
          Some c \<Rightarrow> if has_update e c \<and> os_signature_verified (o_status s) then Some (oe_id e c, ca_manifest c) else None
        | None \<Rightarrow> None)\<rparr>"

definition ota_publish :: "ota_env \<Rightarrow> ota \<Rightarrow> ota" where
  "ota_publish e s = s\<lparr>o_view := Some (view_of e s)\<rparr>"

definition timer_of :: "ota_env \<Rightarrow> nat option \<Rightarrow> retry_timer option" where
  "timer_of e deadline =
     (case deadline of None \<Rightarrow> None
      | Some d \<Rightarrow>
          (case oe_boot e of None \<Rightarrow> None
           | Some b \<Rightarrow> if d div 10 ^ 6 \<le> u64_max then Some \<lparr>rt_boot_id = b, rt_deadline_ms = d div 10 ^ 6\<rparr> else None))"

definition save_status :: "ota_env \<Rightarrow> ota \<Rightarrow> ota" where
  "save_status e s0 =
     (let s = ota_publish e s0 in
      if oe_write e ''ota-state.json'' \<noteq> None then s
      else s\<lparr>o_state_file := Holds \<lparr>so_status = display_status e s, so_retry = timer_of e (o_retry_deadline s),
                                   so_install_wait = timer_of e (o_install_deadline s)\<rparr>\<rparr>)"

definition ota_update_code :: "ota_env \<Rightarrow> string \<Rightarrow> ota \<Rightarrow> ota" where
  "ota_update_code e code s = s\<lparr>o_log := status_update (oe_clock e) code (o_log s)\<rparr>"

definition publish_config :: "ota_env \<Rightarrow> ota \<Rightarrow> ota" where
  "publish_config e s =
     s\<lparr>o_log := status_set_config (oe_url e) (oc_enabled (o_config s))
          (list_ex (\<lambda>source. source = ''custom'') (oc_sources (o_config s))) (oc_servers (o_config s)) (o_log s)\<rparr>"

definition approved_candidate :: "ota_env \<Rightarrow> string \<Rightarrow> ota \<Rightarrow> string + candidate" where
  "approved_candidate e i s =
     (case o_candidate s of
        Some c \<Rightarrow> if has_update e c \<and> os_signature_verified (o_status s) \<and> oe_id e c = i then Inr c
                  else Inl (ustr [0x66f4, 0x65b0, 0x4fe1, 0x606f, 0x5df2, 0x5931, 0x6548, 0xff0c, 0x8bf7, 0x91cd, 0x65b0, 0x68c0, 0x67e5, 0x66f4, 0x65b0])
      | None \<Rightarrow> Inl (ustr [0x66f4, 0x65b0, 0x4fe1, 0x606f, 0x5df2, 0x5931, 0x6548, 0xff0c, 0x8bf7, 0x91cd, 0x65b0, 0x68c0, 0x67e5, 0x66f4, 0x65b0]))"

definition retry_ready :: "ota_env \<Rightarrow> ota \<Rightarrow> bool" where
  "retry_ready e s = (case o_retry_deadline s of None \<Rightarrow> True | Some d \<Rightarrow> oe_now e \<ge> d)"

section \<open>Loading\<close>

definition clear_progress :: "ota_status \<Rightarrow> ota_status" where
  "clear_progress st = st\<lparr>os_signature_verified := False, os_source := [], os_wait_reasons := [], os_progress := 0\<rparr>"

definition settle_interrupted :: "ota_status \<Rightarrow> ota_status" where
  "settle_interrupted st =
     (if os_state st \<in> {''checking'', ''downloading''}
      then (clear_progress st)\<lparr>os_state := ''error'', os_error := ustr [0x4e0a, 0x6b21, 0x66f4, 0x65b0, 0x68c0, 0x67e5, 0x6216, 0x4e0b, 0x8f7d, 0x88ab, 0x4e2d, 0x65ad, 0xff0c, 0x8bf7, 0x91cd, 0x65b0, 0x68c0, 0x67e5], os_latest_version := []\<rparr>
      else st)"

definition settle_superseded :: "string \<Rightarrow> ota_status \<Rightarrow> ota_status" where
  "settle_superseded version st =
     (if os_state st \<in> {''available'', ''waiting_idle''} \<and> os_latest_version st \<noteq> [] \<and> \<not> newer (os_latest_version st) version
      then (clear_progress st)\<lparr>os_state := ''idle'', os_latest_version := version, os_error := []\<rparr>
      else st)"

definition loaded_status :: "ota_env \<Rightarrow> stored_status \<Rightarrow> ota_status" where
  "loaded_status e stored =
     settle_superseded (oe_version e) (settle_interrupted
       ((so_status stored)\<lparr>os_current_version := oe_version e, os_source := source_name (os_source (so_status stored))\<rparr>))"

definition timer_valid :: "ota_env \<Rightarrow> nat \<Rightarrow> retry_timer option \<Rightarrow> nat option" where
  "timer_valid e limit t =
     (case t of None \<Rightarrow> None
      | Some timer \<Rightarrow>
          if oe_boot e = Some (rt_boot_id timer) \<and> rt_deadline_ms timer * 10 ^ 6 \<le> duration_add (oe_now e) limit
          then Some (rt_deadline_ms timer * 10 ^ 6) else None)"

definition loaded_retry :: "ota_env \<Rightarrow> ota_status \<Rightarrow> retry_timer option \<Rightarrow> nat option" where
  "loaded_retry e st timer =
     (let delay = retry_delay (os_failure_count st) in
      if delay = 0 \<or> os_state st = ''succeeded'' then None
      else case timer_valid e (seconds (24 * 3600)) timer of
        Some d \<Rightarrow> Some d
      | None \<Rightarrow> Some (duration_add (oe_now e) delay))"

definition loaded_install_wait :: "ota_env \<Rightarrow> ota_status \<Rightarrow> retry_timer option \<Rightarrow> nat option" where
  "loaded_install_wait e st timer =
     (if os_state st = ''installing''
      then Some (case timer_valid e (seconds 1800) timer of Some d \<Rightarrow> d | None \<Rightarrow> duration_add (oe_now e) (seconds 1800))
      else None)"

definition loaded_config :: "ota_env \<Rightarrow> ota_config disk \<Rightarrow> ota_config" where
  "loaded_config e f =
     (let c = (case f of Holds c \<Rightarrow> if ota_validate_config (oe_url e) c = None then c else ota_config_default
                       | _ \<Rightarrow> ota_config_default)
      in if oc_sources c = legacy_default_sources then c\<lparr>oc_sources := default_sources\<rparr> else c)"

definition ota_load ::
  "ota_env \<Rightarrow> ota_config disk \<Rightarrow> stored_status disk \<Rightarrow> string option \<Rightarrow> bytes \<Rightarrow> string \<Rightarrow> status_log \<Rightarrow> ota" where
  "ota_load e cf sf marker installer wrapper lg =
     (let stored = (case sf of Holds x \<Rightarrow> x
                    | _ \<Rightarrow> \<lparr>so_status = ota_status_default (oe_version e), so_retry = None, so_install_wait = None\<rparr>);
          st = loaded_status e stored;
          s = ota_publish e (publish_config e
                \<lparr>o_config = loaded_config e cf, o_status = st, o_candidate = None, o_idle_since = None,
                 o_idle_observed_at = None, o_clock_generation = oe_generation e, o_busy = False,
                 o_last_auto_check = None, o_retry_deadline = loaded_retry e st (so_retry stored),
                 o_install_deadline = loaded_install_wait e st (so_install_wait stored), o_view = None, o_log = lg,
                 o_config_file = cf, o_state_file = sf, o_marker = marker, o_installer = installer,
                 o_wrapper = wrapper, o_started = []\<rparr>)
      in if o_retry_deadline s \<noteq> None \<or> o_install_deadline s \<noteq> None then save_status e s else s)"

section \<open>Requests\<close>

definition begin_update :: "ota_env \<Rightarrow> ota \<Rightarrow> (string + unit) \<times> ota" where
  "begin_update e s =
     (if oe_changing e then (Inl (ustr [0x7cfb, 0x7edf, 0x65f6, 0x95f4, 0x6b63, 0x5728, 0x5207, 0x6362, 0xff0c, 0x8bf7, 0x7a0d, 0x540e, 0x91cd, 0x8bd5]), s)
      else if o_busy s \<or> os_state (o_status s) = ''installing'' then (Inl (ustr [0x66f4, 0x65b0, 0x4efb, 0x52a1, 0x6b63, 0x5728, 0x8fd0, 0x884c]), s)
      else (Inr (), save_status e (s\<lparr>o_busy := True, o_status := (o_status s)\<lparr>os_state := ''checking'', os_error := []\<rparr>\<rparr>)))"

definition finish_update :: "ota_env \<Rightarrow> ota \<Rightarrow> ota" where
  "finish_update e s = ota_publish e (s\<lparr>o_busy := False\<rparr>)"

definition update_config :: "ota_env \<Rightarrow> ota_config \<Rightarrow> ota \<Rightarrow> (string + ota_config) \<times> ota" where
  "update_config e config s =
     (if o_busy s \<or> os_state (o_status s) = ''installing'' then (Inl ''update_in_progress'', s)
      else case ota_validate_config (oe_url e) config of Some err \<Rightarrow> (Inl err, s)
      | None \<Rightarrow>
          let c = config\<lparr>oc_servers := map bare_source (oc_servers config)\<rparr> in
          case oe_write e ''ota.json'' of Some err \<Rightarrow> (Inl err, s)
          | None \<Rightarrow>
              let s1 = publish_config e (s\<lparr>o_config_file := Holds c, o_config := c\<rparr>);
                  s2 = s1\<lparr>o_candidate := None,
                          o_status := (clear_progress (o_status s1))\<lparr>os_latest_version := [], os_state := ''idle'', os_error := []\<rparr>\<rparr>
              in (Inr c, save_status e s2))"

definition set_auto_update :: "ota_env \<Rightarrow> bool \<Rightarrow> ota \<Rightarrow> (string + bool) \<times> ota" where
  "set_auto_update e enabled s =
     (case update_config e ((o_config s)\<lparr>oc_enabled := enabled\<rparr>) s of
        (Inl err, s1) \<Rightarrow> (Inl err, s1)
      | (Inr _, s1) \<Rightarrow>
          (case o_config_file s1 of
             Holds stored \<Rightarrow> if oc_enabled stored \<noteq> enabled \<or> oc_enabled (o_config s1) \<noteq> enabled
                             then (Inl ''ota_config_readback_failed'', s1) else (Inr enabled, s1)
           | _ \<Rightarrow> (Inl ''ota_config_readback_failed'', s1)))"

fun dedup_nonempty :: "string list \<Rightarrow> string list \<Rightarrow> string list" where
  "dedup_nonempty seen [] = []"
| "dedup_nonempty seen (v # vs) =
     (if v \<noteq> [] \<and> v \<notin> set seen then v # dedup_nonempty (v # seen) vs else dedup_nonempty seen vs)"

definition ota_servers :: "ota_config \<Rightarrow> string list" where
  "ota_servers c =
     dedup_nonempty [] (map bare_source (concat (map (\<lambda>source.
       if source = ''custom'' then oc_servers c
       else if source = ''netdisk'' then [netdisk]
       else if source = ''github'' then [github] else []) (oc_sources c))))"

definition ota_fail :: "ota_env \<Rightarrow> candidate option \<Rightarrow> string \<Rightarrow> ota \<Rightarrow> ota" where
  "ota_fail e cand err s =
     (let n = min (os_failure_count (o_status s) + 1) 255;
          delay = retry_delay n;
          s1 = s\<lparr>o_status := (o_status s)\<lparr>os_state := (if delay = 0 then ''blocked'' else ''error''), os_error := err,
                                          os_failure_count := n\<rparr>,
                 o_retry_deadline := (if delay = 0 then None else Some (duration_add (oe_now e) delay))\<rparr>;
          s2 = s1\<lparr>o_status := (o_status s1)\<lparr>os_next_retry_at := os_next_retry_at (display_status e s1)\<rparr>\<rparr>;
          s3 = (case cand of None \<Rightarrow> s2
                | Some c \<Rightarrow> s2\<lparr>o_status := (o_status s2)\<lparr>os_latest_version := mf_version (ca_manifest c),
                                                         os_source := source_name (ca_base_url c)\<rparr>\<rparr>)
      in save_status e s3)"

definition reconcile_install_result :: "ota_env \<Rightarrow> ota \<Rightarrow> ota" where
  "reconcile_install_result e s =
     (case o_marker s of
        None \<Rightarrow>
          if os_state (o_status s) = ''installing'' \<and> (case o_install_deadline s of Some d \<Rightarrow> oe_now e \<ge> d | None \<Rightarrow> False)
          then ota_fail e None ''Installation result not confirmed; check device logs'' s else s
      | Some v \<Rightarrow>
          let s1 = s\<lparr>o_marker := (if oe_remove_marker e = None then None else Some v)\<rparr> in
          save_status e
            (if trim v = ''success'' \<and> os_latest_version (o_status s1) = oe_version e
             then (ota_update_code e ''succeeded'' s1)
                  \<lparr>o_status := (o_status s1)\<lparr>os_state := ''succeeded'', os_current_version := oe_version e, os_progress := 100,
                      os_last_success_at := oe_wall e, os_error := [], os_wait_reasons := [], os_failure_count := 0,
                      os_next_retry_at := 0\<rparr>,
                   o_install_deadline := None, o_retry_deadline := None\<rparr>
             else (ota_update_code e ''install_failed'' s1)
                  \<lparr>o_status := (o_status s1)\<lparr>os_state := ''error'', os_error := ustr [0x5b89, 0x88c5, 0x5668, 0x6267, 0x884c, 0x5931, 0x8d25, 0xff0c, 0x5df2, 0x7531, 0x5b89, 0x88c5, 0x5668, 0x56de, 0x6eda],
                      os_failure_count := min (os_failure_count (o_status s1) + 1) 255\<rparr>\<rparr>))"

definition begin_requested_update :: "ota_env \<Rightarrow> ota \<Rightarrow> (string + unit) \<times> ota" where
  "begin_requested_update e s = begin_update e (reconcile_install_result e s)"

section \<open>Checking the sources\<close>

record check_acc =
  ch_signature_failed :: bool
  ch_verified :: bool
  ch_errors :: "string list"
  ch_current :: "candidate option"

datatype source_answer = SourceFailed string | SourceBadSignature | SourceBadManifest | SourceManifest manifest

definition ask_source :: "ota_env \<Rightarrow> string \<Rightarrow> source_answer" where
  "ask_source e base =
     (case ota_fetch e (source_url base ''update.json'') (2 ^ 20) of
        Inl err \<Rightarrow> SourceFailed err
      | Inr raw \<Rightarrow>
          (case ota_fetch e (source_url base ''update.json.sig'') 4096 of
             Inl err \<Rightarrow> SourceFailed err
           | Inr encoded \<Rightarrow>
               if \<not> ota_verify e raw encoded then SourceBadSignature
               else (case oe_manifest e raw of
                       Some m \<Rightarrow> if manifest_ok m then SourceManifest m else SourceBadManifest
                     | None \<Rightarrow> SourceBadManifest)))"

definition note_error :: "string \<Rightarrow> string \<Rightarrow> check_acc \<Rightarrow> check_acc" where
  "note_error base err a = a\<lparr>ch_errors := ch_errors a @ [base @ '': '' @ err]\<rparr>"

text \<open>The loop over the sources; it ends with the first newer candidate.  The log is threaded along.\<close>

fun check_sources ::
  "ota_env \<Rightarrow> string list \<Rightarrow> check_acc \<Rightarrow> status_log \<Rightarrow> candidate option \<times> check_acc \<times> status_log" where
  "check_sources e [] a lg = (None, a, lg)"
| "check_sources e (base # rest) a lg =
     (case ask_source e base of
        SourceFailed err \<Rightarrow> check_sources e rest (note_error base err a) lg
      | SourceBadSignature \<Rightarrow>
          check_sources e rest (note_error base (ustr [0x7b7e, 0x540d, 0x6821, 0x9a8c, 0x5931, 0x8d25]) (a\<lparr>ch_signature_failed := True\<rparr>)) lg
      | SourceBadManifest \<Rightarrow> check_sources e rest (note_error base (ustr [0x6e05, 0x5355, 0x65e0, 0x6548]) a) lg
      | SourceManifest m \<Rightarrow>
          let a1 = a\<lparr>ch_verified := True\<rparr>;
              lg1 = (if ch_verified a then lg else status_update (oe_clock e) ''signature_verified'' lg);
              c = \<lparr>ca_manifest = m, ca_base_url = base\<rparr>
          in if has_update e c then (Some c, a1, lg1)
             else check_sources e rest
               (if (case ch_current a1 of None \<Rightarrow> True
                    | Some cur \<Rightarrow> newer (mf_version (ca_manifest c)) (mf_version (ca_manifest cur)))
                then a1\<lparr>ch_current := Some c\<rparr> else a1) lg1)"

fun join_errors :: "string list \<Rightarrow> string" where
  "join_errors [] = []"
| "join_errors [x] = x"
| "join_errors (x # y # ys) = x @ ''; '' @ join_errors (y # ys)"

definition found_candidate :: "ota_env \<Rightarrow> string \<Rightarrow> string \<Rightarrow> candidate \<Rightarrow> ota \<Rightarrow> ota" where
  "found_candidate e state latest c s =
     save_status e (s\<lparr>o_status := (o_status s)\<lparr>os_latest_version := latest, os_source := source_name (ca_base_url c),
         os_signature_verified := True, os_wait_reasons := [], os_state := state\<rparr>, o_candidate := Some c\<rparr>)"

definition ota_check :: "ota_env \<Rightarrow> ota \<Rightarrow> (string + candidate) \<times> ota" where
  "ota_check e s =
     (if os_state (o_status s) = ''installing'' then (Inl ''update_in_progress'', s)
      else if oe_changing e then (Inl (ustr [0x7cfb, 0x7edf, 0x65f6, 0x95f4, 0x6b63, 0x5728, 0x5207, 0x6362, 0xff0c, 0x8bf7, 0x7a0d, 0x540e, 0x91cd, 0x8bd5]), s)
      else
        let s1 = ota_update_code e ''checking'' (save_status e
              (s\<lparr>o_status := (clear_progress (o_status s))\<lparr>os_state := ''checking'', os_error := [], os_latest_version := [],
                   os_last_check_at := oe_wall e\<rparr>, o_candidate := None\<rparr>));
            (found, a, lg) = check_sources e (ota_servers (o_config s1))
              \<lparr>ch_signature_failed = False, ch_verified = False, ch_errors = [], ch_current = None\<rparr> (o_log s1);
            s2 = s1\<lparr>o_log := lg\<rparr>
        in case found of
             Some c \<Rightarrow> (Inr c, found_candidate e ''available'' (mf_version (ca_manifest c)) c s2)
           | None \<Rightarrow>
               (case ch_current a of
                  Some c \<Rightarrow>
                    let latest = (if newer (oe_version e) (mf_version (ca_manifest c)) then oe_version e
                                  else mf_version (ca_manifest c))
                    in (Inr c, ota_update_code e ''idle'' (found_candidate e ''idle'' latest c s2))
                | None \<Rightarrow>
                    let s3 = ota_update_code e (if ch_signature_failed a then ''signature_failed'' else ''failed'') s2;
                        err = ustr [0x6240, 0x6709, 0x66f4, 0x65b0, 0x670d, 0x52a1, 0x5668, 0x5747, 0x4e0d, 0x53ef, 0x7528, 0x6216, 0x7b7e, 0x540d, 0x65e0, 0x6548, 0x3a, 0x20] @ join_errors (ch_errors a)
                    in (Inl err, save_status e (s3\<lparr>o_status := (o_status s3)\<lparr>os_state := ''error'', os_error := err,
                          os_signature_verified := False\<rparr>\<rparr>))))"

section \<open>Installing\<close>

definition f64_const :: "int \<Rightarrow> int" where "f64_const i = i * f64_one"

definition below :: "int option \<Rightarrow> (int \<Rightarrow> bool) \<Rightarrow> bool" where
  "below v test = (case v of Some x \<Rightarrow> test x | None \<Rightarrow> False)"

definition first_some :: "'a option \<Rightarrow> 'a option \<Rightarrow> 'a option" where
  "first_some a b = (case a of Some x \<Rightarrow> Some x | None \<Rightarrow> b)"

definition device_reasons :: "json \<Rightarrow> string list" where
  "device_reasons snap =
     (let absent = (number_at snap [''battery'', ''online''] = Some 0);
          battery = (if absent then None
            else first_some (number_at snap [''battery'', ''percent'']) (number_at snap [''system'', ''battery_percent'']))
      in (if below battery (\<lambda>v. v \<le> f64_const 10) then [ustr [0x7535, 0x91cf, 0x5fc5, 0x987b, 0x9ad8, 0x4e8e, 0x20, 0x31, 0x30, 0x25]] else [])
       @ (if below (number_at snap [''runtime'', ''storage'', ''available'']) (\<lambda>v. v < f64_const (64 * 1024 * 1024))
          then [ustr [0x53ef, 0x7528, 0x5b58, 0x50a8, 0x4e0d, 0x8db3, 0x20, 0x36, 0x34, 0x20, 0x4d, 0x69, 0x42]] else []))"

definition activity_reasons :: "json \<Rightarrow> string list" where
  "activity_reasons snap =
     (let cpu = first_some (map_option (\<lambda>v. f64_div v 10) (number_at snap [''runtime'', ''cpu_usage_tenths'']))
                  (number_at snap [''system'', ''cpu_usage'']);
          rx = (case number_at snap [''runtime'', ''throughput'', ''rx_bps''] of Some v \<Rightarrow> v | None \<Rightarrow> 0);
          tx = (case number_at snap [''runtime'', ''throughput'', ''tx_bps''] of Some v \<Rightarrow> v | None \<Rightarrow> 0)
      in (if bool_at snap [''neighbor'', ''enabled''] \<or> bool_at snap [''neighbor'', ''collector_running'']
          then [ustr [0x8bf7, 0x5148, 0x5173, 0x95ed, 0x90bb, 0x533a, 0x91c7, 0x96c6]] else [])
       @ (if below cpu (\<lambda>v. v \<ge> f64_const 60) then [ustr [0x43, 0x50, 0x55, 0x20, 0x5360, 0x7528, 0x9700, 0x4f4e, 0x4e8e, 0x20, 0x36, 0x30, 0x25]] else [])
       @ (if f64_add rx tx \<ge> f64_const (1024 * 1024) then [ustr [0x4e0a, 0x4e0b, 0x884c, 0x9700, 0x4f4e, 0x4e8e, 0x20, 0x31, 0x20, 0x4d, 0x69, 0x42, 0x2f, 0x73]] else []))"

definition observe_clock_generation :: "nat \<Rightarrow> ota \<Rightarrow> ota" where
  "observe_clock_generation g s =
     (if o_clock_generation s \<noteq> g
      then s\<lparr>o_clock_generation := g, o_idle_since := None, o_idle_observed_at := None\<rparr> else s)"

text \<open>The observation of an idle device: a gap in the observations starts the period again.\<close>

definition observe_idle :: "nat \<Rightarrow> ota \<Rightarrow> string list \<times> ota" where
  "observe_idle observed s =
     (let since = (if (case o_idle_observed_at s of Some lst \<Rightarrow> observed - lst > max_idle_observation_gap | None \<Rightarrow> False)
                   then None else o_idle_since s);
          begun = (case since of Some f \<Rightarrow> f | None \<Rightarrow> observed)
      in (if observed - begun < idle_for then [ustr [0x8bbe, 0x5907, 0x9700, 0x8fde, 0x7eed, 0x7a7a, 0x95f2, 0x20, 0x32, 0x20, 0x5206, 0x949f]] else [],
          s\<lparr>o_idle_observed_at := Some observed, o_idle_since := Some begun\<rparr>))"

definition ota_safety :: "ota_env \<Rightarrow> json \<Rightarrow> bool \<Rightarrow> ota \<Rightarrow> string list \<times> ota" where
  "ota_safety e snap manual s0 =
     (let s1 = observe_clock_generation (oe_generation e) s0;
          s = (if oe_changing e then s1\<lparr>o_idle_since := None, o_idle_observed_at := None\<rparr> else s1);
          reasons = (if oe_changing e then [ustr [0x7cfb, 0x7edf, 0x65f6, 0x95f4, 0x6b63, 0x5728, 0x5207, 0x6362]] else []) @ device_reasons snap
      in if manual then (reasons, s)
         else
           let all = reasons @ activity_reasons snap in
           if all = [] then observe_idle (oe_now e) s
           else (all, s\<lparr>o_idle_since := None, o_idle_observed_at := None\<rparr>))"

fun join_reasons :: "string list \<Rightarrow> string" where
  "join_reasons [] = []"
| "join_reasons [x] = x"
| "join_reasons (x # y # ys) = x @ ustr [0x3001] @ join_reasons (y # ys)"

definition waiting_prefix :: string where "waiting_prefix = ustr [0x7b49, 0x5f85, 0x5b89, 0x88c5, 0x6761, 0x4ef6, 0x3a]"

definition in_dir :: "ota_env \<Rightarrow> string \<Rightarrow> string" where "in_dir e name = oe_dir e @ ''/'' @ name"

definition newline :: string where "newline = [char_of (10 :: nat)]"

definition wrapper_script :: "ota_env \<Rightarrow> string \<Rightarrow> string" where
  "wrapper_script e binary_url =
     (let marker = shell_quote (in_dir e ''ota-install-result'') in
      ''#!/bin/sh'' @ newline @ ''sleep 2'' @ newline @ ''rm -f '' @ marker @ newline
      @ ''if '' @ oe_install_dir_env e @ ''DATAD_DOWNLOAD_URL='' @ shell_quote binary_url
      @ '' sh '' @ shell_quote (in_dir e ''ota-installer.sh'') @ '' >'' @ shell_quote (in_dir e ''ota-result.log'')
      @ '' 2>&1; then value=success; else value=failed; fi'' @ newline
      @ ''printf '' @ [CHR 0x27] @ ''%s'' @ [CHR 0x5C] @ ''n'' @ [CHR 0x27] @ '' '' @ [CHR 0x22] @ ''$value'' @ [CHR 0x22]
      @ '' >'' @ marker @ ''.tmp'' @ newline @ ''mv -f '' @ marker @ ''.tmp '' @ marker @ newline)"

text \<open>The installation after the safety gates, up to the start of the wrapper script.\<close>

definition install_files :: "ota_env \<Rightarrow> candidate \<Rightarrow> artifact \<Rightarrow> bytes \<Rightarrow> ota \<Rightarrow> (string + unit) \<times> ota" where
  "install_files e c installer raw s =
     (if hex_sha256 e raw \<noteq> ar_sha256 installer then (Inl (ustr [0x5b89, 0x88c5, 0x5668, 0x20, 0x53, 0x48, 0x41, 0x2d, 0x32, 0x35, 0x36, 0x20, 0x6821, 0x9a8c, 0x5931, 0x8d25]), ota_update_code e ''download_failed'' s)
      else case oe_write e ''ota-installer.sh'' of
        Some err \<Rightarrow> (Inl err, ota_update_code e ''install_failed'' s)
      | None \<Rightarrow>
          let s1 = s\<lparr>o_installer := raw\<rparr> in
          case map_of (mf_artifacts (ca_manifest c)) ''binary'' of None \<Rightarrow> (Inl (ustr [0x7f3a, 0x5c11, 0x4e8c, 0x8fdb, 0x5236]), s1)
          | Some binary \<Rightarrow>
              let script = wrapper_script e (source_url (ca_base_url c) (ar_name binary)) in
              case oe_write e ''ota-run.sh'' of
                Some err \<Rightarrow> (Inl err, ota_update_code e ''install_failed'' s1)
              | None \<Rightarrow>
                  let s2 = s1\<lparr>o_wrapper := script\<rparr> in
                  if o_marker s2 \<noteq> None \<and> oe_remove_marker e \<noteq> None then (Inl (the (oe_remove_marker e)), s2)
                  else
                    let s3 = s2\<lparr>o_marker := None,
                                o_status := (o_status s2)\<lparr>os_latest_version := mf_version (ca_manifest c), os_state := ''installing'',
                                    os_progress := 95, os_install_started_at := oe_wall e\<rparr>,
                                o_install_deadline := Some (duration_add (oe_now e) (seconds 1800))\<rparr>;
                        s4 = ota_update_code e ''installing'' (save_status e s3)
                    in case oe_spawn e of
                         Some err \<Rightarrow> (Inl err, ota_update_code e ''install_failed'' s4)
                       | None \<Rightarrow> (Inr (), ota_update_code e ''restarting'' (s4\<lparr>o_started := o_started s4 @ [(o_installer s4, o_wrapper s4)]\<rparr>)))"

definition ota_install :: "ota_env \<Rightarrow> candidate \<Rightarrow> json \<Rightarrow> bool \<Rightarrow> ota \<Rightarrow> (string + unit) \<times> ota" where
  "ota_install e c snap manual s0 =
     (let (reasons, s) = ota_safety e snap manual s0 in
      if reasons \<noteq> []
      then (Inl (waiting_prefix @ '' '' @ join_reasons reasons),
            save_status e (s\<lparr>o_status := (o_status s)\<lparr>os_state := ''waiting_idle'', os_wait_reasons := reasons\<rparr>\<rparr>))
      else case map_of (mf_artifacts (ca_manifest c)) ''installer'' of None \<Rightarrow> (Inl (ustr [0x7f3a, 0x5c11, 0x5b89, 0x88c5, 0x5668]), s)
      | Some installer \<Rightarrow>
          let s1 = ota_update_code e ''downloading'' (save_status e
                (s\<lparr>o_status := (o_status s)\<lparr>os_state := ''downloading'', os_progress := 5, os_wait_reasons := []\<rparr>\<rparr>))
          in case ota_fetch e (source_url (ca_base_url c) (ar_name installer)) (16 * 2 ^ 20) of
               Inl err \<Rightarrow> (Inl err, ota_update_code e ''download_failed'' s1)
             | Inr raw \<Rightarrow> install_files e c installer raw s1)"

section \<open>Automatic updates\<close>

definition auto_candidate :: "ota_env \<Rightarrow> ota \<Rightarrow> candidate option" where
  "auto_candidate e s =
     (if \<not> oc_enabled (o_config s) \<or> o_busy s \<or> os_state (o_status s) = ''installing'' \<or> \<not> retry_ready e s \<or> oe_changing e
      then None
      else if os_state (o_status s) = ''blocked''
              \<and> (case o_candidate s of Some c \<Rightarrow> mf_version (ca_manifest c) = os_latest_version (o_status s) | None \<Rightarrow> False)
      then None
      else case o_candidate s of None \<Rightarrow> None | Some c \<Rightarrow> if newer (mf_version (ca_manifest c)) (oe_version e) then Some c else None)"

definition should_auto_check :: "ota_env \<Rightarrow> ota \<Rightarrow> bool" where
  "should_auto_check e s \<longleftrightarrow>
     oc_enabled (o_config s) \<and> \<not> o_busy s \<and> os_state (o_status s) \<noteq> ''installing'' \<and> retry_ready e s \<and> \<not> oe_changing e
     \<and> (o_candidate s = None
        \<or> (case o_last_auto_check s of None \<Rightarrow> True | Some lst \<Rightarrow> oe_now e - lst \<ge> auto_check_every))"

definition mark_auto_check :: "ota_env \<Rightarrow> ota \<Rightarrow> ota" where
  "mark_auto_check e s = s\<lparr>o_last_auto_check := Some (oe_now e)\<rparr>"

definition auto_check :: "ota_env \<Rightarrow> ota \<Rightarrow> ota" where
  "auto_check e s =
     (if \<not> should_auto_check e s then s
      else case begin_update e s of
        (Inl _, s1) \<Rightarrow> s1
      | (Inr _, s1) \<Rightarrow> finish_update e (snd (ota_check e (mark_auto_check e s1))))"

definition auto_install :: "ota_env \<Rightarrow> json \<Rightarrow> ota \<Rightarrow> ota" where
  "auto_install e snap s =
     (case auto_candidate e s of None \<Rightarrow> s
      | Some c \<Rightarrow>
          (case begin_update e s of
             (Inl _, s1) \<Rightarrow> s1
           | (Inr _, s1) \<Rightarrow>
               (case ota_install e c snap False s1 of
                  (Inr _, s2) \<Rightarrow> finish_update e s2
                | (Inl err, s2) \<Rightarrow>
                    finish_update e (if starts_with waiting_prefix err then s2 else ota_fail e (Some c) err s2))))"

definition ota_tick :: "ota_env \<Rightarrow> bool \<Rightarrow> json \<Rightarrow> ota \<Rightarrow> ota" where
  "ota_tick e auto snap s0 =
     (let s = reconcile_install_result e s0 in
      if \<not> auto then s else auto_install e snap (auto_check e s))"

section \<open>Start and the switch of the panel\<close>

definition ota_start ::
  "ota_env \<Rightarrow> ota_config disk \<Rightarrow> stored_status disk \<Rightarrow> string option \<Rightarrow> bytes \<Rightarrow> string \<Rightarrow> status_log \<Rightarrow> ota" where
  "ota_start e cf sf marker installer wrapper lg =
     reconcile_install_result e (ota_load e cf sf marker installer wrapper lg)"

definition panel_ota_set :: "ota_env \<Rightarrow> bool \<Rightarrow> ota \<Rightarrow> (string + bool) \<times> ota" where
  "panel_ota_set e enabled s =
     (if o_busy s then (Inl ''update_in_progress'', s) else set_auto_update e enabled s)"

end
