(* ===== verification/Ota_Laws.thy ===== *)
theory Ota_Laws
  imports Ota
begin

text \<open>
  The laws of the updater: what an installation rests on, the pause after failures across restarts,
  and the observed idleness before an automatic installation.
\<close>

section \<open>Numbers and versions\<close>

lemma f64_add_const:
  assumes "\<bar>i + j\<bar> < 2 ^ 53"
  shows "f64_add (f64_const i) (f64_const j) = f64_const (i + j)"
  using f64_round_exact [OF assms, of 1074] by (simp add: f64_add_def f64_const_def f64_one_def distrib_right)

lemma newer_irrefl: "\<not> newer v v"
  by (simp add: newer_def)

lemma newer_trans: "newer a b \<Longrightarrow> newer b c \<Longrightarrow> newer a c"
  by (simp add: newer_def)

section \<open>Only what was signed is installed\<close>

text \<open>The functions and the version that stay the same through the life of a process.\<close>

definition same_process :: "ota_env \<Rightarrow> ota_env \<Rightarrow> bool" where
  "same_process p e \<longleftrightarrow>
     oe_version e = oe_version p \<and> oe_base64 e = oe_base64 p \<and> oe_signature e = oe_signature p
     \<and> oe_manifest e = oe_manifest p \<and> oe_sha e = oe_sha p"

definition vouched :: "ota_env \<Rightarrow> candidate \<Rightarrow> bool" where
  "vouched p c \<longleftrightarrow>
     (\<exists>raw encoded. ota_verify p raw encoded \<and> oe_manifest p raw = Some (ca_manifest c)) \<and> manifest_ok (ca_manifest c)"

definition genuine :: "ota_env \<Rightarrow> bytes \<times> string \<Rightarrow> bool" where
  "genuine p inst \<longleftrightarrow>
     (\<exists>c a. vouched p c \<and> newer (mf_version (ca_manifest c)) (oe_version p)
        \<and> map_of (mf_artifacts (ca_manifest c)) ''installer'' = Some a \<and> hex_sha256 p (fst inst) = ar_sha256 a)"

definition ota_inv :: "ota_env \<Rightarrow> ota \<Rightarrow> bool" where
  "ota_inv p s \<longleftrightarrow>
     (\<forall>c. o_candidate s = Some c \<longrightarrow> vouched p c) \<and> list_all (genuine p) (o_started s)"

lemmas ota_saving = save_status_def ota_publish_def ota_update_code_def publish_config_def finish_update_def found_candidate_def Let_def

lemma inv_saving [simp]:
  "ota_inv p (save_status e s) = ota_inv p s"
  "ota_inv p (ota_publish e s) = ota_inv p s"
  "ota_inv p (ota_update_code e code s) = ota_inv p s"
  "ota_inv p (publish_config e s) = ota_inv p s"
  "ota_inv p (finish_update e s) = ota_inv p s"
  by (simp_all add: ota_inv_def ota_saving)

lemma inv_fields [simp]:
  "ota_inv p (s\<lparr>o_status := st\<rparr>) = ota_inv p s"
  "ota_inv p (s\<lparr>o_busy := b\<rparr>) = ota_inv p s"
  "ota_inv p (s\<lparr>o_log := lg\<rparr>) = ota_inv p s"
  "ota_inv p (s\<lparr>o_marker := m\<rparr>) = ota_inv p s"
  "ota_inv p (s\<lparr>o_idle_since := i\<rparr>) = ota_inv p s"
  "ota_inv p (s\<lparr>o_idle_observed_at := i\<rparr>) = ota_inv p s"
  "ota_inv p (s\<lparr>o_clock_generation := g\<rparr>) = ota_inv p s"
  "ota_inv p (s\<lparr>o_last_auto_check := l\<rparr>) = ota_inv p s"
  "ota_inv p (s\<lparr>o_retry_deadline := d\<rparr>) = ota_inv p s"
  "ota_inv p (s\<lparr>o_install_deadline := d\<rparr>) = ota_inv p s"
  "ota_inv p (s\<lparr>o_config := cf\<rparr>) = ota_inv p s"
  "ota_inv p (s\<lparr>o_config_file := ff\<rparr>) = ota_inv p s"
  "ota_inv p (s\<lparr>o_installer := ib\<rparr>) = ota_inv p s"
  "ota_inv p (s\<lparr>o_wrapper := w\<rparr>) = ota_inv p s"
  by (simp_all add: ota_inv_def)

lemma inv_no_candidate: "ota_inv p s \<Longrightarrow> ota_inv p (s\<lparr>o_candidate := None\<rparr>)"
  by (simp add: ota_inv_def)

lemma fail_inv [simp]: "ota_inv p (ota_fail e c err s) = ota_inv p s"
  by (cases c) (simp_all add: ota_fail_def Let_def)

lemma reconcile_inv [simp]: "ota_inv p (reconcile_install_result e s) = ota_inv p s"
  by (simp add: reconcile_install_result_def Let_def split: option.split)

lemma begin_inv [simp]: "ota_inv p (snd (begin_update e s)) = ota_inv p s"
  by (simp add: begin_update_def)

lemma safety_inv [simp]: "ota_inv p (snd (ota_safety e snap manual s)) = ota_inv p s"
  by (simp add: ota_safety_def observe_idle_def observe_clock_generation_def Let_def)

lemma verify_same: "same_process p e \<Longrightarrow> ota_verify e raw encoded = ota_verify p raw encoded"
  unfolding same_process_def ota_verify_def by presburger

lemma ask_source_vouched:
  assumes "same_process p e" "ask_source e base = SourceManifest m"
  shows "vouched p \<lparr>ca_manifest = m, ca_base_url = base\<rparr>"
  using assms(2) verify_same [OF assms(1)] assms(1)
  by (auto simp: ask_source_def vouched_def same_process_def split: sum.splits if_splits option.splits)

text \<open>What the loop over the sources guarantees of its outcome.\<close>

definition check_outcome :: "ota_env \<Rightarrow> ota_env \<Rightarrow> candidate option \<times> check_acc \<times> status_log \<Rightarrow> bool" where
  "check_outcome p e r \<longleftrightarrow>
     (\<forall>c. fst r = Some c \<longrightarrow> vouched p c \<and> has_update e c) \<and> (\<forall>c. ch_current (fst (snd r)) = Some c \<longrightarrow> vouched p c)"

lemma check_sources_vouched:
  assumes "same_process p e" "\<forall>c. ch_current a = Some c \<longrightarrow> vouched p c"
  shows "check_outcome p e (check_sources e bs a lg)"
  using assms
proof (induction e bs a lg rule: check_sources.induct)
  case (1 e a lg)
  then show ?case by (simp add: check_outcome_def)
next
  case (2 e base rest a lg)
  show ?case
  proof (cases "ask_source e base")
    case (SourceManifest m)
    note v = ask_source_vouched [OF 2(5) SourceManifest]
    show ?thesis
    proof (cases "has_update e \<lparr>ca_manifest = m, ca_base_url = base\<rparr>")
      case True
      then show ?thesis using SourceManifest v 2(6) by (simp add: Let_def check_outcome_def)
    next
      case False
      show ?thesis using SourceManifest v False 2(5,6) 2(4) [OF SourceManifest refl refl refl False] by (simp add: Let_def)
    qed
  qed (use 2 in \<open>simp_all add: note_error_def\<close>)
qed

definition no_answers :: check_acc where
  "no_answers = \<lparr>ch_signature_failed = False, ch_verified = False, ch_errors = [], ch_current = None\<rparr>"

lemma found_inv: "ota_inv p s \<Longrightarrow> vouched p c \<Longrightarrow> ota_inv p (found_candidate e state latest c s)"
  by (simp add: found_candidate_def) (simp add: ota_inv_def)

lemma check_run:
  assumes "same_process p e" "check_sources e bs no_answers lg = (found, a, lg')"
  shows "\<And>c. found = Some c \<Longrightarrow> vouched p c" "\<And>c. ch_current a = Some c \<Longrightarrow> vouched p c"
  using check_sources_vouched [OF assms(1), of no_answers bs lg] assms(2) by (simp_all add: check_outcome_def no_answers_def)

lemma check_vouched:
  assumes "same_process p e" "ota_check e s = (Inr c, s')"
  shows "vouched p c"
  using assms(2) check_run [OF assms(1)] unfolding ota_check_def no_answers_def [symmetric]
  by (auto simp: Let_def split: if_splits option.splits prod.splits)

lemma check_inv:
  assumes "same_process p e" "ota_inv p s" "ota_check e s = (r, s')"
  shows "ota_inv p s'"
proof -
  let ?s1 = "ota_update_code e ''checking'' (save_status e
              (s\<lparr>o_status := (clear_progress (o_status s))\<lparr>os_state := ''checking'', os_error := [], os_latest_version := [],
                   os_last_check_at := oe_wall e\<rparr>, o_candidate := None\<rparr>))"
  obtain found a lg where run: "check_sources e (ota_servers (o_config ?s1)) no_answers (o_log ?s1) = (found, a, lg)"
    by (metis prod_cases3)
  have s1: "ota_inv p (?s1\<lparr>o_log := lg\<rparr>)" using assms(2) by (simp add: inv_no_candidate)
  show ?thesis
    using assms(3) run check_run [OF assms(1) run] s1 assms(2) unfolding ota_check_def no_answers_def [symmetric]
    by (auto simp: Let_def found_inv split: if_splits option.splits)
qed

lemma install_files_inv:
  assumes "same_process p e" "vouched p c" "has_update e c" "ota_inv p s"
    and "map_of (mf_artifacts (ca_manifest c)) ''installer'' = Some a"
  shows "ota_inv p (snd (install_files e c a raw s))"
proof -
  have "genuine p (raw, w)" if "hex_sha256 e raw = ar_sha256 a" for w
    using assms that unfolding genuine_def has_update_def hex_sha256_def same_process_def by fastforce
  then show ?thesis using assms(4)
    by (auto simp: install_files_def Let_def split: option.split) (simp_all add: ota_inv_def ota_saving)
qed

lemma install_inv:
  assumes "same_process p e" "vouched p c" "has_update e c" "ota_inv p s"
  shows "ota_inv p (snd (ota_install e c snap manual s))"
proof -
  obtain reasons s1 where q: "ota_safety e snap manual s = (reasons, s1)" by fastforce
  then have "ota_inv p s1" using assms(4) safety_inv [of p e snap manual s] by simp
  then show ?thesis using q install_files_inv [OF assms(1-3)]
    by (auto simp: ota_install_def Let_def split: option.split sum.split)
qed

lemma update_config_inv [simp]: "ota_inv p s \<Longrightarrow> ota_inv p (snd (update_config e cf s))"
  by (auto simp: update_config_def Let_def inv_no_candidate split: option.split)

lemma set_auto_same: "snd (set_auto_update e on s) = snd (update_config e ((o_config s)\<lparr>oc_enabled := on\<rparr>) s)"
  by (auto simp: set_auto_update_def split: prod.split sum.split disk.split)

lemma set_auto_inv: "ota_inv p s \<Longrightarrow> ota_inv p (snd (set_auto_update e on s))"
  by (simp add: set_auto_same)

lemma begin_pair: "begin_update e s = (r, s1) \<Longrightarrow> ota_inv p s1 = ota_inv p s"
  by (metis begin_inv snd_conv)

lemma auto_check_inv:
  assumes "same_process p e" "ota_inv p s"
  shows "ota_inv p (auto_check e s)"
proof (cases "begin_update e s")
  case (Pair r s1)
  have "ota_inv p (snd (ota_check e (mark_auto_check e s1)))"
    using check_inv [OF assms(1), of "mark_auto_check e s1"] begin_pair [OF Pair, of p] assms(2)
    by (simp add: mark_auto_check_def) (metis prod.collapse)
  then show ?thesis using Pair begin_pair [OF Pair, of p] assms(2) by (simp add: auto_check_def split: sum.split)
qed

lemma auto_install_inv:
  assumes "same_process p e" "ota_inv p s"
  shows "ota_inv p (auto_install e snap s)"
proof (cases "auto_candidate e s")
  case (Some c)
  then have c: "vouched p c" "has_update e c" using assms(2)
    by (auto simp: auto_candidate_def ota_inv_def has_update_def split: if_splits option.splits)
  obtain r s1 where b: "begin_update e s = (r, s1)" by fastforce
  have "ota_inv p (snd (ota_install e c snap False s1))"
    using install_inv [OF assms(1) c] begin_pair [OF b, of p] assms(2) by simp
  then show ?thesis using Some b begin_pair [OF b, of p] assms(2)
    by (auto simp: auto_install_def split: sum.split prod.split)
qed (simp add: auto_install_def assms(2))

lemma install_pair_inv:
  assumes "same_process p e" "vouched p c" "has_update e c" "ota_inv p s" "ota_install e c snap manual s = (r, s1)"
  shows "ota_inv p s1"
  using install_inv [OF assms(1-4), of snap manual] assms(5) by simp

lemma requested_inv: "begin_requested_update e s = (r, s1) \<Longrightarrow> ota_inv p s1 = ota_inv p s"
  by (metis begin_requested_update_def begin_pair reconcile_inv)

lemma same_update: "same_process p e \<Longrightarrow> has_update e c = newer (mf_version (ca_manifest c)) (oe_version p)"
  by (simp add: same_process_def has_update_def)

lemma load_inv: "ota_inv p (ota_load e cf sf marker installer wrapper lg)"
proof -
  have "ota_inv p s" if "o_candidate s = None" "o_started s = []" for s using that by (simp add: ota_inv_def)
  then show ?thesis by (simp add: ota_load_def Let_def)
qed

lemma install_started:
  assumes "\<not> oe_changing e" "device_reasons snap = []"
    and "map_of (mf_artifacts (ca_manifest c)) ''installer'' = Some a" "map_of (mf_artifacts (ca_manifest c)) ''binary'' = Some b"
    and "ota_fetch e (source_url (ca_base_url c) (ar_name a)) (16 * 2 ^ 20) = Inr raw" "hex_sha256 e raw = ar_sha256 a"
    and "\<forall>f. oe_write e f = None" "oe_remove_marker e = None" "oe_spawn e = None"
  obtains s1 where "ota_install e c snap True s = (Inr (), s1)"
    "o_started s1 = o_started s @ [(raw, wrapper_script e (source_url (ca_base_url c) (ar_name b)))]"
    "os_state (o_status s1) = ''installing''" "os_latest_version (o_status s1) = mf_version (ca_manifest c)"
    "o_install_deadline s1 = Some (duration_add (oe_now e) (seconds 1800))"
  using that assms
  by (simp add: ota_install_def ota_safety_def install_files_def observe_clock_generation_def ota_saving)

text \<open>What saving and publishing leave alone.\<close>

lemma saved_fields [simp]:
  "o_started (save_status e s) = o_started s" "o_config (save_status e s) = o_config s" "o_status (save_status e s) = o_status s"
  "o_marker (save_status e s) = o_marker s" "o_retry_deadline (save_status e s) = o_retry_deadline s"
  "o_started (ota_update_code e code s) = o_started s" "o_config (ota_update_code e code s) = o_config s"
  "o_installer (save_status e s) = o_installer s" "o_installer (ota_update_code e code s) = o_installer s"
  "o_started (found_candidate e st latest c s) = o_started s"
  by (simp_all add: ota_saving)

lemma started_kept [simp]:
  "o_started (finish_update e s) = o_started s" "o_started (ota_publish e s) = o_started s"
  "o_started (ota_fail e c err s) = o_started s" "o_started (reconcile_install_result e s) = o_started s"
  "o_started (snd (begin_update e s)) = o_started s" "o_started (snd (ota_safety e snap manual s)) = o_started s"
  by (simp_all add: finish_update_def ota_publish_def ota_fail_def reconcile_install_result_def begin_update_def ota_safety_def
      observe_idle_def observe_clock_generation_def Let_def split: option.split)

lemma check_started: "ota_check e s = (r, s1) \<Longrightarrow> o_started s1 = o_started s"
  by (auto simp: ota_check_def Let_def split: if_splits option.splits prod.splits)

lemma install_grows:
  assumes "ota_install e c snap manual s = (r, s1)"
  shows "o_started s1 = o_started s \<or> (\<exists>a raw script. map_of (mf_artifacts (ca_manifest c)) ''installer'' = Some a
    \<and> hex_sha256 e raw = ar_sha256 a \<and> o_started s1 = o_started s @ [(raw, script)])"
proof -
  obtain reasons s0 where q: "ota_safety e snap manual s = (reasons, s0)" by fastforce
  then have "o_started s0 = o_started s" using started_kept(6) [of e snap manual s] by simp
  then show ?thesis using assms q
    by (auto simp: ota_install_def install_files_def Let_def split: if_splits option.splits sum.splits)
qed

text \<open>A source that offers nothing newer is passed over.\<close>

definition offers_newer :: "ota_env \<Rightarrow> string \<Rightarrow> bool" where
  "offers_newer e base =
     (case ask_source e base of SourceManifest m \<Rightarrow> newer (mf_version m) (oe_version e) | _ \<Rightarrow> False)"

lemma check_sources_first:
  assumes "ask_source e base = SourceManifest m" "newer (mf_version m) (oe_version e)" "\<forall>b\<in>set pre. \<not> offers_newer e b"
  shows "fst (check_sources e (pre @ base # post) a lg) = Some \<lparr>ca_manifest = m, ca_base_url = base\<rparr>"
  using assms(3)
proof (induction pre arbitrary: a lg)
  case Nil
  then show ?case using assms(1,2) by (simp add: Let_def has_update_def)
next
  case (Cons b pre)
  then show ?case by (cases "ask_source e b") (auto simp: Let_def has_update_def offers_newer_def)
qed

lemma check_finds:
  assumes "ask_source e base = SourceManifest m" "newer (mf_version m) (oe_version e)" "\<forall>b\<in>set pre. \<not> offers_newer e b"
    and "ota_servers (o_config s) = pre @ base # post" "\<not> oe_changing e" "os_state (o_status s) \<noteq> ''installing''"
  shows "fst (ota_check e s) = Inr \<lparr>ca_manifest = m, ca_base_url = base\<rparr>" "o_started (snd (ota_check e s)) = o_started s"
proof -
  let ?s1 = "ota_update_code e ''checking'' (save_status e
              (s\<lparr>o_status := (clear_progress (o_status s))\<lparr>os_state := ''checking'', os_error := [], os_latest_version := [],
                   os_last_check_at := oe_wall e\<rparr>, o_candidate := None\<rparr>))"
  have "ota_servers (o_config ?s1) = pre @ base # post" using assms(4) by simp
  then obtain a lg where "check_sources e (ota_servers (o_config ?s1)) no_answers (o_log ?s1)
      = (Some \<lparr>ca_manifest = m, ca_base_url = base\<rparr>, a, lg)"
    using check_sources_first [OF assms(1-3), of post] by (metis prod.collapse)
  then show "fst (ota_check e s) = Inr \<lparr>ca_manifest = m, ca_base_url = base\<rparr>" "o_started (snd (ota_check e s)) = o_started s"
    using assms(5,6) unfolding ota_check_def no_answers_def by (simp_all add: Let_def)
qed

definition demo_artifact :: "string \<Rightarrow> artifact" where
  "demo_artifact name = \<lparr>ar_name = name, ar_size = 3, ar_sha256 = replicate 64 (CHR ''0'')\<rparr>"

definition demo_manifest :: manifest where
  "demo_manifest = \<lparr>mf_notes = [], mf_schema = 1, mf_version = ''1.0.0'', mf_tag = ''v1.0.0'', mf_published_at = [],
     mf_artifacts = [(''installer'', demo_artifact ''install.sh''), (''binary'', demo_artifact ''datad'')]\<rparr>"

definition demo_env :: ota_env where
  "demo_env = \<lparr>oe_version = ''0.9.0'', oe_now = seconds 1000, oe_wall = 0, oe_clock = Some 0, oe_boot = Some ''b'',
     oe_changing = False, oe_generation = 0,
     oe_http = (\<lambda>u. if u = source_url github ''update.json'' then HttpResponse 200 None [Inr [1]]
                   else if u = source_url github ''update.json.sig'' then HttpResponse 200 None [Inr (str_bytes ''sig'')]
                   else if u = source_url github ''install.sh'' then HttpResponse 200 (Some 3) [Inr [2], Inr [3, 4]]
                   else HttpFailed ''refused''),
     oe_write = (\<lambda>_. None), oe_remove_marker = None, oe_spawn = None, oe_url = (\<lambda>_. None),
     oe_manifest = (\<lambda>raw. if raw = [1] then Some demo_manifest else None), oe_sha = (\<lambda>_. replicate 32 0),
     oe_base64 = (\<lambda>x. if x = ''sig'' then Some [7] else None), oe_signature = (\<lambda>msg raw. raw = [7]),
     oe_id = (\<lambda>_. ''id''), oe_dir = ''/data'', oe_install_dir_env = []\<rparr>"

definition demo_ota :: ota where
  "demo_ota = ota_start demo_env Missing Missing None [] [] status_initial"

lemma demo_facts:
  "ask_source demo_env github = SourceManifest demo_manifest"
  "newer ''1.0.0'' ''0.9.0''"
  "device_reasons JNull = []"
  "ota_servers (o_config demo_ota) = [github, netdisk]"
  "ota_fetch demo_env (source_url github ''install.sh'') (16 * 2 ^ 20) = Inr [2, 3, 4]"
  by code_simp+

section \<open>Back-off after failures\<close>

definition ota_ticks :: "(ota_env \<times> bool \<times> json) list \<Rightarrow> ota \<Rightarrow> ota" where
  "ota_ticks ts s = foldl (\<lambda>st (e, auto, snap). ota_tick e auto snap st) s ts"

lemma tick_waits:
  assumes "o_marker s = None" "os_state (o_status s) \<noteq> ''installing''" "o_retry_deadline s = Some d" "oe_now e < d"
  shows "ota_tick e auto snap s = s"
  using assms
  by (simp add: ota_tick_def reconcile_install_result_def auto_check_def should_auto_check_def auto_install_def
      auto_candidate_def retry_ready_def)

lemma ticks_wait:
  assumes "o_marker s = None" "os_state (o_status s) \<noteq> ''installing''" "o_retry_deadline s = Some d" "\<forall>t\<in>set ts. oe_now (fst t) < d"
  shows "ota_ticks ts s = s"
  using assms(4) tick_waits [OF assms(1-3)] by (induction ts) (auto simp: ota_ticks_def)

lemma retry_delay_early: "0 < n \<Longrightarrow> n \<le> 3 \<Longrightarrow> retry_delay n \<noteq> 0"
  by (auto simp: retry_delay_def seconds_def)

lemma fail_fields:
  assumes "os_failure_count (o_status s) < 3"
  shows "o_marker (ota_fail e c err s) = o_marker s" "os_state (o_status (ota_fail e c err s)) = ''error''"
    "o_retry_deadline (ota_fail e c err s) = Some (duration_add (oe_now e) (retry_delay (Suc (os_failure_count (o_status s)))))"
    "os_failure_count (o_status (ota_fail e c err s)) = Suc (os_failure_count (o_status s))"
  using assms retry_delay_early [of "Suc (os_failure_count (o_status s))"]
  by (cases c; simp add: ota_fail_def Let_def min_def)+

lemma fail_saves:
  assumes "os_failure_count (o_status s) < 3" "oe_write e ''ota-state.json'' = None" "oe_boot e = Some b"
  shows "\<exists>so. o_state_file (ota_fail e c err s) = Holds so \<and> os_state (so_status so) = ''error''
    \<and> os_failure_count (so_status so) = Suc (os_failure_count (o_status s))
    \<and> (let d = duration_add (oe_now e) (retry_delay (Suc (os_failure_count (o_status s))))
       in d div 10 ^ 6 \<le> u64_max \<longrightarrow> so_retry so = Some \<lparr>rt_boot_id = b, rt_deadline_ms = d div 10 ^ 6\<rparr>)"
  using assms retry_delay_early [of "Suc (os_failure_count (o_status s))"]
  by (cases c) (simp_all add: ota_fail_def ota_saving min_def display_status_def timer_of_def)


text \<open>
  A restart keeps the back-off.  When the status of a failure could be written, a process that loads it
  later in the same boot waits for the same moment (to the millisecond, rounded down); after a reboot, whose elapsed clock
  starts again, it waits the whole delay once more.  Background rounds before that moment change
  nothing.\<close>
theorem ota_backoff_survives_restart:
  assumes "os_failure_count (o_status s) < 3" "oe_write e ''ota-state.json'' = None"
    and "oe_boot e = Some b" "oe_boot e2 = Some b2" "oe_now e \<le> oe_now e2 \<or> b2 \<noteq> b"
    and "d = duration_add (oe_now e) (retry_delay (Suc (os_failure_count (o_status s))))" "d div 10 ^ 6 \<le> u64_max"
    and "d2 = (if b2 = b then d div 10 ^ 6 * 10 ^ 6 else duration_add (oe_now e2) (retry_delay (Suc (os_failure_count (o_status s)))))"
    and "s2 = ota_load e2 cf (o_state_file (ota_fail e c err s)) None installer wrapper lg"
    and "\<forall>t\<in>set ts. oe_now (fst t) < d2"
  shows "o_retry_deadline s2 = Some d2 \<and> ota_ticks ts s2 = s2"
proof -
  let ?f = "ota_fail e c err s" and ?n = "Suc (os_failure_count (o_status s))"
  note ff = fail_fields [OF assms(1), of e c err]
  obtain so where so: "o_state_file ?f = Holds so" "so_retry so = Some \<lparr>rt_boot_id = b, rt_deadline_ms = d div 10 ^ 6\<rparr>"
    "os_state (so_status so) = ''error''" "os_failure_count (so_status so) = ?n"
    using fail_saves [OF assms(1,2,3), of c err] assms(6,7) by auto
  have st: "os_state (loaded_status e2 so) = ''error''" "os_failure_count (loaded_status e2 so) = ?n"
    using so by (simp_all add: loaded_status_def settle_interrupted_def settle_superseded_def)
  have "retry_delay ?n \<le> seconds (24 * 3600)" by (simp add: retry_delay_def seconds_def)
  then have "d div 10 ^ 6 * 10 ^ 6 \<le> duration_add (oe_now e2) (seconds (24 * 3600))" if "b2 = b"
    using that assms(5,6) by (auto simp: duration_add_def intro!: order.trans [OF div_times_less_eq_dividend] min.mono)
  then have "loaded_retry e2 (loaded_status e2 so) (so_retry so) = Some d2"
    using st so(2) assms(3,4,8) retry_delay_early [of ?n] assms(1)
    by (simp add: loaded_retry_def timer_valid_def Let_def)
  then have s2: "o_retry_deadline s2 = Some d2" "o_marker s2 = None" "os_state (o_status s2) \<noteq> ''installing''"
    using so(1) st assms(9) by (simp_all add: ota_load_def Let_def ota_publish_def publish_config_def)
  show ?thesis using s2 ticks_wait [OF s2(2,3,1) assms(10)] by simp
qed

definition quiet :: "ota_env \<times> json \<Rightarrow> bool" where
  "quiet x \<longleftrightarrow> \<not> oe_changing (fst x) \<and> device_reasons (snd x) = [] \<and> activity_reasons (snd x) = []"

text \<open>Two observations in a row: close together and under the same setting of the clock.\<close>

definition follows :: "ota_env \<times> json \<Rightarrow> ota_env \<times> json \<Rightarrow> bool" where
  "follows x y \<longleftrightarrow>
     oe_now (fst y) - oe_now (fst x) \<le> max_idle_observation_gap \<and> oe_generation (fst y) = oe_generation (fst x)"

definition observe_all :: "(ota_env \<times> json) list \<Rightarrow> ota \<Rightarrow> ota" where
  "observe_all xs s = foldl (\<lambda>st (e, snap). snd (ota_safety e snap False st)) s xs"

definition idle_stretch :: "(ota_env \<times> json) list \<Rightarrow> ota \<Rightarrow> bool" where
  "idle_stretch ys s \<longleftrightarrow>
     ys \<noteq> [] \<and> list_all quiet ys \<and> successively follows ys \<and> o_idle_since s = Some (oe_now (fst (hd ys)))
     \<and> o_idle_observed_at s = Some (oe_now (fst (last ys))) \<and> o_clock_generation s = oe_generation (fst (last ys))"

definition idle_history :: "(ota_env \<times> json) list \<Rightarrow> ota \<Rightarrow> bool" where
  "idle_history xs s \<longleftrightarrow>
     (o_idle_since s = None \<and> o_idle_observed_at s = None) \<or> (\<exists>pre ys. xs = pre @ ys \<and> idle_stretch ys s)"

lemma safety_idle:
  assumes "idle_history xs s" "ota_safety e snap False s = (rs, s')"
  shows "idle_history (xs @ [(e, snap)]) s' \<and> (rs = [] \<longrightarrow> (\<exists>pre ys. xs @ [(e, snap)] = pre @ ys \<and> idle_stretch ys s'
     \<and> oe_now e - oe_now (fst (hd ys)) \<ge> idle_for))"
proof (cases "quiet (e, snap)")
  case False
  then have "o_idle_since s' = None \<and> o_idle_observed_at s' = None \<and> rs \<noteq> []"
    using assms(2) by (auto simp: ota_safety_def quiet_def Let_def split: if_splits)
  then show ?thesis by (simp add: idle_history_def)
next
  case True
  let ?x = "(e, snap)" and ?s = "observe_clock_generation (oe_generation e) s"
  have run: "observe_idle (oe_now e) ?s = (rs, s')"
    using assms(2) True by (simp add: ota_safety_def quiet_def Let_def)
  have g: "o_clock_generation s' = oe_generation e" "o_idle_observed_at s' = Some (oe_now e)"
    using run by (auto simp: observe_idle_def observe_clock_generation_def Let_def split: if_splits)
  have "\<exists>pre ys. xs @ [?x] = pre @ ys \<and> idle_stretch ys s'"
  proof (cases "o_idle_since s' = Some (oe_now e)")
    case fresh: True
    then show ?thesis using True g by (intro exI [of _ xs] exI [of _ "[?x]"]) (simp add: idle_stretch_def)
  next
    case False
    then have keep: "o_clock_generation s = oe_generation e" "o_idle_since s' = o_idle_since s" "o_idle_since s \<noteq> None"
        "\<And>l. o_idle_observed_at s = Some l \<Longrightarrow> oe_now e - l \<le> max_idle_observation_gap"
      using run by (auto simp: observe_idle_def observe_clock_generation_def Let_def split: if_splits option.splits)
    then obtain pre ys where ys: "xs = pre @ ys" "idle_stretch ys s" using assms(1) by (auto simp: idle_history_def)
    then have "idle_stretch (ys @ [?x]) s'"
      using keep g True by (auto simp: idle_stretch_def successively_append_iff follows_def hd_append)
    then show ?thesis using ys(1) by (intro exI [of _ pre] exI [of _ "ys @ [?x]"]) simp
  qed
  moreover have "oe_now e - oe_now (fst (hd ys)) \<ge> idle_for" if "rs = []" "idle_stretch ys s'" for ys
    using that run by (auto simp: idle_stretch_def observe_idle_def Let_def split: if_splits option.splits)
  ultimately show ?thesis unfolding idle_history_def by blast
qed

lemma observe_all_snoc: "observe_all (xs @ [(e, snap)]) s = snd (ota_safety e snap False (observe_all xs s))"
  by (simp add: observe_all_def)

lemma observe_all_idle:
  assumes "o_idle_since s = None" "o_idle_observed_at s = None"
  shows "idle_history xs (observe_all xs s)"
proof (induction xs rule: rev_induct)
  case Nil
  then show ?case using assms by (simp add: observe_all_def idle_history_def)
next
  case (snoc x xs)
  obtain e snap where x: "x = (e, snap)" by fastforce
  show ?case using safety_idle [OF snoc] by (simp add: x observe_all_snoc) (metis prod.collapse)
qed

text \<open>
  An automatic installation needs two minutes of observed idleness.  The gate opens only at the end of a stretch of
  observations in which the device was quiet every time (no battery, storage, collector, CPU or traffic reason, no change of the
  clock under way), that lies within one setting of the clock, has no gap above ninety seconds
  and is at least two minutes long by the elapsed clock.\<close>
theorem ota_idle_observed:
  assumes "o_idle_since s = None" "o_idle_observed_at s = None"
    and "fst (ota_safety e snap False (observe_all xs s)) = []"
  shows "\<exists>pre ys. xs @ [(e, snap)] = pre @ ys \<and> ys \<noteq> [] \<and> list_all quiet ys \<and> successively follows ys
     \<and> oe_now e - oe_now (fst (hd ys)) \<ge> seconds 120"
proof -
  obtain rs s' where r: "ota_safety e snap False (observe_all xs s) = (rs, s')" by fastforce
  then show ?thesis using safety_idle [OF observe_all_idle [OF assms(1,2)] r] assms(3)
    by (auto simp: idle_stretch_def idle_for_def)
qed

text \<open>
  What the installer's own report of a failure does: the failure is counted, but no deadline is set, so
  the very next background round may try again.\<close>

lemma failed_installer_not_backed_off:
  assumes "o_marker s = Some v" "trim v \<noteq> ''success''" "o_retry_deadline s = None" "os_failure_count (o_status s) < 255"
  shows "retry_ready e (reconcile_install_result e s)
    \<and> os_failure_count (o_status (reconcile_install_result e s)) = Suc (os_failure_count (o_status s))
    \<and> os_state (o_status (reconcile_install_result e s)) = ''error''"
  using assms by (simp add: reconcile_install_result_def Let_def retry_ready_def ota_update_code_def)

section \<open>Witnesses\<close>

definition demo_at :: "nat \<Rightarrow> ota_env" where "demo_at t = demo_env\<lparr>oe_now := seconds t\<rparr>"

lemma demo_quiet: "activity_reasons JNull = []" by code_simp


theorem ota_backoff_survives_restart_witness:
  "o_retry_deadline (ota_load (demo_at 1500) Missing (o_state_file (ota_fail demo_env None ''x'' demo_ota)) None [] [] status_initial)
     = Some (seconds 4600)"
proof -
  have n: "os_failure_count (o_status demo_ota) = 0" by code_simp
  then show ?thesis
    using ota_backoff_survives_restart [of "demo_ota" demo_env "''b''" "demo_at 1500" "''b''" "seconds 4600" "seconds 4600"
        "ota_load (demo_at 1500) Missing (o_state_file (ota_fail demo_env None ''x'' demo_ota)) None [] [] status_initial"
        Missing None "''x''" "[]" "[]" status_initial "[]"]
    by (simp add: demo_at_def demo_env_def seconds_def duration_add_def duration_max_def retry_delay_def u64_max_def)
qed

theorem ota_idle_observed_witness:
  "\<exists>pre ys. [(demo_at 0, JNull), (demo_at 60, JNull), (demo_at 120, JNull)] = pre @ ys \<and> ys \<noteq> [] \<and> list_all quiet ys
     \<and> successively follows ys \<and> seconds 120 - oe_now (fst (hd ys)) \<ge> seconds 120"
proof -
  have i: "o_idle_since demo_ota = None" "o_idle_observed_at demo_ota = None" by code_simp+
  have "fst (ota_safety (demo_at 120) JNull False (observe_all [(demo_at 0, JNull), (demo_at 60, JNull)] demo_ota)) = []"
    using i demo_facts(3) demo_quiet
    by (simp add: observe_all_def ota_safety_def observe_clock_generation_def observe_idle_def demo_at_def demo_env_def
        seconds_def idle_for_def max_idle_observation_gap_def)
  then show ?thesis using ota_idle_observed [OF i, of "demo_at 120" JNull "[(demo_at 0, JNull), (demo_at 60, JNull)]"]
    by (simp add: demo_at_def)
qed

end

