(* ===== verification/Cloud_Update.thy ===== *)
theory Cloud_Update
  imports Ota_Laws
begin

text \<open>
  Updates requested by the cloud, \<open>cloud_update.rs\<close>: the validation of a command, the record
  \<open>cloud-update.json\<close> that outlives the restart of an installation, and the command itself on top of
  the updater of the theory \<open>Ota\<close>.

  Further inputs of a call are the SHA-256 of the running executable, the uptime, whether someone else holds the
  lock of the updater, and the outcome of the writes of the record: when an old record is settled, before
  the installer starts, and at the end.
\<close>

section \<open>Commands\<close>

record cloud_command =
  cc_protocol_version :: nat
  cc_request_id :: string
  cc_action :: string
  cc_identity :: string
  cc_boot_id :: string
  cc_expires_uptime :: "int option"
  cc_target_version :: string
  cc_binary_sha256 :: string

text \<open>\<open>cc_expires_uptime\<close> is \<open>None\<close> when the number is not finite.\<close>

record cu_env =
  cu_ota :: ota_env
  cu_enabled :: bool
  cu_identity :: string
  cu_uptime :: int
  cu_exe_sha :: "string option"
  cu_held :: bool
  cu_write_settled :: "string option"
  cu_write_started :: "string option"
  cu_write_final :: "string option"
  cu_snapshot :: json

record cu_app =
  cu_manager :: ota
  cu_record :: "json disk"

definition cu_boot :: "cu_env \<Rightarrow> string" where
  "cu_boot e = (case oe_boot (cu_ota e) of Some b \<Rightarrow> trim b | None \<Rightarrow> [])"

definition request_id_ok :: "string \<Rightarrow> bool" where
  "request_id_ok r \<longleftrightarrow> 8 \<le> length r \<and> length r \<le> 80 \<and> list_all (\<lambda>c. is_ascii_alphanumeric c \<or> c = CHR ''-'') r"

definition uptime_window :: "int \<Rightarrow> int option \<Rightarrow> bool" where
  "uptime_window now expires =
     (case expires of None \<Rightarrow> False | Some x \<Rightarrow> 0 < now \<and> now < x \<and> x \<le> f64_add now (f64_const 300))"

definition cu_validate :: "cloud_command \<Rightarrow> bool \<Rightarrow> string \<Rightarrow> string \<Rightarrow> int \<Rightarrow> string option" where
  "cu_validate c enabled identity boot now =
     (if \<not> enabled \<or> cc_protocol_version c \<noteq> 1 \<or> cc_identity c \<noteq> identity \<or> \<not> request_id_ok (cc_request_id c)
         \<or> cc_action c \<notin> {''datad.update.check'', ''datad.update.install''}
      then Some ''invalid_update_request''
      else if boot = [] \<or> cc_boot_id c \<noteq> boot \<or> \<not> uptime_window now (cc_expires_uptime c)
      then Some ''expired_update_request''
      else if cc_action c = ''datad.update.install''
         \<and> (cc_target_version c = [] \<or> length (cc_target_version c) > 40 \<or> length (cc_binary_sha256 c) \<noteq> 64
            \<or> \<not> list_all is_ascii_hexdigit (cc_binary_sha256 c))
      then Some ''missing_verified_candidate''
      else None)"

section \<open>The record\<close>

definition write_record :: "string option \<Rightarrow> json \<Rightarrow> cu_app \<Rightarrow> (string + unit) \<times> cu_app" where
  "write_record outcome v s = (case outcome of Some err \<Rightarrow> (Inl err, s) | None \<Rightarrow> (Inr (), s\<lparr>cu_record := Holds v\<rparr>))"

definition failed_install_code :: "string option \<Rightarrow> string option \<Rightarrow> string option" where
  "failed_install_code marker state =
     (if map_option trim marker = Some ''success'' then Some ''installed_version_mismatch''
      else if map_option trim marker = Some ''failed'' then Some ''installer_failed''
      else case state of Some st \<Rightarrow> if st \<noteq> ''installing'' then Some ''installer_failed'' else None | None \<Rightarrow> None)"

definition cloud_update_result :: "cu_env \<Rightarrow> cu_app \<Rightarrow> json option \<times> cu_app" where
  "cloud_update_result e s =
     (case cu_record s of
        Holds v \<Rightarrow>
          if jindex v ''status'' \<noteq> JString ''installing'' then (Some v, s)
          else if jindex (jindex v ''data'') ''target_version'' = JString (oe_version (cu_ota e))
          then (case as_str (jindex (jindex v ''data'') ''binary_sha256'') of None \<Rightarrow> (None, s)
                | Some expected \<Rightarrow>
                    (case cu_exe_sha e of None \<Rightarrow> (None, s)
                     | Some actual \<Rightarrow>
                         let v1 = jassign v ''status'' (JString (if actual = expected then ''succeeded'' else ''failed''));
                             d = jassign (jassign (jindex v1 ''data'') ''current_version'' (JString (oe_version (cu_ota e))))
                                   ''installed_sha256'' (JString actual);
                             v2 = jassign v1 ''data'' d
                         in (Some v2, snd (write_record (cu_write_settled e) v2 s))))
          else (case failed_install_code (o_marker (cu_manager s))
                       (if cu_held e then None else Some (os_state (o_status (cu_manager s)))) of
                  None \<Rightarrow> (Some v, s)
                | Some code \<Rightarrow>
                    let v1 = jassign (jassign v ''status'' (JString ''failed'')) ''error'' (jobj [(''code'', JString code)])
                    in (Some v1, snd (write_record (cu_write_settled e) v1 s)))
      | _ \<Rightarrow> (None, s))"

section \<open>Executing a command\<close>

definition command_data :: "cu_env \<Rightarrow> candidate \<Rightarrow> artifact \<Rightarrow> json" where
  "command_data e c b =
     jobj [(''current_version'', JString (oe_version (cu_ota e))), (''target_version'', JString (mf_version (ca_manifest c))),
           (''binary_sha256'', JString (ar_sha256 b)), (''size'', jint (ar_size b)),
           (''has_update'', JBool (has_update (cu_ota e) c)), (''signature_verified'', JBool True)]"

definition command_answer :: "cloud_command \<Rightarrow> string \<Rightarrow> json \<Rightarrow> json" where
  "command_answer c status d =
     jobj [(''request_id'', JString (cc_request_id c)), (''action'', JString (cc_action c)), (''status'', JString status), (''data'', d)]"

definition with_manager :: "cu_app \<Rightarrow> ota \<Rightarrow> cu_app" where
  "with_manager s m = s\<lparr>cu_manager := m\<rparr>"

definition update_operation :: "cu_env \<Rightarrow> cloud_command \<Rightarrow> cu_app \<Rightarrow> (string + json) \<times> cu_app" where
  "update_operation e c s =
     (case ota_check (cu_ota e) (cu_manager s) of
        (Inl err, m) \<Rightarrow> (Inl err, with_manager s m)
      | (Inr cand, m) \<Rightarrow>
          (case map_of (mf_artifacts (ca_manifest cand)) ''binary'' of
             None \<Rightarrow> (Inl ''missing_binary'', with_manager s m)
           | Some b \<Rightarrow>
               if cc_action c = ''datad.update.check''
               then (Inr (command_answer c ''checked'' (command_data e cand b)), with_manager s m)
               else if cc_target_version c \<noteq> mf_version (ca_manifest cand) \<or> cc_binary_sha256 c \<noteq> ar_sha256 b
               then (Inl ''candidate_changed_check_again'', with_manager s m)
               else if \<not> has_update (cu_ota e) cand then (Inl ''already_current'', with_manager s m)
               else
                 let installing = command_answer c ''installing'' (command_data e cand b);
                     m1 = m\<lparr>o_marker := (if oe_remove_marker (cu_ota e) = None then None else o_marker m)\<rparr>
                 in case write_record (cu_write_started e) installing (with_manager s m1) of
                      (Inl err, s1) \<Rightarrow> (Inl err, s1)
                    | (Inr _, s1) \<Rightarrow>
                        (case ota_install (cu_ota e) cand (cu_snapshot e) True (cu_manager s1) of
                           (Inl err, m2) \<Rightarrow> (Inl err, with_manager s1 m2)
                         | (Inr _, m2) \<Rightarrow> (Inr installing, with_manager s1 m2))))"

text \<open>
  The inner block of \<open>cloud_update\<close>: the outcome and whether it is to be recorded.\<close>

definition update_run :: "cu_env \<Rightarrow> cloud_command \<Rightarrow> cu_app \<Rightarrow> (string + json) \<times> bool \<times> cu_app" where
  "update_run e c s0 =
     (case cu_validate c (cu_enabled e) (cu_identity e) (cu_boot e) (cu_uptime e) of
        Some err \<Rightarrow> (Inl err, False, s0)
      | None \<Rightarrow>
          let (previous, s) = cloud_update_result e s0 in
          if (case previous of Some v \<Rightarrow> jindex v ''request_id'' = JString (cc_request_id c) | None \<Rightarrow> False)
          then (Inr (the previous), False, s)
          else if (case previous of Some v \<Rightarrow> jindex v ''status'' = JString ''installing'' | None \<Rightarrow> False)
          then (Inl ''update_in_progress'', False, s)
          else if cu_held e then (Inl ''update_in_progress'', False, s)
          else case begin_requested_update (cu_ota e) (cu_manager s) of
            (Inl err, m) \<Rightarrow> (Inl err, False, with_manager s m)
          | (Inr _, m) \<Rightarrow>
              (case update_operation e c (with_manager s m) of
                 (Inl err, s1) \<Rightarrow> (Inl err, True, with_manager s1 (finish_update (cu_ota e) (ota_fail (cu_ota e) None err (cu_manager s1))))
               | (Inr v, s1) \<Rightarrow> (Inr v, True, with_manager s1 (finish_update (cu_ota e) (cu_manager s1)))))"

definition cloud_update :: "cu_env \<Rightarrow> cloud_command \<Rightarrow> cu_app \<Rightarrow> json \<times> cu_app" where
  "cloud_update e c s =
     (let (r, persist, s1) = update_run e c s;
          v = (case r of
                 Inr v \<Rightarrow> v
               | Inl err \<Rightarrow> jobj [(''request_id'', JString (cc_request_id c)), (''action'', JString (cc_action c)),
                                 (''status'', JString ''failed''), (''error'', jobj [(''code'', JString err)])])
      in (v, if persist then snd (write_record (cu_write_final e) v s1) else s1))"

section \<open>Laws\<close>

lemma jindex_obj [simp]: "jindex (jobj kvs) k = (case map_of (fold (\<lambda>(k, v). map_insert k v) kvs []) k of Some x \<Rightarrow> x | None \<Rightarrow> JNull)"
  by (simp add: jindex_def jobj_def)

lemma jindex_assign: "jindex (jassign v k x) k' = (if k = k' \<and> (is_object v \<or> v = JNull) then x else jindex v k')"
  by (cases v) (auto simp: jindex_def jget_def)

lemma manager_simps [simp]:
  "cu_manager (with_manager s m) = m" "cu_record (with_manager s m) = cu_record s"
  by (simp_all add: with_manager_def)

lemma write_record_manager [simp]: "cu_manager (snd (write_record w v s)) = cu_manager s"
  by (simp add: write_record_def split: option.split)

lemma result_manager: "cu_manager (snd (cloud_update_result e s)) = cu_manager s"
  by (simp add: cloud_update_result_def Let_def split: disk.split option.split)

lemma operation_manager:
  assumes "update_operation e c s = (r, s1)" "same_process p (cu_ota e)"
  shows "o_started (cu_manager s1) = o_started (cu_manager s)
    \<or> cc_action c \<noteq> ''datad.update.check''
      \<and> (\<exists>cand b a raw script. vouched p cand \<and> has_update (cu_ota e) cand \<and> mf_version (ca_manifest cand) = cc_target_version c
        \<and> map_of (mf_artifacts (ca_manifest cand)) ''binary'' = Some b \<and> ar_sha256 b = cc_binary_sha256 c
        \<and> map_of (mf_artifacts (ca_manifest cand)) ''installer'' = Some a \<and> hex_sha256 (cu_ota e) raw = ar_sha256 a
        \<and> o_started (cu_manager s1) = o_started (cu_manager s) @ [(raw, script)])"
proof -
  obtain q m where k: "ota_check (cu_ota e) (cu_manager s) = (q, m)" by fastforce
  note kept = check_started [OF k]
  show ?thesis
  proof (cases q)
    case (Inl err)
    then show ?thesis using assms(1) k kept by (auto simp: update_operation_def)
  next
    case (Inr cand)
    note v = check_vouched [OF assms(2) k [unfolded Inr]]
    let ?m = "m\<lparr>o_marker := (if oe_remove_marker (cu_ota e) = None then None else o_marker m)\<rparr>"
    obtain ri mi where i: "ota_install (cu_ota e) cand (cu_snapshot e) True ?m = (ri, mi)" by fastforce
    show ?thesis
    proof (cases "o_started (cu_manager s1) = o_started (cu_manager s)")
      case False
      then obtain b where b: "map_of (mf_artifacts (ca_manifest cand)) ''binary'' = Some b" "cc_action c \<noteq> ''datad.update.check''"
          "cc_target_version c = mf_version (ca_manifest cand)" "cc_binary_sha256 c = ar_sha256 b"
          "has_update (cu_ota e) cand" "cu_manager s1 = mi"
        using assms(1) k Inr kept i
        by (auto simp: update_operation_def Let_def write_record_def split: option.splits if_splits sum.splits)
      then show ?thesis using v install_grows [OF i] False kept by (auto 0 3)
    qed simp
  qed
qed
lemma requested_started: "begin_requested_update e s = (r, s1) \<Longrightarrow> o_started s1 = o_started s"
  by (metis begin_requested_update_def snd_conv started_kept(4,5))

lemma run_started:
  assumes "update_run e c s = (r, persist, s1)" "o_started (cu_manager s1) \<noteq> o_started (cu_manager s)"
  obtains s0 q s2 where "cu_validate c (cu_enabled e) (cu_identity e) (cu_boot e) (cu_uptime e) = None"
    "update_operation e c s0 = (q, s2)" "o_started (cu_manager s0) = o_started (cu_manager s)"
    "o_started (cu_manager s1) = o_started (cu_manager s2)"
proof -
  obtain previous sr where pr: "cloud_update_result e s = (previous, sr)" by fastforce
  then have sr: "cu_manager sr = cu_manager s" using result_manager [of e s] by simp
  obtain rb m where b: "begin_requested_update (cu_ota e) (cu_manager sr) = (rb, m)" by fastforce
  obtain q s2 where u: "update_operation e c (with_manager sr m) = (q, s2)" by fastforce
  note m = requested_started [OF b]
  have "cu_validate c (cu_enabled e) (cu_identity e) (cu_boot e) (cu_uptime e) = None
      \<and> o_started (cu_manager s1) = o_started (cu_manager s2)"
    using assms pr sr b u m by (auto simp: update_run_def split: option.splits if_splits sum.splits)
  then show thesis using that [OF _ u] m sr by simp
qed

lemma cloud_update_manager: "cu_manager (snd (cloud_update e c s)) = cu_manager (snd (snd (update_run e c s)))"
  by (simp add: cloud_update_def Let_def split: prod.split sum.split)

text \<open>
  C8: What the cloud can start.  If a command of the cloud starts an installer at all, then the cloud access is on, the
  command names this device and this boot, it has not expired and expires within five minutes of uptime, it is
  an install command, and what starts is exactly one installer with the SHA-256 given by a manifest that is signed,
  newer than the running version, of the version the command names and with a binary of the hash the
  command names.\<close>
theorem cloud_install_authorised:
  assumes "o_started (cu_manager (snd (cloud_update e c s))) \<noteq> o_started (cu_manager s)" "same_process p (cu_ota e)"
  shows "cu_enabled e \<and> cc_identity c = cu_identity e \<and> cc_boot_id c = cu_boot e
    \<and> uptime_window (cu_uptime e) (cc_expires_uptime c) \<and> cc_action c = ''datad.update.install''
    \<and> (\<exists>enc sig m b a raw script. ota_verify p enc sig \<and> oe_manifest p enc = Some m \<and> manifest_ok m
        \<and> newer (mf_version m) (oe_version p) \<and> mf_version m = cc_target_version c
        \<and> map_of (mf_artifacts m) ''binary'' = Some b \<and> ar_sha256 b = cc_binary_sha256 c
        \<and> map_of (mf_artifacts m) ''installer'' = Some a \<and> hex_sha256 p raw = ar_sha256 a
        \<and> o_started (cu_manager (snd (cloud_update e c s))) = o_started (cu_manager s) @ [(raw, script)])"
proof -
  obtain r persist s1 where run: "update_run e c s = (r, persist, s1)" by (metis prod_cases3)
  then have s1: "cu_manager (snd (cloud_update e c s)) = cu_manager s1" by (simp add: cloud_update_manager)
  obtain s0 q s2 where u: "cu_validate c (cu_enabled e) (cu_identity e) (cu_boot e) (cu_uptime e) = None"
    "update_operation e c s0 = (q, s2)" "o_started (cu_manager s0) = o_started (cu_manager s)"
    "o_started (cu_manager s1) = o_started (cu_manager s2)"
    using run_started [OF run] assms(1) s1 by metis
  have g: "cu_enabled e \<and> cc_identity c = cu_identity e \<and> cc_boot_id c = cu_boot e
      \<and> uptime_window (cu_uptime e) (cc_expires_uptime c) \<and> cc_action c \<in> {''datad.update.check'', ''datad.update.install''}"
    using u(1) unfolding cu_validate_def by (simp split: if_splits)
  have "o_started (cu_manager s2) \<noteq> o_started (cu_manager s0)" using assms(1) s1 u by simp
  then obtain cand b a raw script where op: "cc_action c \<noteq> ''datad.update.check''" "vouched p cand" "has_update (cu_ota e) cand"
      "mf_version (ca_manifest cand) = cc_target_version c"
      "map_of (mf_artifacts (ca_manifest cand)) ''binary'' = Some b" "ar_sha256 b = cc_binary_sha256 c"
      "map_of (mf_artifacts (ca_manifest cand)) ''installer'' = Some a" "hex_sha256 (cu_ota e) raw = ar_sha256 a"
      "o_started (cu_manager s2) = o_started (cu_manager s0) @ [(raw, script)]"
    using operation_manager [OF u(2) assms(2)] by blast
  have p: "newer (mf_version (ca_manifest cand)) (oe_version p)" "hex_sha256 p raw = ar_sha256 a"
    using op(3,8) assms(2) by (simp_all add: same_process_def has_update_def hex_sha256_def)
  show ?thesis using g op p u(3,4) s1 unfolding vouched_def by auto
qed

text \<open>The record of a request: under its id, and with the hash that settles it while the installation runs.\<close>

definition record_of :: "string \<Rightarrow> json \<Rightarrow> bool" where
  "record_of r v \<longleftrightarrow> jindex v ''request_id'' = JString r
     \<and> (jindex v ''status'' = JString ''installing'' \<longrightarrow> as_str (jindex (jindex v ''data'') ''binary_sha256'') \<noteq> None)"

lemma record_of_failed:
  "record_of r (jobj [(''request_id'', JString r), (''action'', a), (''status'', JString ''failed''), (''error'', x)])"
  by (simp add: record_of_def)

lemma operation_record: "update_operation e c s = (Inr v, s1) \<Longrightarrow> record_of (cc_request_id c) v"
  by (auto simp: update_operation_def Let_def record_of_def command_answer_def command_data_def
      split: prod.splits sum.splits option.splits if_splits)

lemma run_record: "update_run e c s = (Inr v, True, s1) \<Longrightarrow> record_of (cc_request_id c) v"
  by (auto simp: update_run_def Let_def split: prod.splits sum.splits option.splits if_splits dest: operation_record)

lemma result_record:
  assumes "cu_record s = Holds v" "record_of r v" "cu_exe_sha e \<noteq> None" "cloud_update_result e s = (res, s1)"
  shows "\<exists>v1 v2. res = Some v1 \<and> jindex v1 ''request_id'' = JString r \<and> cu_record s1 = Holds v2 \<and> record_of r v2"
  using assms
  by (auto simp: cloud_update_result_def record_of_def Let_def write_record_def jindex_assign split: if_splits option.splits)

text \<open>Once the record names the request, the same command does not reach the updater.\<close>

lemma repeated_command:
  assumes "cu_record s = Holds v" "record_of (cc_request_id c) v" "cu_exe_sha e \<noteq> None"
  shows "cu_manager (snd (cloud_update e c s)) = cu_manager s
    \<and> (\<exists>v2. cu_record (snd (cloud_update e c s)) = Holds v2 \<and> record_of (cc_request_id c) v2)"
proof -
  obtain res s1 where r: "cloud_update_result e s = (res, s1)" by fastforce
  note k = result_record [OF assms r]
  have m: "cu_manager s1 = cu_manager s" using result_manager [of e s] r by simp
  show ?thesis using k r m assms(1,2)
    by (cases "cu_validate c (cu_enabled e) (cu_identity e) (cu_boot e) (cu_uptime e)")
       (auto simp: cloud_update_def update_run_def Let_def)
qed

definition repeat_command :: "cloud_command \<Rightarrow> (cu_env \<times> ota) list \<Rightarrow> cu_app \<Rightarrow> cu_app" where
  "repeat_command c xs s = foldl (\<lambda>st (e, m). snd (cloud_update e c (with_manager st m))) s xs"

lemma repeat_record:
  assumes "cu_record s = Holds v" "record_of (cc_request_id c) v" "\<forall>x\<in>set xs. cu_exe_sha (fst x) \<noteq> None"
  shows "\<exists>v2. cu_record (repeat_command c xs s) = Holds v2 \<and> record_of (cc_request_id c) v2"
  using assms
proof (induction xs arbitrary: s v)
  case (Cons x xs)
  obtain e m where x: "x = (e, m)" by fastforce
  obtain v2 where "cu_record (snd (cloud_update e c (with_manager s m))) = Holds v2" "record_of (cc_request_id c) v2"
    using repeated_command [of "with_manager s m" v c e] Cons.prems x by auto
  then show ?case using Cons.IH Cons.prems(3) x by (simp add: repeat_command_def)
qed (auto simp: repeat_command_def)

text \<open>
  A command of the cloud is carried out once.  After a command was carried out and its outcome recorded, repeating it
  any number of times, also after the restart into another version and whatever the updater did meanwhile,
  leaves the updater as it is.\<close>
theorem cloud_update_once:
  assumes "update_run e c s = (r, True, s1)" "cu_write_final e = None"
    and "\<forall>x\<in>set xs. cu_exe_sha (fst x) \<noteq> None" "cu_exe_sha e2 \<noteq> None"
  shows "cu_manager (snd (cloud_update e2 c (with_manager (repeat_command c xs (snd (cloud_update e c s))) m))) = m"
proof -
  obtain v s2 where s2: "cloud_update e c s = (v, s2)" by fastforce
  have "record_of (cc_request_id c) v" "cu_record s2 = Holds v"
    using s2 assms(1,2) run_record [of e c s v s1]
    by (cases r; auto simp: cloud_update_def write_record_def Let_def record_of_failed)+
  then obtain v2 where "cu_record (repeat_command c xs s2) = Holds v2" "record_of (cc_request_id c) v2"
    using repeat_record assms(3) by blast
  then show ?thesis using repeated_command [of "with_manager (repeat_command c xs s2) m" v2 c e2] assms(4) s2 by simp
qed

section \<open>Witnesses\<close>

definition demo_command :: "string \<Rightarrow> cloud_command" where
  "demo_command action = \<lparr>cc_protocol_version = 1, cc_request_id = ''request-1'', cc_action = action, cc_identity = ''dev'',
     cc_boot_id = ''b'', cc_expires_uptime = Some (f64_const 1100), cc_target_version = ''1.0.0'',
     cc_binary_sha256 = replicate 64 (CHR ''0'')\<rparr>"

definition demo_cu :: cu_env where
  "demo_cu = \<lparr>cu_ota = demo_env, cu_enabled = True, cu_identity = ''dev'', cu_uptime = f64_const 1000, cu_exe_sha = Some ''00'',
     cu_held = False, cu_write_settled = None, cu_write_started = None, cu_write_final = None, cu_snapshot = JNull\<rparr>"

definition demo_cu_app :: cu_app where
  "demo_cu_app = \<lparr>cu_manager = demo_ota, cu_record = Missing\<rparr>"

lemma demo_valid: "cu_validate (demo_command ''datad.update.install'') True ''dev'' ''b'' (f64_const 1000) = None"
proof -
  have "request_id_ok ''request-1''" "list_all is_ascii_hexdigit (replicate 64 (CHR ''0''))" by code_simp+
  moreover have "uptime_window (f64_const 1000) (Some (f64_const 1100))"
    using f64_add_const [of 1000 300] by (simp add: uptime_window_def f64_const_def f64_one_def)
  ultimately show ?thesis by (simp add: cu_validate_def demo_command_def)
qed

lemma demo_hash: "hex_sha256 demo_env [2, 3, 4] = replicate 64 (CHR ''0'')" by code_simp

lemma trim_b: "trim ''b'' = ''b''" by code_simp

lemma demo_env_simps:
  "oe_version demo_env = ''0.9.0''" "oe_boot demo_env = Some ''b''" "\<not> oe_changing demo_env" "oe_write demo_env f = None"
  "oe_remove_marker demo_env = None" "oe_spawn demo_env = None"
  by (simp_all add: demo_env_def)

lemma demo_begun: "fst (begin_requested_update demo_env demo_ota) = Inr ()" by code_simp

lemma demo_checked:
  "fst (ota_check demo_env (snd (begin_requested_update demo_env demo_ota))) = Inr \<lparr>ca_manifest = demo_manifest, ca_base_url = github\<rparr>"
  by code_simp

lemma demo_unstarted: "o_started demo_ota = []" by code_simp

lemma demo_installs:
  obtains s1 r where "update_run demo_cu (demo_command ''datad.update.install'') demo_cu_app = (r, True, s1)"
    "o_started (cu_manager s1) = [([2, 3, 4], wrapper_script demo_env (source_url github ''datad''))]"
proof -
  let ?c = "\<lparr>ca_manifest = demo_manifest, ca_base_url = github\<rparr>"
  obtain m where b: "begin_requested_update demo_env demo_ota = (Inr (), m)" using demo_begun by (metis prod.collapse)
  obtain m1 where k: "ota_check demo_env m = (Inr ?c, m1)" using demo_checked b by (metis prod.collapse snd_conv)
  have m1: "o_started m1 = []" using check_started [OF k] requested_started [OF b] demo_unstarted by simp
  obtain m2 where i: "ota_install demo_env ?c JNull True (m1\<lparr>o_marker := None\<rparr>) = (Inr (), m2)"
      "o_started m2 = [([2, 3, 4], wrapper_script demo_env (source_url github ''datad''))]"
    using install_started [of demo_env JNull ?c "demo_artifact ''install.sh''" "demo_artifact ''datad''" "[2, 3, 4]" "m1\<lparr>o_marker := None\<rparr>"]
      demo_facts m1 demo_hash by (auto simp: demo_env_simps demo_manifest_def demo_artifact_def)
  have u: "has_update demo_env ?c" using demo_facts(2) by (simp add: has_update_def demo_env_simps demo_manifest_def)
  show thesis
  proof (rule that)
    show "update_run demo_cu (demo_command ''datad.update.install'') demo_cu_app
      = (Inr (command_answer (demo_command ''datad.update.install'') ''installing'' (command_data demo_cu ?c (demo_artifact ''datad''))),
         True, \<lparr>cu_manager = finish_update demo_env m2,
           cu_record = Holds (command_answer (demo_command ''datad.update.install'') ''installing''
             (command_data demo_cu ?c (demo_artifact ''datad'')))\<rparr>)"
      using demo_valid b k i(1) u
      by (simp add: update_run_def demo_cu_def demo_cu_app_def cu_boot_def demo_env_simps cloud_update_result_def
          update_operation_def demo_manifest_def demo_artifact_def demo_command_def with_manager_def write_record_def Let_def trim_b)
  qed (simp add: i(2))
qed

theorem cloud_install_authorised_witness:
  "uptime_window (f64_const 1000) (Some (f64_const 1100))
   \<and> (\<exists>enc sig m. ota_verify demo_env enc sig \<and> oe_manifest demo_env enc = Some m \<and> newer (mf_version m) ''0.9.0''
        \<and> mf_version m = ''1.0.0'')"
proof -
  obtain s1 r where i: "update_run demo_cu (demo_command ''datad.update.install'') demo_cu_app = (r, True, s1)"
    "o_started (cu_manager s1) = [([2, 3, 4], wrapper_script demo_env (source_url github ''datad''))]"
    by (rule demo_installs)
  let ?c = "demo_command ''datad.update.install''"
  have s: "o_started (cu_manager (snd (cloud_update demo_cu ?c demo_cu_app))) \<noteq> o_started (cu_manager demo_cu_app)"
    using i demo_unstarted by (simp add: cloud_update_manager demo_cu_app_def)
  have "same_process demo_env (cu_ota demo_cu)" by (simp add: same_process_def demo_cu_def)
  note r = cloud_install_authorised [OF s this]
  have f: "cu_uptime demo_cu = f64_const 1000" "cc_expires_uptime ?c = Some (f64_const 1100)" "cc_target_version ?c = ''1.0.0''"
    by (simp_all add: demo_cu_def demo_command_def)
  show ?thesis using r unfolding f demo_env_simps(1) by blast
qed

theorem cloud_update_once_witness:
  "let c = demo_command ''datad.update.install'' in
   cu_manager (snd (cloud_update demo_cu c (with_manager (repeat_command c [(demo_cu, demo_ota)]
     (snd (cloud_update demo_cu c demo_cu_app))) demo_ota))) = demo_ota"
proof -
  obtain s1 r where i: "update_run demo_cu (demo_command ''datad.update.install'') demo_cu_app = (r, True, s1)"
    by (rule demo_installs)
  show ?thesis unfolding Let_def by (rule cloud_update_once [OF i]) (simp_all add: demo_cu_def)
qed

end
