(* ===== verification/Ota_App.thy ===== *)
theory Ota_App
  imports Cloud_Update
begin

text \<open>
  The updater inside the server: the handlers of \<open>server.rs\<close> that drive it, the tasks they leave
  behind, the background round and the commands of the cloud, interleaved in any order.
\<close>

section \<open>Requests from outside\<close>

text \<open>
  The handlers of \<open>server.rs\<close> that drive the updater.  Some answer at once and leave a task behind
  that takes the lock later, so tasks interleave with other requests and with the background round.
\<close>

datatype ota_task = TaskCheck | TaskInstall candidate | TaskUpdate

record ota_app =
  app_ota :: ota
  app_tasks :: "ota_task list"
  app_record :: "json disk"

datatype ota_event =
    EvTick bool json
  | EvConfig ota_config
  | EvAuto bool
  | EvStatus
  | EvCheck
  | EvAppCheck
  | EvAppInstall string
  | EvUpdate
  | EvRun nat json
  | EvCloud cu_env cloud_command

definition run_update :: "ota_env \<Rightarrow> json \<Rightarrow> ota \<Rightarrow> ota" where
  "run_update e snap s =
     finish_update e (case ota_check e s of
        (Inl err, s1) \<Rightarrow> ota_fail e None err s1
      | (Inr c, s1) \<Rightarrow>
          if \<not> has_update e c then ota_fail e (Some c) (ustr [0x5f53, 0x524d, 0x5df2, 0x662f, 0x6700, 0x65b0, 0x7248, 0x672c]) s1
          else (case ota_install e c snap True s1 of (Inr _, s2) \<Rightarrow> s2 | (Inl err, s2) \<Rightarrow> ota_fail e (Some c) err s2))"

definition run_install :: "ota_env \<Rightarrow> candidate \<Rightarrow> json \<Rightarrow> ota \<Rightarrow> ota" where
  "run_install e c snap s =
     finish_update e (case ota_install e c snap True s of (Inr _, s1) \<Rightarrow> s1 | (Inl err, s1) \<Rightarrow> ota_fail e (Some c) err s1)"

fun run_task :: "ota_env \<Rightarrow> json \<Rightarrow> ota_task \<Rightarrow> ota \<Rightarrow> ota" where
  "run_task e snap TaskCheck s = finish_update e (snd (ota_check e s))"
| "run_task e snap (TaskInstall c) s = run_install e c snap s"
| "run_task e snap TaskUpdate s = run_update e snap s"

fun ota_step :: "ota_env \<Rightarrow> ota_event \<Rightarrow> ota_app \<Rightarrow> ota_app" where
  "ota_step e (EvTick auto snap) a = a\<lparr>app_ota := ota_tick e auto snap (app_ota a)\<rparr>"
| "ota_step e (EvConfig c) a = a\<lparr>app_ota := snd (update_config e c (app_ota a))\<rparr>"
| "ota_step e (EvAuto enabled) a = a\<lparr>app_ota := snd (panel_ota_set e enabled (app_ota a))\<rparr>"
| "ota_step e EvStatus a = a\<lparr>app_ota := reconcile_install_result e (app_ota a)\<rparr>"
| "ota_step e EvCheck a = a\<lparr>app_ota := snd (ota_check e (app_ota a))\<rparr>"
| "ota_step e EvAppCheck a =
     (case begin_requested_update e (app_ota a) of
        (Inl _, s) \<Rightarrow> a\<lparr>app_ota := s\<rparr>
      | (Inr _, s) \<Rightarrow> a\<lparr>app_ota := s, app_tasks := app_tasks a @ [TaskCheck]\<rparr>)"
| "ota_step e (EvAppInstall i) a =
     (case approved_candidate e i (app_ota a) of
        Inl _ \<Rightarrow> a
      | Inr c \<Rightarrow>
          (case begin_update e (app_ota a) of
             (Inl _, s) \<Rightarrow> a\<lparr>app_ota := s\<rparr>
           | (Inr _, s) \<Rightarrow> a\<lparr>app_ota := s, app_tasks := app_tasks a @ [TaskInstall c]\<rparr>))"
| "ota_step e EvUpdate a =
     (case begin_update e (app_ota a) of
        (Inl _, s) \<Rightarrow> a\<lparr>app_ota := s\<rparr>
      | (Inr _, s) \<Rightarrow> a\<lparr>app_ota := s, app_tasks := app_tasks a @ [TaskUpdate]\<rparr>)"
| "ota_step e (EvRun i snap) a =
     (if i < length (app_tasks a)
      then a\<lparr>app_ota := run_task e snap (app_tasks a ! i) (app_ota a), app_tasks := take i (app_tasks a) @ drop (Suc i) (app_tasks a)\<rparr>
      else a)"
| "ota_step e (EvCloud x c) a =
     (let s = snd (cloud_update (x\<lparr>cu_ota := e\<rparr>) c \<lparr>cu_manager = app_ota a, cu_record = app_record a\<rparr>)
      in a\<lparr>app_ota := cu_manager s, app_record := cu_record s\<rparr>)"

lemma operation_inv:
  assumes "same_process p (cu_ota e)" "ota_inv p (cu_manager s)" "update_operation e c s = (r, s1)"
  shows "ota_inv p (cu_manager s1)"
proof -
  obtain q m where k: "ota_check (cu_ota e) (cu_manager s) = (q, m)" by fastforce
  note ok = check_inv [OF assms(1,2) k]
  have i: "ota_inv p m2" if "q = Inr cand" "has_update (cu_ota e) cand"
      "ota_install (cu_ota e) cand snap True (m\<lparr>o_marker := mk\<rparr>) = (ri, m2)" for cand snap mk ri m2
    using install_pair_inv [OF assms(1) _ that(2) _ that(3)] check_vouched [OF assms(1)] k ok that(1) by auto
  have "m\<lparr>o_marker := o_marker m\<rparr> = m" by simp
  note i' = i [where mk = "o_marker m", unfolded this]
  show ?thesis using k ok assms(3) i i'
    by (auto simp: update_operation_def Let_def write_record_def split: sum.splits prod.splits option.splits if_splits)
qed

lemma cloud_update_inv:
  assumes "same_process p (cu_ota e)" "ota_inv p (cu_manager s)"
  shows "ota_inv p (cu_manager (snd (cloud_update e c s)))"
proof -
  obtain previous sr where pr: "cloud_update_result e s = (previous, sr)" by fastforce
  then have sr: "cu_manager sr = cu_manager s" using result_manager [of e s] by simp
  obtain rb m where b: "begin_requested_update (cu_ota e) (cu_manager sr) = (rb, m)" by fastforce
  have m: "ota_inv p (cu_manager (with_manager sr m))" using requested_inv [OF b] sr assms(2) by simp
  obtain q s2 where u: "update_operation e c (with_manager sr m) = (q, s2)" by fastforce
  show ?thesis using pr sr b u m assms(2) operation_inv [OF assms(1) m u]
    by (auto simp: cloud_update_manager update_run_def split: option.split sum.split)
qed

lemma run_install_inv:
  assumes "same_process p e" "vouched p c" "has_update e c" "ota_inv p s"
  shows "ota_inv p (run_install e c snap s)"
  using install_pair_inv [OF assms] by (auto simp: run_install_def split: sum.split prod.split)

lemma run_update_inv:
  assumes "same_process p e" "ota_inv p s"
  shows "ota_inv p (run_update e snap s)"
proof -
  obtain r s1 where k: "ota_check e s = (r, s1)" by fastforce
  note ok = check_inv [OF assms k]
  have i: "ota_inv p s2" if "r = Inr c" "has_update e c" "ota_install e c snap True s1 = (ri, s2)" for c ri s2
    using install_pair_inv [OF assms(1) _ that(2) ok that(3)] check_vouched [OF assms(1)] k that(1) by blast
  show ?thesis using k ok i
    by (auto simp: run_update_def split: sum.split prod.split)
qed

fun task_ok :: "ota_env \<Rightarrow> ota_task \<Rightarrow> bool" where
  "task_ok p (TaskInstall c) = (vouched p c \<and> newer (mf_version (ca_manifest c)) (oe_version p))"
| "task_ok p _ = True"

definition app_inv :: "ota_env \<Rightarrow> ota_app \<Rightarrow> bool" where
  "app_inv p a \<longleftrightarrow> ota_inv p (app_ota a) \<and> (\<forall>t\<in>set (app_tasks a). task_ok p t)"

lemma run_task_inv:
  assumes "same_process p e" "ota_inv p s" "task_ok p t"
  shows "ota_inv p (run_task e snap t s)"
proof (cases t)
  case TaskCheck
  then show ?thesis using check_inv(1) [OF assms(1,2)] by (simp) (metis prod.collapse)
next
  case (TaskInstall c)
  then show ?thesis using run_install_inv [OF assms(1) _ _ assms(2)] same_update [OF assms(1)] assms(3) by simp
next
  case TaskUpdate
  then show ?thesis using run_update_inv [OF assms(1,2)] by simp
qed

lemma step_inv:
  assumes "same_process p e" "app_inv p a"
  shows "app_inv p (ota_step e ev a)"
proof -
  have s: "ota_inv p (app_ota a)" and t: "\<forall>t\<in>set (app_tasks a). task_ok p t" using assms(2) by (simp_all add: app_inv_def)
  show ?thesis
  proof (cases ev)
    case (EvTick auto snap)
    then show ?thesis using t auto_install_inv [OF assms(1)] auto_check_inv [OF assms(1)] s
      by (simp add: app_inv_def ota_tick_def Let_def)
  next
    case EvCheck
    then show ?thesis using t check_inv(1) [OF assms(1) s] by (simp add: app_inv_def) (metis prod.collapse)
  next
    case EvAppCheck
    then show ?thesis using t s requested_inv [of e "app_ota a" _ _ p] by (auto simp: app_inv_def split: prod.split sum.split)
  next
    case (EvAppInstall i)
    have "task_ok p (TaskInstall c)" if "approved_candidate e i (app_ota a) = Inr c" for c
      using that s same_update [OF assms(1)]
      by (auto simp: approved_candidate_def ota_inv_def split: option.splits if_splits)
    then show ?thesis using EvAppInstall t s begin_pair [of e "app_ota a" _ _ p]
      by (auto simp: app_inv_def split: prod.split sum.split)
  next
    case EvUpdate
    then show ?thesis using t s begin_pair [of e "app_ota a" _ _ p] by (auto simp: app_inv_def split: prod.split sum.split)
  next
    case (EvRun i snap)
    then show ?thesis using t s run_task_inv [OF assms(1) s]
      by (auto simp: app_inv_def dest: in_set_takeD in_set_dropD)
  next
    case (EvCloud x c)
    then show ?thesis using t cloud_update_inv [of p "x\<lparr>cu_ota := e\<rparr>"] assms(1) s by (simp add: app_inv_def Let_def)
  qed (use s t in \<open>simp_all add: app_inv_def panel_ota_set_def set_auto_inv\<close>)
qed

definition ota_run :: "(ota_env \<times> ota_event) list \<Rightarrow> ota_app \<Rightarrow> ota_app" where
  "ota_run evs a = foldl (\<lambda>st (e, ev). ota_step e ev st) a evs"

lemma run_inv:
  assumes "\<forall>x\<in>set evs. same_process p (fst x)" "app_inv p a"
  shows "app_inv p (ota_run evs a)"
  using assms
proof (induction evs arbitrary: a)
  case (Cons x evs)
  obtain e ev where x: "x = (e, ev)" by fastforce
  show ?case using Cons.IH [of "ota_step e ev a"] Cons.prems step_inv [of p e a ev] x by (simp add: ota_run_def)
qed (simp add: ota_run_def)

lemma update_carried_out:
  assumes "\<not> oe_changing e" "\<not> o_busy (app_ota a)" "os_state (o_status (app_ota a)) \<noteq> ''installing''"
    and "ota_servers (o_config (app_ota a)) = pre @ base # post" "\<forall>b\<in>set pre. \<not> offers_newer e b"
    and "ask_source e base = SourceManifest m" "newer (mf_version m) (oe_version e)"
    and "map_of (mf_artifacts m) ''installer'' = Some ins" "map_of (mf_artifacts m) ''binary'' = Some bin"
    and "ota_fetch e (source_url base (ar_name ins)) (16 * 2 ^ 20) = Inr raw" "hex_sha256 e raw = ar_sha256 ins"
    and "\<forall>f. oe_write e f = None" "oe_remove_marker e = None" "oe_spawn e = None" "device_reasons snap = []"
  shows "let s = app_ota (ota_run [(e, EvUpdate), (e, EvRun (length (app_tasks a)) snap)] a) in
       o_started s = o_started (app_ota a) @ [(raw, wrapper_script e (source_url base (ar_name bin)))]
       \<and> os_state (o_status s) = ''installing'' \<and> os_latest_version (o_status s) = mf_version m
       \<and> o_install_deadline s = Some (duration_add (oe_now e) (seconds 1800))"
proof -
  let ?c = "\<lparr>ca_manifest = m, ca_base_url = base\<rparr>"
  obtain s0 where b: "begin_update e (app_ota a) = (Inr (), s0)" and s0: "o_started s0 = o_started (app_ota a)"
      "o_config s0 = o_config (app_ota a)" "os_state (o_status s0) = ''checking''"
    using assms(1-3) by (simp add: begin_update_def ota_saving)
  have s0c: "ota_servers (o_config s0) = pre @ base # post" "os_state (o_status s0) \<noteq> ''installing''"
    using s0 assms(4) by simp_all
  note found = check_finds [OF assms(6,7,5) s0c(1) assms(1) s0c(2)]
  obtain s1 where k: "ota_check e s0 = (Inr ?c, s1)" "o_started s1 = o_started s0" using found by (metis prod.collapse)
  obtain s2 where i: "ota_install e ?c snap True s1 = (Inr (), s2)"
    "o_started s2 = o_started s1 @ [(raw, wrapper_script e (source_url base (ar_name bin)))]"
    "os_state (o_status s2) = ''installing''" "os_latest_version (o_status s2) = mf_version m"
    "o_install_deadline s2 = Some (duration_add (oe_now e) (seconds 1800))"
    using install_started [of e snap ?c ins bin raw s1] assms by auto
  have "app_ota (ota_run [(e, EvUpdate), (e, EvRun (length (app_tasks a)) snap)] a) = finish_update e s2"
    using b k i assms(7) by (simp add: ota_run_def run_update_def has_update_def)
  then show ?thesis using i k(2) s0 by (simp add: Let_def finish_update_def ota_publish_def)
qed

definition demo_app :: ota_app where
  "demo_app = \<lparr>app_ota = demo_ota, app_tasks = [], app_record = Missing\<rparr>"


lemma demo_ready:
  "\<not> o_busy (app_ota demo_app)" "os_state (o_status (app_ota demo_app)) \<noteq> ''installing''"
  "o_started (app_ota demo_app) = []"
  "hex_sha256 demo_env [2, 3, 4] = replicate 64 (CHR ''0'')"
  by code_simp+

lemma demo_started:
  "o_started (app_ota (ota_run [(demo_env, EvUpdate), (demo_env, EvRun 0 JNull)] demo_app))
     = [([2, 3, 4], wrapper_script demo_env (source_url github ''datad''))]"
proof -
  note facts = demo_facts demo_ready
  show ?thesis
    using update_carried_out [of demo_env demo_app "[]" github "[netdisk]" demo_manifest "demo_artifact ''install.sh''"
        "demo_artifact ''datad''" "[2, 3, 4]" JNull] facts
    by (simp add: Let_def demo_env_def demo_manifest_def demo_artifact_def demo_app_def)
qed

text \<open>
  C2: Only what was signed is installed.  Whatever requests, background rounds, delayed tasks and cloud
  commands a process handles, and in whatever order, every installer it starts has the SHA-256 that a
  manifest names which carries a valid signature under the built-in key, is well formed, and is of a newer
  version than the running one.\<close>
theorem ota_installs_only_signed:
  assumes "\<forall>x\<in>set evs. same_process p (fst x)"
    and "inst \<in> set (o_started (app_ota (ota_run evs
           \<lparr>app_ota = ota_start e cf sf marker installer wrapper lg, app_tasks = [], app_record = rf\<rparr>)))"
  shows "\<exists>raw encoded m a. ota_verify p raw encoded \<and> oe_manifest p raw = Some m \<and> manifest_ok m
       \<and> newer (mf_version m) (oe_version p)
       \<and> map_of (mf_artifacts m) ''installer'' = Some a \<and> hex_sha256 p (fst inst) = ar_sha256 a"
proof -
  have "app_inv p (ota_run evs \<lparr>app_ota = ota_start e cf sf marker installer wrapper lg, app_tasks = [], app_record = rf\<rparr>)"
    by (rule run_inv [OF assms(1)]) (simp add: app_inv_def ota_start_def load_inv)
  then have "genuine p inst" using assms(2) by (simp add: app_inv_def ota_inv_def list_all_iff)
  then show ?thesis by (auto simp: genuine_def vouched_def)
qed

theorem ota_installs_only_signed_witness:
  "\<exists>raw encoded m a. ota_verify demo_env raw encoded \<and> oe_manifest demo_env raw = Some m \<and> manifest_ok m
     \<and> newer (mf_version m) ''0.9.0''
     \<and> map_of (mf_artifacts m) ''installer'' = Some a \<and> hex_sha256 demo_env [2, 3, 4] = ar_sha256 a"
proof -
  let ?inst = "([2, 3, 4], wrapper_script demo_env (source_url github ''datad''))"
  have "?inst \<in> set (o_started (app_ota (ota_run [(demo_env, EvUpdate), (demo_env, EvRun 0 JNull)] demo_app)))"
    by (simp add: demo_started)
  then show ?thesis
    using ota_installs_only_signed [of "[(demo_env, EvUpdate), (demo_env, EvRun 0 JNull)]" demo_env ?inst demo_env Missing Missing
        None "[]" "[]" status_initial Missing]
    by (simp add: demo_app_def demo_ota_def same_process_def) (simp add: demo_env_def)
qed



end
