(* ===== verification/Nat_Probe.thy ===== *)
theory Nat_Probe
  imports Stun Rust_Net
begin

text \<open>
  The detection of the NAT type, \<open>nat.rs\<close>: classification, the parser of captured packets, one request with its
  retransmissions, the tests of filtering and mapping, the cached result, and the watcher that
  repeats the detection when the WAN addresses change.

  A socket is a number.  What the network does with a request is a parameter that carries a
  state of its own, since a NAT remembers whom a socket has contacted.
\<close>

section \<open>Behaviour and addresses\<close>

datatype behaviour = EndpointIndependent | AddressDependent | AddressAndPortDependent | Dependent | Undetermined

fun behaviour_name :: "behaviour \<Rightarrow> string" where
  "behaviour_name EndpointIndependent = ''endpoint_independent''"
| "behaviour_name AddressDependent = ''address_dependent''"
| "behaviour_name AddressAndPortDependent = ''address_and_port_dependent''"
| "behaviour_name Dependent = ''dependent''"
| "behaviour_name Undetermined = ''unknown''"

definition classify :: "bool \<Rightarrow> behaviour \<Rightarrow> behaviour \<Rightarrow> string \<times> nat option" where
  "classify nt mapping filtering =
     (if \<not> nt then
        (case filtering of EndpointIndependent \<Rightarrow> (''open'', None) | Undetermined \<Rightarrow> (''no_nat'', None) | _ \<Rightarrow> (''firewalled'', None))
      else if mapping \<in> {AddressDependent, AddressAndPortDependent, Dependent} then (''symmetric'', Some 4)
      else if mapping = EndpointIndependent \<and> filtering = EndpointIndependent then (''full_cone'', Some 1)
      else if mapping = EndpointIndependent \<and> filtering = AddressDependent then (''restricted_cone'', Some 2)
      else if mapping = EndpointIndependent \<and> filtering = AddressAndPortDependent then (''port_restricted_cone'', Some 3)
      else (''unknown'', None))"

definition carrier_range :: "nat list \<Rightarrow> bool" where
  "carrier_range v \<longleftrightarrow> v4_private v \<or> (v ! 0 = 100 \<and> 64 \<le> v ! 1 \<and> v ! 1 < 128)"

definition v4_documentation :: "nat list \<Rightarrow> bool" where
  "v4_documentation v \<longleftrightarrow> take 3 v \<in> {[192, 0, 2], [198, 51, 100], [203, 0, 113]}"

fun public_ip4 :: "stun_ip \<Rightarrow> bool" where
  "public_ip4 (Ip4 xs) =
     (let v = map unat xs in
      \<not> (carrier_range v \<or> v4_loopback v \<or> v4_link_local v \<or> v4_unspecified v \<or> v4_broadcast v \<or> v4_documentation v
         \<or> v4_multicast v))"
| "public_ip4 (Ip6 xs) = False"

definition public_addr :: "sock_addr \<Rightarrow> bool" where
  "public_addr a = public_ip4 (sa_ip a)"

section \<open>Replies\<close>

record reply =
  rp_mapped :: sock_addr
  rp_other :: "sock_addr option"
  rp_source :: sock_addr

record seen =
  sn_socket :: "reply option"
  sn_wire :: "reply option"

definition seen_none :: seen where "seen_none = \<lparr>sn_socket = None, sn_wire = None\<rparr>"

definition seen_view :: "seen \<Rightarrow> bool \<Rightarrow> reply option" where
  "seen_view s wire = (if wire then sn_wire s else sn_socket s)"

text \<open>The header length is at most 60, so every index below lies within the packet once the guards hold.\<close>

definition udp_payload :: "bytes \<Rightarrow> (sock_addr \<times> bytes) option" where
  "udp_payload packet =
     (if packet = [] then None
      else
        let header = (unat (packet ! 0) mod 16) * 4 in
        if unat (packet ! 0) div 16 \<noteq> 4 \<or> header < 20 \<or> length packet < header + 8 \<or> packet ! 9 \<noteq> 17 then None
        else if be_nat [packet ! 6, packet ! 7] mod 2 ^ 14 \<noteq> 0 then None
        else
          let total = min (be_nat [packet ! 2, packet ! 3]) (length packet);
              source = Ip4 [packet ! 12, packet ! 13, packet ! 14, packet ! 15];
              port = word_of_nat (be_nat [packet ! header, packet ! (header + 1)]);
              n = be_nat [packet ! (header + 4), packet ! (header + 5)];
              stop = min (header + n) total
          in if stop < header + 8 then None
             else Some (\<lparr>sa_ip = source, sa_port = port\<rparr>, take (stop - (header + 8)) (drop (header + 8) packet)))"

section \<open>One request\<close>

text \<open>
  What happens while a request waits: a datagram on the socket, a failure of the socket, a reply on the
  capture.  A list of such events ends at the deadline.\<close>

datatype probe_event = Received bytes sock_addr | RecvFailed | Captured reply

text \<open>\<open>Inl\<close> is an answer that ends the request, \<open>Inr\<close> the captured reply with which the wait ends.\<close>

fun listen :: "bool \<Rightarrow> bytes \<Rightarrow> reply option \<Rightarrow> probe_event list \<Rightarrow> seen + reply option" where
  "listen cap t wire [] = Inr wire"
| "listen cap t wire (RecvFailed # _) = Inr wire"
| "listen cap t wire (Received packet source # es) =
     (case stun_parse packet t of
        Some (Mapped mapped other) \<Rightarrow>
          let r = \<lparr>rp_mapped = mapped, rp_other = other, rp_source = source\<rparr>
          in Inl \<lparr>sn_socket = Some r, sn_wire = Some r\<rparr>
      | Some BindingError \<Rightarrow> Inl seen_none
      | None \<Rightarrow> listen cap t wire es)"
| "listen cap t wire (Captured r # es) = listen cap t (if cap \<and> wire = None then Some r else wire) es"

fun query_rounds :: "bool \<Rightarrow> bytes \<Rightarrow> reply option \<Rightarrow> (bool \<times> probe_event list) list \<Rightarrow> seen" where
  "query_rounds cap t wire [] = \<lparr>sn_socket = None, sn_wire = wire\<rparr>"
| "query_rounds cap t wire ((sent, es) # rest) =
     (if \<not> sent then \<lparr>sn_socket = None, sn_wire = wire\<rparr>
      else case listen cap t wire es of
        Inl s \<Rightarrow> s
      | Inr w \<Rightarrow> if w \<noteq> None then \<lparr>sn_socket = None, sn_wire = w\<rparr> else query_rounds cap t w rest)"

definition waits :: nat where "waits = 2"

definition query_seen :: "bool \<Rightarrow> bytes \<Rightarrow> (bool \<times> probe_event list) list \<Rightarrow> seen" where
  "query_seen cap t rounds = query_rounds cap t None (take waits rounds)"

section \<open>Probes\<close>

text \<open>
  The network: whether a socket can be bound and captured, its port, the local address towards a target, and
  the outcome of a request (\<open>query_seen\<close>) from a socket, with or without its capture.\<close>

record 'n network =
  nw_bind :: "nat \<Rightarrow> bool"
  nw_port :: "nat \<Rightarrow> u16"
  nw_capture :: "nat \<Rightarrow> bool"
  nw_local :: "sock_addr \<Rightarrow> stun_ip option"
  nw_ask :: "nat \<Rightarrow> bool \<Rightarrow> sock_addr \<Rightarrow> u8 \<Rightarrow> 'n \<Rightarrow> seen \<times> 'n"

definition query :: "'n network \<Rightarrow> nat \<Rightarrow> sock_addr \<Rightarrow> u8 \<Rightarrow> 'n \<Rightarrow> reply option \<times> 'n" where
  "query w i target change n = (let (s, n') = nw_ask w i False target change n in (sn_socket s, n'))"

definition change_port :: u8 where "change_port = 2"
definition change_ip :: u8 where "change_ip = 4"

definition alternate :: "sock_addr \<Rightarrow> reply \<Rightarrow> sock_addr option" where
  "alternate server r =
     (case rp_other r of None \<Rightarrow> None
      | Some other \<Rightarrow> if public_addr other \<and> sa_ip other \<noteq> sa_ip server \<and> sa_port other \<noteq> sa_port server then Some other else None)"

record probe =
  pb_label :: string
  pb_server :: sock_addr
  pb_socket :: nat
  pb_capture :: bool
  pb_reply :: reply

definition probe_open :: "'n network \<Rightarrow> string \<Rightarrow> sock_addr \<Rightarrow> bool \<Rightarrow> nat \<Rightarrow> 'n \<Rightarrow> probe option \<times> 'n" where
  "probe_open w label server capture i n =
     (if \<not> nw_bind w i then (None, n)
      else case query w i server 0 n of
        (None, n1) \<Rightarrow> (None, n1)
      | (Some r, n1) \<Rightarrow>
          (Some \<lparr>pb_label = label, pb_server = server, pb_socket = i, pb_capture = (capture \<and> nw_capture w i), pb_reply = r\<rparr>, n1))"

definition probe_alternate :: "probe \<Rightarrow> sock_addr option" where
  "probe_alternate p = alternate (pb_server p) (pb_reply p)"

definition port_verdict :: "reply option \<Rightarrow> sock_addr \<Rightarrow> bool option" where
  "port_verdict r server =
     (case r of
        Some x \<Rightarrow> if sa_ip (rp_source x) = sa_ip server \<and> sa_port (rp_source x) \<noteq> sa_port server then Some True else None
      | None \<Rightarrow> Some False)"

fun merge_verdicts :: "bool option \<Rightarrow> bool option list \<Rightarrow> bool option" where
  "merge_verdicts v [] = v"
| "merge_verdicts v (None # rs) = merge_verdicts v rs"
| "merge_verdicts v (Some r # rs) = merge_verdicts (Some ((case v of Some b \<Rightarrow> b | None \<Rightarrow> False) \<or> r)) rs"

definition evaluate :: "seen \<Rightarrow> (seen \<times> sock_addr) list \<Rightarrow> sock_addr \<Rightarrow> bool \<Rightarrow> behaviour" where
  "evaluate both ports server wire =
     (case seen_view both wire of
        Some r \<Rightarrow> if sa_ip (rp_source r) \<noteq> sa_ip server then EndpointIndependent else Undetermined
      | None \<Rightarrow>
          (case merge_verdicts None (map (\<lambda>(s, a). port_verdict (seen_view s wire) a) ports) of
             Some True \<Rightarrow> AddressDependent
           | Some False \<Rightarrow> AddressAndPortDependent
           | None \<Rightarrow> Undetermined))"

definition undecided :: "seen \<Rightarrow> (seen \<times> sock_addr) list \<Rightarrow> bool \<Rightarrow> bool" where
  "undecided both ports wire \<longleftrightarrow>
     seen_view both wire = None \<and> \<not> list_ex (\<lambda>(s, a). port_verdict (seen_view s wire) a = Some True) ports"

definition test_needed :: "bool \<Rightarrow> seen \<Rightarrow> (seen \<times> sock_addr) list \<Rightarrow> bool" where
  "test_needed wire both ports \<longleftrightarrow> undecided both ports False \<or> (wire \<and> undecided both ports True)"

fun port_tests ::
  "'n network \<Rightarrow> bool \<Rightarrow> seen \<Rightarrow> probe list \<Rightarrow> (seen \<times> sock_addr) list \<Rightarrow> 'n \<Rightarrow> (seen \<times> sock_addr) list \<times> 'n" where
  "port_tests w wire both [] ports n = (ports, n)"
| "port_tests w wire both (p # ps) ports n =
     (if \<not> test_needed wire both ports then (ports, n)
      else
        let (s, n1) = nw_ask w (pb_socket p) (pb_capture p) (pb_server p) change_port n
        in port_tests w wire both ps (ports @ [(s, pb_server p)]) n1)"

definition filtering :: "'n network \<Rightarrow> probe \<Rightarrow> probe list \<Rightarrow> 'n \<Rightarrow> (behaviour \<times> behaviour option) \<times> 'n" where
  "filtering w main others n =
     (let server = pb_server main; wire = pb_capture main;
          (both, n1) = nw_ask w (pb_socket main) wire server (change_ip OR change_port) n;
          (ports, n2) = port_tests w wire both (main # filter (\<lambda>p. probe_alternate p \<noteq> None) others) [] n1
      in ((evaluate both ports server False, if wire then Some (evaluate both ports server True) else None), n2))"

text \<open>The loop of \<open>open_probes\<close>; socket numbers follow the position of the server.\<close>

fun open_loop ::
  "'n network \<Rightarrow> bool \<Rightarrow> nat \<Rightarrow> (string \<times> sock_addr) list \<Rightarrow> nat \<Rightarrow> probe list \<Rightarrow> 'n \<Rightarrow> probe list \<times> 'n" where
  "open_loop w capture count [] i ps n = (ps, n)"
| "open_loop w capture count ((label, server) # rest) i ps n =
     (if length (filter (\<lambda>p. probe_alternate p \<noteq> None) ps) \<ge> count then (ps, n)
      else case probe_open w label server capture i n of
        (Some p, n1) \<Rightarrow> open_loop w capture count rest (Suc i) (ps @ [p]) n1
      | (None, n1) \<Rightarrow> open_loop w capture count rest (Suc i) ps n1)"

definition open_probes :: "'n network \<Rightarrow> (string \<times> sock_addr) list \<Rightarrow> nat \<Rightarrow> bool \<Rightarrow> 'n \<Rightarrow> probe list \<times> 'n" where
  "open_probes w resolved count capture n =
     (let (ps, n1) = open_loop w capture count resolved 0 [] n
      in (if list_ex (\<lambda>p. \<not> pb_capture p) ps then map (\<lambda>p. p\<lparr>pb_capture := False\<rparr>) ps else ps, n1))"

section \<open>A detection\<close>

record nat_detail =
  nd_nat :: bool
  nd_carrier_nat :: bool
  nd_mapping :: behaviour
  nd_filtering :: behaviour
  nd_measured_at :: string
  nd_device :: "string \<times> nat option \<times> behaviour"
  nd_public_address :: sock_addr
  nd_local_address :: "(stun_ip \<times> u16) option"
  nd_port_preserved :: bool
  nd_server :: string
  nd_rfc5780 :: bool

text \<open>The JSON object of a result; the fields of \<open>measure\<close> are empty until it sets them.\<close>

record nat_report =
  nr_type :: string
  nr_level :: "nat option"
  nr_error :: "string option"
  nr_detail :: "nat_detail option"
  nr_checked_at :: nat
  nr_trigger :: string
  nr_wan :: "string list"

definition plain_report :: "string \<Rightarrow> nat option \<Rightarrow> string option \<Rightarrow> nat_detail option \<Rightarrow> nat_report" where
  "plain_report kind level err d =
     \<lparr>nr_type = kind, nr_level = level, nr_error = err, nr_detail = d, nr_checked_at = 0, nr_trigger = [], nr_wan = []\<rparr>"

definition port_filter_servers :: nat where "port_filter_servers = 2"

definition swap_remove :: "nat \<Rightarrow> 'a list \<Rightarrow> 'a \<times> 'a list" where
  "swap_remove i xs = (xs ! i, if i = length xs - 1 then butlast xs else butlast (xs[i := last xs]))"

definition first_index :: "('a \<Rightarrow> bool) \<Rightarrow> 'a list \<Rightarrow> nat option" where
  "first_index f xs = (case find (\<lambda>i. f (xs ! i)) [0..<length xs] of Some i \<Rightarrow> Some i | None \<Rightarrow> None)"

text \<open>The mapping test through the alternate address of the server.\<close>

definition map_alternate :: "'n network \<Rightarrow> probe \<Rightarrow> sock_addr \<Rightarrow> 'n \<Rightarrow> behaviour \<times> 'n" where
  "map_alternate w main other n =
     (case query w (pb_socket main) \<lparr>sa_ip = sa_ip other, sa_port = sa_port (pb_server main)\<rparr> 0 n of
        (None, n1) \<Rightarrow> (Undetermined, n1)
      | (Some second, n1) \<Rightarrow>
          if rp_mapped second = rp_mapped (pb_reply main) then (EndpointIndependent, n1)
          else case query w (pb_socket main) other 0 n1 of
            (Some third, n2) \<Rightarrow>
              (if rp_mapped third = rp_mapped second then AddressDependent else AddressAndPortDependent, n2)
          | (None, n2) \<Rightarrow> (Dependent, n2))"

text \<open>Without an alternate address: the mapping towards another server from the same socket.\<close>

definition map_second :: "'n network \<Rightarrow> probe \<Rightarrow> probe list \<Rightarrow> behaviour \<Rightarrow> 'n \<Rightarrow> behaviour \<times> 'n" where
  "map_second w main probes mapping n =
     (if mapping \<noteq> Undetermined then (mapping, n)
      else case find (\<lambda>p. sa_ip (pb_server p) \<noteq> sa_ip (pb_server main)) probes of
        None \<Rightarrow> (mapping, n)
      | Some second \<Rightarrow>
          (case query w (pb_socket main) (pb_server second) 0 n of
             (None, n1) \<Rightarrow> (mapping, n1)
           | (Some r, n1) \<Rightarrow> (if rp_mapped r = rp_mapped (pb_reply main) then EndpointIndependent else Dependent, n1)))"

definition behind_carrier :: "bool \<Rightarrow> stun_ip option \<Rightarrow> bool" where
  "behind_carrier nt ip = (case ip of Some (Ip4 xs) \<Rightarrow> nt \<and> carrier_range (map unat xs) | _ \<Rightarrow> False)"

definition report_of ::
  "'n network \<Rightarrow> probe \<Rightarrow> stun_ip option \<Rightarrow> bool \<Rightarrow> behaviour \<Rightarrow> behaviour \<Rightarrow> behaviour option \<Rightarrow> nat_report" where
  "report_of w main local nt mapping device carrier =
     (let f = (case carrier of Some x \<Rightarrow> x | None \<Rightarrow> device);
          (kind, level) = classify nt mapping f;
          (dkind, dlevel) = classify nt mapping device;
          port = nw_port w (pb_socket main);
          mapped = rp_mapped (pb_reply main)
      in plain_report kind level None (Some
           \<lparr>nd_nat = nt, nd_carrier_nat = behind_carrier nt local, nd_mapping = mapping, nd_filtering = f,
            nd_measured_at = (if carrier \<noteq> None then ''carrier'' else ''device''), nd_device = (dkind, dlevel, device),
            nd_public_address = mapped, nd_local_address = map_option (\<lambda>ip. (ip, port)) local,
            nd_port_preserved = (sa_port mapped = port), nd_server = pb_label main, nd_rfc5780 = (probe_alternate main \<noteq> None)\<rparr>))"

definition run_probes :: "'n network \<Rightarrow> probe list \<Rightarrow> 'n \<Rightarrow> nat_report \<times> 'n" where
  "run_probes w ps n =
     (let idx = (case first_index (\<lambda>p. probe_alternate p \<noteq> None) ps of Some i \<Rightarrow> i | None \<Rightarrow> 0);
          (main, probes) = swap_remove idx ps;
          other = probe_alternate main;
          local = nw_local w (pb_server main);
          nt = (local \<noteq> Some (sa_ip (rp_mapped (pb_reply main))));
          ((device, carrier), n1) = (if other \<noteq> None then filtering w main probes n
             else ((Undetermined, if pb_capture main then Some Undetermined else None), n));
          (m1, n2) = (if \<not> nt then (EndpointIndependent, n1)
             else case other of Some a \<Rightarrow> map_alternate w main a n1 | None \<Rightarrow> (Undetermined, n1));
          (m2, n3) = map_second w main probes m1 n2
      in (report_of w main local nt m2 device carrier, n3))"

definition nat_run :: "'n network \<Rightarrow> (string \<times> sock_addr) list \<Rightarrow> bool \<Rightarrow> 'n \<Rightarrow> nat_report \<times> 'n" where
  "nat_run w resolved capture n =
     (if resolved = [] then (plain_report ''unknown'' None (Some ''dns_failed'') None, n)
      else
        let (ps, n1) = open_probes w resolved (port_filter_servers + 1) capture n in
        if ps = [] then (plain_report ''udp_blocked'' None (Some ''no_stun_answer'') None, n1)
        else run_probes w ps n1)"

text \<open>Name resolution: the first IPv4 address of each server; \<open>lookup\<close> is \<open>None\<close> when it fails or takes too long.\<close>

definition nat_resolve :: "(string \<Rightarrow> nat \<Rightarrow> sock_addr list option) \<Rightarrow> (string \<times> nat) list \<Rightarrow> (string \<times> sock_addr) list" where
  "nat_resolve lookup servers =
     List.map_filter (\<lambda>(host, port).
        case lookup host port of None \<Rightarrow> None
        | Some as \<Rightarrow> map_option (\<lambda>a. (host @ '':'' @ show_nat port, a)) (find (\<lambda>a. case sa_ip a of Ip4 _ \<Rightarrow> True | Ip6 _ \<Rightarrow> False) as))
      servers"

end
