(* ===== verification/Nat_World.thy ===== *)
theory Nat_World
  imports Nat_Probe "HOL-Library.Multiset"
begin

text \<open>
  The detection against a network with a known NAT: a carrier NAT with a mapping and a filtering behaviour of RFC
  4787, the firewall of the device behind it, and STUN servers of which some have the alternate address of
  RFC 5780.  The network remembers whom each socket has contacted.
\<close>

section \<open>The network\<close>

record nat_world =
  w_mapping :: behaviour
  w_filter :: behaviour
  w_firewall :: behaviour
  w_public :: stun_ip
  w_local :: stun_ip
  w_map_port :: "nat \<Rightarrow> sock_addr option \<Rightarrow> u16"
  w_alive :: "sock_addr \<Rightarrow> bool"
  w_other :: "sock_addr \<Rightarrow> sock_addr option"
  w_capture :: bool
  w_port :: "nat \<Rightarrow> u16"

type_synonym contacts = "(nat \<times> sock_addr) list"

text \<open>What the mapping depends on, and what a filter lets in.\<close>

fun map_key :: "behaviour \<Rightarrow> sock_addr \<Rightarrow> sock_addr option" where
  "map_key AddressDependent a = Some (a\<lparr>sa_port := 0\<rparr>)"
| "map_key AddressAndPortDependent a = Some a"
| "map_key _ a = None"

fun passes :: "behaviour \<Rightarrow> contacts \<Rightarrow> nat \<Rightarrow> sock_addr \<Rightarrow> bool" where
  "passes AddressDependent n i src = list_ex (\<lambda>(j, d). j = i \<and> sa_ip d = sa_ip src) n"
| "passes AddressAndPortDependent n i src = ((i, src) \<in> set n)"
| "passes _ n i src = True"

definition answer_source :: "nat_world \<Rightarrow> sock_addr \<Rightarrow> u8 \<Rightarrow> sock_addr option" where
  "answer_source w target change =
     (if change = 0 then Some target
      else case w_other w target of None \<Rightarrow> None
        | Some other \<Rightarrow>
            Some \<lparr>sa_ip = sa_ip (if change AND change_ip \<noteq> 0 then other else target),
                  sa_port = sa_port (if change AND change_port \<noteq> 0 then other else target)\<rparr>)"

definition stun_answer :: "nat_world \<Rightarrow> nat \<Rightarrow> sock_addr \<Rightarrow> sock_addr \<Rightarrow> reply" where
  "stun_answer w i target src =
     \<lparr>rp_mapped = \<lparr>sa_ip = w_public w, sa_port = w_map_port w i (map_key (w_mapping w) target)\<rparr>,
      rp_other = w_other w target, rp_source = src\<rparr>"

definition world_ask :: "nat_world \<Rightarrow> nat \<Rightarrow> bool \<Rightarrow> sock_addr \<Rightarrow> u8 \<Rightarrow> contacts \<Rightarrow> seen \<times> contacts" where
  "world_ask w i cap target change n =
     (let n1 = (i, target) # n in
      (case (if w_alive w target then answer_source w target change else None) of
         None \<Rightarrow> seen_none
       | Some src \<Rightarrow>
           let r = stun_answer w i target src in
           if passes (w_filter w) n1 i src \<and> passes (w_firewall w) n1 i src then \<lparr>sn_socket = Some r, sn_wire = Some r\<rparr>
           else if cap \<and> passes (w_filter w) n1 i src then \<lparr>sn_socket = None, sn_wire = Some r\<rparr>
           else seen_none, n1))"

definition world_net :: "nat_world \<Rightarrow> contacts network" where
  "world_net w =
     \<lparr>nw_bind = (\<lambda>_. True), nw_port = w_port w, nw_capture = (\<lambda>_. w_capture w), nw_local = (\<lambda>_. Some (w_local w)),
      nw_ask = world_ask w\<rparr>"

definition proper :: "behaviour \<Rightarrow> bool" where
  "proper b \<longleftrightarrow> b \<in> {EndpointIndependent, AddressDependent, AddressAndPortDependent}"

text \<open>
  A server of RFC 5780 answers on all four combinations of its addresses and ports; different mappings of one
  socket towards them have different ports.\<close>

definition world_ok :: "nat_world \<Rightarrow> bool" where
  "world_ok w \<longleftrightarrow> proper (w_mapping w) \<and> proper (w_filter w) \<and> proper (w_firewall w)
     \<and> (\<forall>a b. w_alive w a \<longrightarrow> w_other w a = Some b \<longrightarrow>
          w_alive w b \<and> w_alive w \<lparr>sa_ip = sa_ip b, sa_port = sa_port a\<rparr>
          \<and> (\<forall>i. inj_on (w_map_port w i) (map_key (w_mapping w) ` {a, \<lparr>sa_ip = sa_ip b, sa_port = sa_port a\<rparr>, b})))"

text \<open>A server whose alternate address can be used for the tests.\<close>

definition rfc5780 :: "nat_world \<Rightarrow> sock_addr \<Rightarrow> bool" where
  "rfc5780 w a \<longleftrightarrow> w_alive w a \<and> (\<exists>b. w_other w a = Some b \<and> public_addr b \<and> sa_ip b \<noteq> sa_ip a \<and> sa_port b \<noteq> sa_port a)"

definition stricter :: "behaviour \<Rightarrow> behaviour \<Rightarrow> behaviour" where
  "stricter a b =
     (if AddressAndPortDependent \<in> {a, b} then AddressAndPortDependent
      else if AddressDependent \<in> {a, b} then AddressDependent else EndpointIndependent)"

section \<open>Requests\<close>

definition view_filter :: "nat_world \<Rightarrow> bool \<Rightarrow> behaviour" where
  "view_filter w wire = (if wire then w_filter w else stricter (w_filter w) (w_firewall w))"

lemma passes_address: "passes AddressDependent n i src \<longleftrightarrow> (\<exists>d. (i, d) \<in> set n \<and> sa_ip d = sa_ip src)"
  by (auto simp: list_ex_iff)

declare passes.simps(1) [simp del]

lemmas passes_simps = passes_address passes.simps(2-)

lemma passes_stricter:
  assumes "proper a" "proper b"
  shows "passes (stricter a b) ((i, t) # n) i src \<longleftrightarrow> passes a ((i, t) # n) i src \<and> passes b ((i, t) # n) i src"
  using assms by (auto simp: proper_def stricter_def passes_simps)

lemma stricter_proper: "proper (stricter a b)"
  by (simp add: proper_def stricter_def)

lemma view_proper: "world_ok w \<Longrightarrow> proper (view_filter w wire)"
  by (simp add: view_filter_def world_ok_def stricter_proper)

text \<open>What a view sees of a request.\<close>

lemma ask_view:
  assumes "world_ok w" "w_alive w target" "answer_source w target change = Some src" "wire \<longrightarrow> cap"
  shows "seen_view (fst (world_ask w i cap target change n)) wire
    = (if passes (view_filter w wire) ((i, target) # n) i src then Some (stun_answer w i target src) else None)"
  using assms
  by (auto simp: world_ask_def seen_view_def seen_none_def view_filter_def Let_def world_ok_def passes_stricter)

lemma ask_contacts: "snd (world_ask w i cap target change n) = (i, target) # n"
  by (simp add: world_ask_def Let_def)

lemma passes_own: "proper b \<Longrightarrow> passes b ((i, src) # n) i src"
  by (auto simp: proper_def passes_simps)

lemma query_world:
  assumes "world_ok w" "w_alive w target"
  shows "query (world_net w) i target 0 n = (Some (stun_answer w i target target), (i, target) # n)"
  using ask_view [OF assms, of 0 target False False i n] ask_contacts [of w i False target 0 n] passes_own [OF view_proper [OF assms(1)]]
  by (cases "world_ask w i False target 0 n") (simp add: query_def world_net_def answer_source_def seen_view_def)

lemma query_dead:
  assumes "\<not> w_alive w target"
  shows "query (world_net w) i target 0 n = (None, (i, target) # n)"
  using assms by (simp add: query_def world_net_def world_ask_def Let_def seen_none_def)

section \<open>Probes\<close>

text \<open>
  The probes of a list of servers: each has its own socket, which has contacted only its server.\<close>

definition probe_of :: "nat_world \<Rightarrow> probe \<Rightarrow> bool" where
  "probe_of w p \<longleftrightarrow> w_alive w (pb_server p) \<and> pb_reply p = stun_answer w (pb_socket p) (pb_server p) (pb_server p)"

definition only_own :: "contacts \<Rightarrow> probe \<Rightarrow> bool" where
  "only_own n p \<longleftrightarrow> (\<forall>d. (pb_socket p, d) \<in> set n \<longrightarrow> d = pb_server p)"

definition probes_ok :: "nat_world \<Rightarrow> bool \<Rightarrow> contacts \<Rightarrow> probe list \<Rightarrow> bool" where
  "probes_ok w cap n ps \<longleftrightarrow>
     distinct (map pb_socket ps) \<and> (\<forall>p\<in>set ps. probe_of w p \<and> only_own n p \<and> pb_capture p = cap)"

lemma sock_addr_eq: "\<lparr>sa_ip = ip, sa_port = port\<rparr> = a \<longleftrightarrow> sa_ip a = ip \<and> sa_port a = port"
  by (cases a) auto

lemma probes_contact:
  assumes "probes_ok w cap n (p # ps)"
  shows "probes_ok w cap ((pb_socket p, pb_server p) # n) (p # ps)"
proof -
  have "pb_socket q \<noteq> pb_socket p" if "q \<in> set ps" for q
    using assms that by (metis distinct.simps(2) image_eqI list.set_map list.simps(9) probes_ok_def)
  then show ?thesis using assms by (simp add: probes_ok_def only_own_def)
qed

lemma probes_subset:
  assumes "probes_ok w cap n ps" "distinct (map pb_socket qs)" "set qs \<subseteq> set ps"
  shows "probes_ok w cap n qs"
  using assms by (auto simp: probes_ok_def)

lemma probe_alternate_of: "probe_of w p \<Longrightarrow> probe_alternate p \<noteq> None \<longleftrightarrow> rfc5780 w (pb_server p)"
  by (auto simp: probe_of_def probe_alternate_def alternate_def stun_answer_def rfc5780_def split: option.split)

lemma open_loop_ok:
  assumes "world_ok w" "probes_ok w (capture \<and> w_capture w) n ps" "\<forall>p\<in>set ps. pb_socket p < i" "\<forall>(j, d)\<in>set n. j < i"
    and "open_loop (world_net w) capture cnt rs i ps n = (ps', n')"
  shows "probes_ok w (capture \<and> w_capture w) n' ps'"
  using assms(2-)
proof (induction rs arbitrary: i ps n)
  case (Cons ls rs)
  obtain label server where ls: "ls = (label, server)" by fastforce
  show ?case
  proof (cases "length (filter (\<lambda>p. probe_alternate p \<noteq> None) ps) \<ge> cnt")
    case False
    let ?n = "(i, server) # n"
    have "only_own ?n p" if "p \<in> set ps" for p
      using Cons.prems(1,2) that by (fastforce simp: probes_ok_def only_own_def)
    then have old: "probes_ok w (capture \<and> w_capture w) ?n ps" "\<forall>(j, d)\<in>set ?n. j < Suc i"
      using Cons.prems(1,3) by (simp_all add: probes_ok_def) (fastforce simp: less_Suc_eq)
    show ?thesis
    proof (cases "w_alive w server")
      case True
      let ?p = "\<lparr>pb_label = label, pb_server = server, pb_socket = i, pb_capture = (capture \<and> w_capture w),
                 pb_reply = stun_answer w i server server\<rparr>"
      have "probe_open (world_net w) label server capture i n = (Some ?p, ?n)"
        by (simp add: probe_open_def query_world [OF assms(1) True]) (simp add: world_net_def)
      moreover have "probes_ok w (capture \<and> w_capture w) ?n (ps @ [?p])"
        using old(1) Cons.prems(2,3) True by (auto simp: probes_ok_def only_own_def probe_of_def)
      ultimately show ?thesis using Cons.IH [of ?n "ps @ [?p]" "Suc i"] Cons.prems(2,4) old(2) False ls by fastforce
    next
      case dead: False
      have "probe_open (world_net w) label server capture i n = (None, ?n)"
        by (simp add: probe_open_def query_dead [OF dead]) (simp add: world_net_def)
      then show ?thesis using Cons.IH [of ?n ps "Suc i"] Cons.prems(2,4) old False ls by fastforce
    qed
  qed (use Cons.prems ls in simp)
qed simp

lemma open_loop_finds:
  assumes "world_ok w" "0 < cnt"
    and "open_loop (world_net w) capture cnt rs i ps n = (ps', n')"
    and "(\<exists>p\<in>set ps. probe_alternate p \<noteq> None) \<or> (\<exists>x\<in>set rs. rfc5780 w (snd x))"
  shows "\<exists>p\<in>set ps'. probe_alternate p \<noteq> None"
  using assms(3,4)
proof (induction rs arbitrary: i ps n)
  case (Cons ls rs)
  obtain label server where ls: "ls = (label, server)" by fastforce
  show ?case
  proof (cases "length (filter (\<lambda>p. probe_alternate p \<noteq> None) ps) \<ge> cnt")
    case True
    then have "filter (\<lambda>p. probe_alternate p \<noteq> None) ps \<noteq> []" using assms(2) by auto
    then show ?thesis using True Cons.prems(1) ls by (auto simp: filter_empty_conv)
  next
    case False
    let ?n = "(i, server) # n"
    show ?thesis
    proof (cases "w_alive w server")
      case True
      let ?p = "\<lparr>pb_label = label, pb_server = server, pb_socket = i, pb_capture = (capture \<and> w_capture w),
                 pb_reply = stun_answer w i server server\<rparr>"
      have "probe_open (world_net w) label server capture i n = (Some ?p, ?n)"
        by (simp add: probe_open_def query_world [OF assms(1) True]) (simp add: world_net_def)
      then have run: "open_loop (world_net w) capture cnt rs (Suc i) (ps @ [?p]) ?n = (ps', n')"
        using Cons.prems(1) False ls by simp
      have "probe_alternate ?p \<noteq> None \<longleftrightarrow> rfc5780 w server"
        using probe_alternate_of [of w ?p] True by (simp add: probe_of_def)
      then show ?thesis using Cons.IH [OF run] Cons.prems(2) ls by auto
    next
      case dead: False
      have "probe_open (world_net w) label server capture i n = (None, ?n)"
        by (simp add: probe_open_def query_dead [OF dead]) (simp add: world_net_def)
      moreover have "\<not> rfc5780 w server" using dead by (simp add: rfc5780_def)
      ultimately show ?thesis using Cons.IH [of "Suc i" ps ?n] Cons.prems False ls by auto
    qed
  qed
qed simp

section \<open>Filtering\<close>

text \<open>The view of the answers to the tests, for a probe that has only contacted its server.\<close>

lemma both_view:
  assumes "world_ok w" "probe_of w p" "only_own n p" "probe_alternate p \<noteq> None" "wire \<longrightarrow> pb_capture p"
  shows "case seen_view (fst (world_ask w (pb_socket p) (pb_capture p) (pb_server p) (change_ip OR change_port) n)) wire of
      None \<Rightarrow> view_filter w wire \<noteq> EndpointIndependent
    | Some r \<Rightarrow> view_filter w wire = EndpointIndependent \<and> sa_ip (rp_source r) \<noteq> sa_ip (pb_server p)"
proof -
  obtain b where b: "w_alive w (pb_server p)" "w_other w (pb_server p) = Some b" "sa_ip b \<noteq> sa_ip (pb_server p)"
    using probe_alternate_of [OF assms(2)] assms(4) by (auto simp: rfc5780_def)
  have src: "answer_source w (pb_server p) (change_ip OR change_port) = Some \<lparr>sa_ip = sa_ip b, sa_port = sa_port b\<rparr>"
    using b(2) by (simp add: answer_source_def change_ip_def change_port_def)
  have "passes (view_filter w wire) ((pb_socket p, pb_server p) # n) (pb_socket p) \<lparr>sa_ip = sa_ip b, sa_port = sa_port b\<rparr>
      \<longleftrightarrow> view_filter w wire = EndpointIndependent"
    using view_proper [OF assms(1), of wire] assms(3) b(3)
    by (auto simp: proper_def passes_simps only_own_def sock_addr_eq)
  then show ?thesis using ask_view [OF assms(1) b(1) src assms(5)] b(3) by (simp add: stun_answer_def)
qed

lemma port_view:
  assumes "world_ok w" "probe_of w p" "only_own n p" "probe_alternate p \<noteq> None" "wire \<longrightarrow> pb_capture p"
  shows "port_verdict (seen_view (fst (world_ask w (pb_socket p) (pb_capture p) (pb_server p) change_port n)) wire) (pb_server p)
    = Some (view_filter w wire \<noteq> AddressAndPortDependent)"
proof -
  obtain b where b: "w_alive w (pb_server p)" "w_other w (pb_server p) = Some b" "sa_port b \<noteq> sa_port (pb_server p)"
    using probe_alternate_of [OF assms(2)] assms(4) by (auto simp: rfc5780_def)
  have src: "answer_source w (pb_server p) change_port = Some \<lparr>sa_ip = sa_ip (pb_server p), sa_port = sa_port b\<rparr>"
    using b(2) by (simp add: answer_source_def change_ip_def change_port_def)
  have ne: "(pb_socket p, \<lparr>sa_ip = sa_ip (pb_server p), sa_port = sa_port b\<rparr>) \<notin> set ((pb_socket p, pb_server p) # n)"
    using assms(3) b(3) unfolding only_own_def by (metis prod.inject sock_addr.select_convs(2) set_ConsD)
  have "passes (view_filter w wire) ((pb_socket p, pb_server p) # n) (pb_socket p) \<lparr>sa_ip = sa_ip (pb_server p), sa_port = sa_port b\<rparr>
      \<longleftrightarrow> view_filter w wire \<noteq> AddressAndPortDependent"
    using view_proper [OF assms(1), of wire] ne
    by (cases "view_filter w wire") (simp_all add: proper_def passes_simps, auto)
  then show ?thesis using ask_view [OF assms(1) b(1) src assms(5)] b(3) by (simp add: stun_answer_def port_verdict_def)
qed

definition verdicts_ok :: "nat_world \<Rightarrow> bool \<Rightarrow> (seen \<times> sock_addr) list \<Rightarrow> bool" where
  "verdicts_ok w cap ports \<longleftrightarrow> (\<forall>(s, a)\<in>set ports. \<forall>wire. (wire \<longrightarrow> cap) \<longrightarrow>
     port_verdict (seen_view s wire) a = Some (view_filter w wire \<noteq> AddressAndPortDependent))"

lemma port_tests_ok:
  assumes "world_ok w" "probes_ok w cap n ps" "\<forall>p\<in>set ps. probe_alternate p \<noteq> None" "verdicts_ok w cap ports"
    and "port_tests (world_net w) cap both ps ports n = (ports', n')"
  shows "verdicts_ok w cap ports'"
  using assms(2-)
proof (induction ps arbitrary: n ports)
  case (Cons p ps)
  show ?case
  proof (cases "test_needed cap both ports")
    case True
    let ?n = "(pb_socket p, pb_server p) # n"
    obtain s where s: "world_ask w (pb_socket p) (pb_capture p) (pb_server p) change_port n = (s, ?n)"
      using ask_contacts [of w "pb_socket p" "pb_capture p" "pb_server p" change_port n] by (metis prod.collapse)
    have p: "probe_of w p" "only_own n p" "probe_alternate p \<noteq> None" "pb_capture p = cap"
      using Cons.prems(1,2) by (simp_all add: probes_ok_def)
    have "verdicts_ok w cap (ports @ [(s, pb_server p)])"
      using Cons.prems(3) port_view [OF assms(1) p(1-3)] s p(4) by (auto simp: verdicts_ok_def)
    moreover have "probes_ok w cap ?n ps"
      using probes_contact [OF Cons.prems(1)] by (simp add: probes_ok_def)
    moreover have "port_tests (world_net w) cap both ps (ports @ [(s, pb_server p)]) ?n = (ports', n')"
      using Cons.prems(4) True s by (simp add: world_net_def)
    ultimately show ?thesis using Cons.IH Cons.prems(2) by auto
  qed (use Cons.prems in auto)
qed simp

lemma port_tests_keep: "port_tests w cap both ps ports n = (ports', n') \<Longrightarrow> ports \<noteq> [] \<Longrightarrow> ports' \<noteq> []"
proof (induction ps arbitrary: ports n)
  case (Cons p ps)
  then show ?case by (auto split: if_splits prod.splits)
qed simp

lemma port_tests_run:
  assumes "port_tests w cap both (p # ps) [] n = (ports', n')" "test_needed cap both []"
  shows "ports' \<noteq> []"
  using assms port_tests_keep by (fastforce split: prod.splits)

lemma merge_same: "list_all ((=) (Some b)) vs \<Longrightarrow> vs \<noteq> [] \<Longrightarrow> merge_verdicts None vs = Some b"
proof -
  have "list_all ((=) (Some b)) vs \<Longrightarrow> merge_verdicts (Some b) vs = Some b" for vs by (induction vs) auto
  then show "list_all ((=) (Some b)) vs \<Longrightarrow> vs \<noteq> [] \<Longrightarrow> merge_verdicts None vs = Some b" by (cases vs) auto
qed

lemma evaluate_ok:
  assumes "world_ok w" "verdicts_ok w cap ports" "wire \<longrightarrow> cap" "seen_view both wire = None \<Longrightarrow> ports \<noteq> []"
    and "case seen_view both wire of None \<Rightarrow> view_filter w wire \<noteq> EndpointIndependent
       | Some r \<Rightarrow> view_filter w wire = EndpointIndependent \<and> sa_ip (rp_source r) \<noteq> sa_ip server"
  shows "evaluate both ports server wire = view_filter w wire"
proof (cases "seen_view both wire")
  case None
  have "list_all ((=) (Some (view_filter w wire \<noteq> AddressAndPortDependent)))
      (map (\<lambda>(s, a). port_verdict (seen_view s wire) a) ports)"
    using assms(2,3) by (auto simp: verdicts_ok_def list_all_iff)
  then have "merge_verdicts None (map (\<lambda>(s, a). port_verdict (seen_view s wire) a) ports)
      = Some (view_filter w wire \<noteq> AddressAndPortDependent)"
    using merge_same assms(4) None by blast
  then show ?thesis using None assms(5) view_proper [OF assms(1), of wire]
    by (auto simp: evaluate_def proper_def)
qed (use assms(5) in \<open>simp add: evaluate_def\<close>)

lemma filtering_ok:
  assumes "world_ok w" "probes_ok w cap n (main # others)" "probe_alternate main \<noteq> None"
  shows "fst (filtering (world_net w) main others n)
    = (view_filter w False, if cap then Some (view_filter w True) else None)"
proof -
  let ?alts = "filter (\<lambda>p. probe_alternate p \<noteq> None) others"
  let ?n = "(pb_socket main, pb_server main) # n"
  have m: "probe_of w main" "only_own n main" "pb_capture main = cap" using assms(2) by (simp_all add: probes_ok_def)
  obtain both where both: "world_ask w (pb_socket main) cap (pb_server main) (change_ip OR change_port) n = (both, ?n)"
    using ask_contacts by (metis prod.collapse)
  obtain ports n2 where run: "port_tests (world_net w) cap both (main # ?alts) [] ?n = (ports, n2)" by fastforce
  have ok: "probes_ok w cap ?n (main # ?alts)"
    using probes_contact [OF assms(2)] by (auto simp: probes_ok_def distinct_map_filter)
  have v: "verdicts_ok w cap ports"
  proof (rule port_tests_ok [OF assms(1) ok _ _ run])
    show "\<forall>p\<in>set (main # ?alts). probe_alternate p \<noteq> None" using assms(3) by auto
  qed (simp add: verdicts_ok_def)
  have "evaluate both ports (pb_server main) wire = view_filter w wire" if "wire \<longrightarrow> cap" for wire
  proof (rule evaluate_ok [OF assms(1) v that])
    show "ports \<noteq> []" if "seen_view both wire = None"
      using port_tests_run [OF run] that \<open>wire \<longrightarrow> cap\<close>
      by (cases wire) (auto simp: test_needed_def undecided_def)
    show "case seen_view both wire of None \<Rightarrow> view_filter w wire \<noteq> EndpointIndependent
       | Some r \<Rightarrow> view_filter w wire = EndpointIndependent \<and> sa_ip (rp_source r) \<noteq> sa_ip (pb_server main)"
      using both_view [OF assms(1) m(1,2) assms(3), of wire] both m(3) that by simp
  qed
  moreover have "nw_ask (world_net w) = world_ask w" by (simp add: world_net_def)
  ultimately show ?thesis using both run m(3) unfolding filtering_def by (simp del: port_tests.simps)
qed

section \<open>Mapping\<close>

lemma map_alternate_ok:
  assumes "world_ok w" "probe_of w main" "probe_alternate main = Some other"
  shows "fst (map_alternate (world_net w) main other n) = w_mapping w"
proof -
  have o: "w_other w (pb_server main) = Some other" "sa_ip other \<noteq> sa_ip (pb_server main)" "sa_port other \<noteq> sa_port (pb_server main)"
    using assms(2,3) by (auto simp: probe_of_def probe_alternate_def alternate_def stun_answer_def split: option.splits if_splits)
  let ?a = "\<lparr>sa_ip = sa_ip other, sa_port = sa_port (pb_server main)\<rparr>"
  have alive: "w_alive w ?a" "w_alive w other" using assms(1,2) o(1) by (auto simp: world_ok_def probe_of_def)
  let ?m = "map_key (w_mapping w)"
  have inj: "w_map_port w i (?m x) = w_map_port w i (?m y) \<longleftrightarrow> ?m x = ?m y" if "{x, y} \<subseteq> {pb_server main, ?a, other}" for i x y
  proof (rule inj_on_eq_iff)
    show "inj_on (w_map_port w i) (?m ` {pb_server main, ?a, other})"
      using assms(1,2) o(1) unfolding world_ok_def probe_of_def by blast
  qed (use that in auto)
  have rep: "pb_reply main = stun_answer w (pb_socket main) (pb_server main) (pb_server main)" using assms(2) by (simp add: probe_of_def)
  have ne: "?a \<noteq> pb_server main" "other \<noteq> ?a" "?a\<lparr>sa_port := 0\<rparr> \<noteq> (pb_server main)\<lparr>sa_port := 0\<rparr>" "other\<lparr>sa_port := 0\<rparr> = ?a\<lparr>sa_port := 0\<rparr>"
    using o(2,3) by (cases other; cases "pb_server main"; auto)+
  have "proper (w_mapping w)" using assms(1) by (simp add: world_ok_def)
  then show ?thesis
    using ne inj [of ?a "pb_server main"] inj [of other ?a]
    by (auto simp: map_alternate_def query_world [OF assms(1) alive(1)] query_world [OF assms(1) alive(2)] rep stun_answer_def proper_def)
qed

section \<open>The whole detection\<close>

lemma swap_remove_perm:
  assumes "i < length xs" "swap_remove i xs = (x, ys)"
  shows "mset (x # ys) = mset xs"
proof (cases "i = length xs - 1")
  case True
  then have ne: "xs \<noteq> []" using assms(1) by auto
  then have "x = last xs" "ys = butlast xs" using True assms(2) by (auto simp: swap_remove_def last_conv_nth)
  then have "mset (x # ys) = mset (butlast xs @ [last xs])" by simp
  also have "butlast xs @ [last xs] = xs" by (rule append_butlast_last_id [OF ne])
  finally show ?thesis .
next
  case False
  define l where "l = last xs"
  have xs: "xs = butlast xs @ [l]" using assms(1) l_def by (metis append_butlast_last_id less_nat_zero_code list.size(3))
  have i: "i < length (butlast xs)" using assms(1) False by simp
  have u: "butlast (xs[i := l]) = (butlast xs)[i := l]" using i by (metis butlast_list_update length_butlast less_irrefl_nat)
  have x: "x = butlast xs ! i" "ys = (butlast xs)[i := l]"
    using assms(2) False u l_def i by (auto simp: swap_remove_def nth_butlast)
  have "mset ys = add_mset l (mset (butlast xs) - {#butlast xs ! i#})" using x i by (simp add: mset_update)
  then have "mset (x # ys) = add_mset l (mset (butlast xs))" using x(1) i by (simp add: insert_DiffM nth_mem)
  also have "\<dots> = mset (butlast xs @ [l])" by simp
  finally show ?thesis using xs by simp
qed

lemma first_index_found:
  assumes "\<exists>x\<in>set xs. f x"
  obtains i where "first_index f xs = Some i" "i < length xs" "f (xs ! i)"
proof -
  have "find (\<lambda>i. f (xs ! i)) [0..<length xs] \<noteq> None" using assms by (auto simp: find_None_iff in_set_conv_nth)
  then obtain i where i: "find (\<lambda>i. f (xs ! i)) [0..<length xs] = Some i" by blast
  then have "i < length xs" "f (xs ! i)" by (auto simp: find_Some_iff)
  then show thesis using that i by (simp add: first_index_def)
qed

lemma swap_remove_probes:
  assumes "probes_ok w cap n ps" "i < length ps" "swap_remove i ps = (main, others)"
  shows "probes_ok w cap n (main # others)" "main = ps ! i"
proof -
  have m: "mset (main # others) = mset ps" by (rule swap_remove_perm [OF assms(2,3)])
  then have "mset (map pb_socket (main # others)) = mset (map pb_socket ps)" by (simp only: mset_map)
  then have "distinct (map pb_socket (main # others))" using assms(1) mset_eq_imp_distinct_iff by (metis probes_ok_def)
  then show "probes_ok w cap n (main # others)" using assms(1) m mset_eq_setD by (metis probes_ok_def)
  show "main = ps ! i" using assms(3) by (simp add: swap_remove_def)
qed

lemma open_probes_ok:
  assumes "world_ok w" "open_probes (world_net w) rs cnt capture [] = (ps, n)"
  shows "probes_ok w (capture \<and> w_capture w) n ps"
proof -
  obtain qs n1 where run: "open_loop (world_net w) capture cnt rs 0 [] [] = (qs, n1)" by fastforce
  have ok: "probes_ok w (capture \<and> w_capture w) n1 qs"
    by (rule open_loop_ok [OF assms(1) _ _ _ run]) (simp_all add: probes_ok_def)
  have "ps = qs"
  proof (cases "list_ex (\<lambda>p. \<not> pb_capture p) qs")
    case True
    then have "\<not> (capture \<and> w_capture w)" using ok by (auto simp: probes_ok_def list_ex_iff)
    then have "map (\<lambda>p. p\<lparr>pb_capture := False\<rparr>) qs = qs" using ok by (intro map_idI) (simp add: probes_ok_def)
    then show ?thesis using assms(2) run True by (simp add: open_probes_def)
  qed (use assms(2) run in \<open>simp add: open_probes_def\<close>)
  then show ?thesis using ok assms(2) run by (simp add: open_probes_def split: if_splits)
qed

lemma open_probes_finds:
  assumes "world_ok w" "0 < cnt" "open_probes (world_net w) rs cnt capture [] = (ps, n)" "\<exists>x\<in>set rs. rfc5780 w (snd x)"
  shows "\<exists>p\<in>set ps. probe_alternate p \<noteq> None"
proof -
  obtain qs n1 where run: "open_loop (world_net w) capture cnt rs 0 [] [] = (qs, n1)" by fastforce
  have "\<exists>p\<in>set qs. probe_alternate p \<noteq> None" using open_loop_finds [OF assms(1,2) run] assms(4) by simp
  moreover have "probe_alternate (p\<lparr>pb_capture := False\<rparr>) = probe_alternate p" for p by (simp add: probe_alternate_def)
  ultimately show ?thesis using assms(3) run by (fastforce simp: open_probes_def split: if_splits)
qed

text \<open>
  C19: The detection finds the NAT that is there.  Behind a carrier NAT of any of the three mapping and three filtering
  behaviours, with any such firewall on the device, and with at least one server of RFC 5780 among those that
  resolve, the reported type is the classic name of the carrier's behaviour when packets can be captured, and of
  the stricter of carrier and firewall when they cannot; the entry for the device is always the latter.  The other
  servers may be silent, plain, or of RFC 5780 too.\<close>
theorem nat_detection_correct:
  assumes "world_ok w" "\<exists>x\<in>set servers. rfc5780 w (snd x)"
    and "cap = (capture \<and> w_capture w)" "nt = (w_local w \<noteq> w_public w)"
    and "device = stricter (w_filter w) (w_firewall w)" "carrier = (if cap then w_filter w else device)"
    and "mapping = (if nt then w_mapping w else EndpointIndependent)"
    and "r = fst (nat_run (world_net w) servers capture [])"
  shows "(nr_type r, nr_level r) = classify nt mapping carrier \<and> nr_error r = None
     \<and> (\<exists>d. nr_detail r = Some d \<and> nd_nat d = nt \<and> nd_mapping d = mapping \<and> nd_filtering d = carrier
          \<and> nd_device d = (fst (classify nt mapping device), snd (classify nt mapping device), device)
          \<and> nd_measured_at d = (if cap then ''carrier'' else ''device''))"
proof -
  obtain ps n where ps: "open_probes (world_net w) servers (port_filter_servers + 1) capture [] = (ps, n)" by fastforce
  have ok: "probes_ok w cap n ps" using open_probes_ok [OF assms(1) ps] assms(3) by simp
  obtain i where i: "first_index (\<lambda>p. probe_alternate p \<noteq> None) ps = Some i" "i < length ps" "probe_alternate (ps ! i) \<noteq> None"
    using first_index_found [OF open_probes_finds [OF assms(1) _ ps assms(2)]] by auto
  obtain main others where sr: "swap_remove i ps = (main, others)" by fastforce
  note m = swap_remove_probes [OF ok i(2) sr]
  obtain other where other: "probe_alternate main = Some other" using i(3) m(2) by auto
  have pm: "probe_of w main" "pb_capture main = cap" using m(1) by (simp_all add: probes_ok_def)
  obtain n1 where f: "filtering (world_net w) main others n = ((view_filter w False, if cap then Some (view_filter w True) else None), n1)"
    using filtering_ok [OF assms(1) m(1)] other by (metis option.distinct(1) prod.collapse)
  obtain n2 where ma: "map_alternate (world_net w) main other n1 = (w_mapping w, n2)"
    using map_alternate_ok [OF assms(1) pm(1) other] by (metis prod.collapse)
  have nt: "Some (w_local w) \<noteq> Some (sa_ip (rp_mapped (pb_reply main))) \<longleftrightarrow> nt"
    using pm(1) assms(4) by (simp add: probe_of_def stun_answer_def)
  have "mapping \<noteq> Undetermined" using assms(1,7) by (auto simp: world_ok_def proper_def)
  then have ms: "map_second (world_net w) main others mapping x = (mapping, x)" for x by (simp add: map_second_def)
  have "ps \<noteq> []" "servers \<noteq> []" using i(2) assms(2) by auto
  then have "r = report_of (world_net w) main (Some (w_local w)) nt mapping device (if cap then Some (w_filter w) else None)"
    using ps i(1) sr other f ma nt ms assms(5,7,8)
    by (auto simp: nat_run_def run_probes_def view_filter_def Let_def world_net_def)
  then show ?thesis using assms(6) by (auto simp: report_of_def plain_report_def Let_def split: prod.split)
qed

definition demo_addr :: "nat \<Rightarrow> nat \<Rightarrow> sock_addr" where
  "demo_addr x p = \<lparr>sa_ip = Ip4 [8, 8, 8, word_of_nat x], sa_port = word_of_nat p\<rparr>"

text \<open>A carrier NAT that restricts by address, behind a firewall that also checks the port.\<close>

definition demo_world :: nat_world where
  "demo_world = \<lparr>w_mapping = EndpointIndependent, w_filter = AddressDependent, w_firewall = AddressAndPortDependent,
     w_public = Ip4 [1, 2, 3, 4], w_local = Ip4 [10, 0, 0, 2], w_map_port = (\<lambda>i _. 4000),
     w_alive = (\<lambda>a. a \<in> {demo_addr 1 3478, demo_addr 2 3478, demo_addr 1 3479, demo_addr 2 3479}),
     w_other = (\<lambda>a. if a = demo_addr 1 3478 then Some (demo_addr 2 3479) else None),
     w_capture = True, w_port = (\<lambda>_. 5000)\<rparr>"

lemma demo_world_ok: "world_ok demo_world" "rfc5780 demo_world (demo_addr 1 3478)"
  by (simp_all add: world_ok_def rfc5780_def demo_world_def proper_def demo_addr_def public_addr_def carrier_range_def v4_private_def
      v4_loopback_def v4_link_local_def v4_unspecified_def v4_broadcast_def v4_documentation_def v4_multicast_def)

theorem nat_detection_correct_witness:
  "let r = fst (nat_run (world_net demo_world) [(''s'', demo_addr 1 3478)] True []) in
   nr_type r = ''restricted_cone'' \<and> nr_level r = Some 2
   \<and> (\<exists>d. nr_detail r = Some d \<and> nd_device d = (''port_restricted_cone'', Some 3, AddressAndPortDependent))"
proof -
  have s: "\<exists>x\<in>set [(''s'', demo_addr 1 3478)]. rfc5780 demo_world (snd x)" using demo_world_ok(2) by simp
  show ?thesis
    using nat_detection_correct [OF demo_world_ok(1) s refl refl refl refl refl refl, of True]
    by (auto simp: Let_def demo_world_def classify_def stricter_def)
qed

end
