(* ===== verification/Nat_Watch.thy ===== *)
theory Nat_Watch
  imports Nat_World
begin

text \<open>
  The cached result of \<open>nat.rs\<close>, the watcher that renews it and the summary sent to the cloud.  A detection from
  outside runs concurrently with the watcher, so its start and its end are two events; the watcher waits
  for its own.  Instants are nanoseconds of the monotonic clock.
\<close>

section \<open>The cached result\<close>

record nat_state =
  ns_last :: "nat_report option"
  ns_request :: "string list option"
  ns_wan :: "string list"

text \<open>\<open>ns_request\<close> holds the addresses at the start of a detection that was requested and still runs.\<close>

definition nat_finish :: "nat_report option \<Rightarrow> nat \<Rightarrow> string \<Rightarrow> string list \<Rightarrow> nat_report" where
  "nat_finish outcome epoch trigger wan =
     (case outcome of Some r \<Rightarrow> r | None \<Rightarrow> plain_report ''unknown'' None (Some ''timeout'') None)
       \<lparr>nr_checked_at := epoch, nr_trigger := trigger, nr_wan := wan\<rparr>"

text \<open>\<open>measure\<close> as the watcher calls it; \<open>outcome\<close> is the result of \<open>run\<close> within its budget.\<close>

definition nat_measure :: "nat_report option \<Rightarrow> nat \<Rightarrow> string \<Rightarrow> nat_state \<Rightarrow> (string + nat_report) \<times> nat_state" where
  "nat_measure outcome epoch trigger st =
     (if ns_request st \<noteq> None then (Inl ''operation_busy'', st)
      else let r = nat_finish outcome epoch trigger (ns_wan st) in (Inr r, st\<lparr>ns_last := Some r\<rparr>))"

definition nat_request_start :: "nat_state \<Rightarrow> (string + unit) \<times> nat_state" where
  "nat_request_start st =
     (if ns_request st \<noteq> None then (Inl ''operation_busy'', st) else (Inr (), st\<lparr>ns_request := Some (ns_wan st)\<rparr>))"

definition nat_request_done :: "nat_report option \<Rightarrow> nat \<Rightarrow> nat_state \<Rightarrow> nat_state" where
  "nat_request_done outcome epoch st =
     (case ns_request st of None \<Rightarrow> st
      | Some wan \<Rightarrow> st\<lparr>ns_request := None, ns_last := Some (nat_finish outcome epoch ''request'' wan)\<rparr>)"

section \<open>WAN addresses\<close>

definition show_ipv4 :: "nat list \<Rightarrow> string" where
  "show_ipv4 v = show_nat (v ! 0) @ ''.'' @ show_nat (v ! 1) @ ''.'' @ show_nat (v ! 2) @ ''.'' @ show_nat (v ! 3)"

definition parse_ipv4 :: "string \<Rightarrow> nat list option" where
  "parse_ipv4 s = (case read_ipv4 s of Some (v, r) \<Rightarrow> if r = [] then Some v else None | None \<Rightarrow> None)"

definition entry_address :: "json \<Rightarrow> string option" where
  "entry_address entry = map_option show_ipv4 (Option.bind (Option.bind (jget entry ''address'') as_str) parse_ipv4)"

definition wan_entries :: "json option \<Rightarrow> json list" where
  "wan_entries interfaces =
     (case Option.bind (Option.bind (Option.bind interfaces (\<lambda>v. jget v ''wan4'')) (\<lambda>v. jget v ''ipv4'')) as_array of
        Some xs \<Rightarrow> xs | None \<Rightarrow> [])"

definition wan_ipv4 :: "json option \<Rightarrow> string list" where
  "wan_ipv4 interfaces = remdups_adj (sort (List.map_filter entry_address (wan_entries interfaces)))"

section \<open>The watcher\<close>

definition nat_second :: nat where "nat_second = 10 ^ 9"
definition nat_settle :: nat where "nat_settle = 30 * nat_second"
definition nat_retries :: "nat list" where "nat_retries = [60 * nat_second, 300 * nat_second, 900 * nat_second]"

record watcher =
  wt_seen :: "string list"
  wt_since :: nat
  wt_attempts :: nat
  wt_retry_at :: "nat option"

definition watcher_new :: "nat \<Rightarrow> watcher" where
  "watcher_new now = \<lparr>wt_seen = [], wt_since = now, wt_attempts = 0, wt_retry_at = None\<rparr>"

definition watch_due :: "string list \<Rightarrow> (string list \<times> bool) option \<Rightarrow> bool \<Rightarrow> nat \<Rightarrow> watcher \<Rightarrow> bool \<times> watcher" where
  "watch_due addresses cached busy now w =
     (if addresses = [] then (False, w)
      else if addresses \<noteq> wt_seen w
      then (False, w\<lparr>wt_seen := addresses, wt_since := now, wt_attempts := 0, wt_retry_at := None\<rparr>)
      else if now - wt_since w < nat_settle then (False, w)
      else if (case cached of Some (wan, failed) \<Rightarrow> \<not> failed \<and> wan = wt_seen w | None \<Rightarrow> False) then (False, w)
      else if wt_attempts w > length nat_retries \<or> busy then (False, w)
      else (case wt_retry_at w of None \<Rightarrow> True | Some at \<Rightarrow> at \<le> now, w))"

definition watch_finished :: "bool \<Rightarrow> nat \<Rightarrow> watcher \<Rightarrow> watcher" where
  "watch_finished failed now w =
     w\<lparr>wt_attempts := wt_attempts w + 1,
       wt_retry_at := (if failed \<and> wt_attempts w < length nat_retries then Some (now + nat_retries ! wt_attempts w) else None)\<rparr>"

text \<open>What a step of the watcher shows: nothing, a new set of addresses, or a detection and whether it failed.\<close>

datatype watch_out = Quiet | Changed | Detected bool

definition watch_tick ::
  "string list \<Rightarrow> bool \<Rightarrow> nat \<Rightarrow> nat \<Rightarrow> nat_report option \<Rightarrow> nat \<Rightarrow> watcher \<times> nat_state \<Rightarrow> watch_out \<times> watcher \<times> nat_state" where
  "watch_tick addresses speedtest now ended outcome epoch s =
     (let st = (if addresses \<noteq> [] then (snd s)\<lparr>ns_wan := addresses\<rparr> else snd s);
          cached = map_option (\<lambda>r. (nr_wan r, nr_error r \<noteq> None)) (ns_last st);
          (due, w) = watch_due addresses cached (speedtest \<or> ns_request st \<noteq> None) now (fst s)
      in if \<not> due then (if addresses \<noteq> [] \<and> addresses \<noteq> wt_seen (fst s) then Changed else Quiet, w, st)
         else case nat_measure outcome epoch ''wan_change'' st of
           (Inl _, st1) \<Rightarrow> (Quiet, w, st1)
         | (Inr r, st1) \<Rightarrow> (Detected (nr_error r \<noteq> None), watch_finished (nr_error r \<noteq> None) ended w, st1))"

datatype watch_event =
    WatchTick "string list" bool nat nat "nat_report option" nat
  | RequestStart
  | RequestDone "nat_report option" nat

fun watch_step :: "watch_event \<Rightarrow> watcher \<times> nat_state \<Rightarrow> watch_out \<times> watcher \<times> nat_state" where
  "watch_step (WatchTick addresses speedtest now ended outcome epoch) s = watch_tick addresses speedtest now ended outcome epoch s"
| "watch_step RequestStart (w, st) = (Quiet, w, snd (nat_request_start st))"
| "watch_step (RequestDone outcome epoch) (w, st) = (Quiet, w, nat_request_done outcome epoch st)"

fun event_time :: "watch_event \<Rightarrow> nat" where
  "event_time (WatchTick _ _ now _ _ _) = now"
| "event_time _ = 0"

fun event_end :: "watch_event \<Rightarrow> nat" where
  "event_end (WatchTick _ _ _ ended _ _) = ended"
| "event_end _ = 0"

fun watch_run :: "watch_event list \<Rightarrow> watcher \<times> nat_state \<Rightarrow> (watch_event \<times> watch_out) list \<times> watcher \<times> nat_state" where
  "watch_run [] s = ([], s)"
| "watch_run (e # es) s =
     (let (out, s1) = watch_step e s; (outs, s2) = watch_run es s1 in ((e, out) # outs, s2))"

section \<open>Telemetry\<close>



section \<open>Laws\<close>

definition is_detection :: "watch_event \<times> watch_out \<Rightarrow> bool" where
  "is_detection x = (case snd x of Detected _ \<Rightarrow> True | _ \<Rightarrow> False)"

lemma tick_cases:
  assumes "watch_step e (w, st) = (out, w', st')"
  shows "case out of
      Quiet \<Rightarrow> w' = w
    | Changed \<Rightarrow> wt_attempts w' = 0 \<and> wt_since w' = event_time e \<and> wt_retry_at w' = None \<and> wt_seen w' \<noteq> []
    | Detected failed \<Rightarrow> wt_attempts w \<le> 3 \<and> nat_settle \<le> event_time e - wt_since w \<and> wt_seen w \<noteq> []
        \<and> (\<forall>at. wt_retry_at w = Some at \<longrightarrow> at \<le> event_time e) \<and> w' = watch_finished failed (event_end e) w"
  using assms
  by (cases e)
     (auto simp: watch_tick_def watch_due_def nat_measure_def nat_retries_def Let_def split: if_splits option.splits prod.splits)

text \<open>The part of a history since the last change of the addresses, the time of that change, and its detections.\<close>

definition since_change :: "(watch_event \<times> watch_out) list \<Rightarrow> (watch_event \<times> watch_out) list" where
  "since_change outs = rev (takeWhile (\<lambda>x. snd x \<noteq> Changed) (rev outs))"

definition last_change :: "(watch_event \<times> watch_out) list \<Rightarrow> nat option" where
  "last_change outs = map_option (\<lambda>x. event_time (fst x)) (find (\<lambda>x. snd x = Changed) (rev outs))"

definition detections :: "(watch_event \<times> watch_out) list \<Rightarrow> (watch_event \<times> watch_out) list" where
  "detections outs = filter is_detection (since_change outs)"

lemma history_snoc:
  "detections (outs @ [(e, Changed)]) = []" "last_change (outs @ [(e, Changed)]) = Some (event_time e)"
  "detections (outs @ [(e, Quiet)]) = detections outs" "last_change (outs @ [(e, Quiet)]) = last_change outs"
  "detections (outs @ [(e, Detected f)]) = detections outs @ [(e, Detected f)]" "last_change (outs @ [(e, Detected f)]) = last_change outs"
  by (simp_all add: detections_def since_change_def last_change_def is_detection_def)

definition watch_inv :: "(watch_event \<times> watch_out) list \<Rightarrow> watcher \<Rightarrow> bool" where
  "watch_inv outs w \<longleftrightarrow>
     (wt_seen w \<noteq> [] \<longrightarrow> last_change outs = Some (wt_since w)) \<and> wt_attempts w = length (detections outs)
     \<and> (\<forall>e pre. detections outs = pre @ [(e, Detected True)] \<longrightarrow> length pre < 3 \<longrightarrow>
          wt_retry_at w = Some (event_end e + nat_retries ! length pre))"

lemma watch_inv_step:
  assumes "watch_inv outs w" "watch_step e (w, st) = (out, w', st')"
  shows "watch_inv (outs @ [(e, out)]) w'"
  using assms(1) tick_cases [OF assms(2)]
  by (cases out) (auto simp: watch_inv_def history_snoc watch_finished_def nat_retries_def)

lemma watch_run_snoc:
  "watch_run (es @ [e]) s = (let (outs, s1) = watch_run es s; (out, s2) = watch_step e s1 in (outs @ [(e, out)], s2))"
  by (induction es arbitrary: s) (simp_all add: Let_def split: prod.split)

lemma watch_run_inv:
  assumes "watch_run es (watcher_new t, st) = (outs, w, st')"
  shows "watch_inv outs w"
  using assms
proof (induction es arbitrary: outs w st' rule: rev_induct)
  case Nil
  then show ?case by (auto simp: watch_inv_def watcher_new_def detections_def since_change_def)
next
  case (snoc e es)
  obtain o1 w1 st1 where a: "watch_run es (watcher_new t, st) = (o1, w1, st1)" by (metis prod_cases3)
  obtain out w2 st2 where b: "watch_step e (w1, st1) = (out, w2, st2)" by (metis prod_cases3)
  show ?case using watch_inv_step [OF snoc.IH [OF a] b] snoc.prems a b by (simp add: watch_run_snoc)
qed

text \<open>
  C20: Automatic detections are rare.  Whatever addresses the watcher is shown, whatever other detections run and however
  they end, a detection of the watcher comes at least thirty seconds after the last change of the
  addresses, is at most the fourth since that change, and follows a failed one only after one, five
  and fifteen minutes.\<close>
theorem nat_watch_limits:
  assumes "watch_run (es @ [e]) (watcher_new t, st) = (outs @ [(e, Detected failed)], s)"
  shows "(\<exists>c. last_change outs = Some c \<and> 30 * 10 ^ 9 \<le> event_time e - c) \<and> length (detections outs) < 4
    \<and> (\<forall>prev pre. detections outs = pre @ [(prev, Detected True)] \<longrightarrow>
         event_end prev + [60, 300, 900] ! length pre * 10 ^ 9 \<le> event_time e)"
proof -
  obtain o1 w1 st1 where a: "watch_run es (watcher_new t, st) = (o1, w1, st1)" by (metis prod_cases3)
  obtain out w2 st2 where b: "watch_step e (w1, st1) = (out, w2, st2)" by (metis prod_cases3)
  have h: "o1 = outs" "out = Detected failed" using assms a b by (simp_all add: watch_run_snoc)
  have d: "wt_attempts w1 \<le> 3" "nat_settle \<le> event_time e - wt_since w1" "wt_seen w1 \<noteq> []"
      "\<And>at. wt_retry_at w1 = Some at \<Longrightarrow> at \<le> event_time e"
    using tick_cases [OF b] h(2) by simp_all
  have i: "watch_inv outs w1" using watch_run_inv [OF a] h(1) by simp
  have "event_end prev + [60, 300, 900] ! length pre * 10 ^ 9 \<le> event_time e"
    if p: "detections outs = pre @ [(prev, Detected True)]" for prev pre
  proof -
    have l: "length pre < 3" using i d(1) p by (simp add: watch_inv_def)
    then have "event_end prev + nat_retries ! length pre \<le> event_time e"
      using i p d(4) by (simp add: watch_inv_def)
    moreover have "nat_retries ! length pre = [60, 300, 900] ! length pre * 10 ^ 9"
      using l by (auto simp: nat_retries_def nat_second_def less_Suc_eq numeral_3_eq_3)
    ultimately show ?thesis by simp
  qed
  then show ?thesis using i d(1-3) by (auto simp: watch_inv_def nat_settle_def nat_second_def)
qed

definition demo_report :: nat_report where
  "demo_report = plain_report ''udp_blocked'' None (Some ''no_stun_answer'') None"

definition demo_nat_state :: nat_state where
  "demo_nat_state = \<lparr>ns_last = None, ns_request = None, ns_wan = []\<rparr>"

definition demo_nat_tick :: "nat \<Rightarrow> watch_event" where
  "demo_nat_tick n = WatchTick [''10.0.0.2''] False (n * 10 ^ 9) (n * 10 ^ 9) (Some demo_report) 0"

theorem nat_watch_limits_witness:
  "let outs = fst (watch_run [demo_nat_tick 0, demo_nat_tick 40] (watcher_new 0, demo_nat_state)) in
   detections outs = [(demo_nat_tick 40, Detected True)] \<and> event_end (demo_nat_tick 40) + 60 * 10 ^ 9 \<le> event_time (demo_nat_tick 100)"
proof -
  let ?outs = "[(demo_nat_tick 0, Changed), (demo_nat_tick 40, Detected True)]"
  have r: "fst (watch_run ([demo_nat_tick 0, demo_nat_tick 40] @ [demo_nat_tick 100]) (watcher_new 0, demo_nat_state))
      = ?outs @ [(demo_nat_tick 100, Detected True)]"
    by code_simp
  obtain s where s: "watch_run ([demo_nat_tick 0, demo_nat_tick 40] @ [demo_nat_tick 100]) (watcher_new 0, demo_nat_state)
      = (?outs @ [(demo_nat_tick 100, Detected True)], s)"
    using r by (metis prod.collapse)
  have f: "fst (watch_run [demo_nat_tick 0, demo_nat_tick 40] (watcher_new 0, demo_nat_state)) = ?outs" by code_simp
  have d: "detections ?outs = [] @ [(demo_nat_tick 40, Detected True)]"
    by (simp add: detections_def since_change_def is_detection_def)
  show ?thesis using nat_watch_limits [OF s] d unfolding Let_def f by (simp del: One_nat_def)
qed











section \<open>Captured packets\<close>

text \<open>
  An IPv4 datagram with \<open>opts\<close> as its options and a UDP packet as its content, followed by the padding of
  the link.\<close>

definition udp_packet :: "bytes \<Rightarrow> bytes \<Rightarrow> u16 \<Rightarrow> bytes \<Rightarrow> bytes \<Rightarrow> bytes" where
  "udp_packet opts src port payload pad =
     (let h = 20 + length opts; n = 8 + length payload in
      [word_of_nat (64 + h div 4), 0] @ to_be 2 (h + n) @ [0, 0, 64, 0, 64, 17, 0, 0] @ src @ [10, 0, 0, 2]
      @ opts @ to_be 2 (unat port) @ [19, 136] @ to_be 2 n @ [0, 0] @ payload @ pad)"

lemma two_bytes:
  assumes "n < 65536"
  obtains x y where "to_be 2 n = [x, y]" "be_nat [x, y] = n"
  using be_nat_to_be [of 2 n] assms by (simp add: numeral_2_eq_2)

text \<open>
  A captured datagram is read as it was sent.  For every IPv4 header with options, every source and every payload, also
  with padding of the link behind it, the parser of captured packets returns the source address, the source
  port and exactly the payload.\<close>
theorem udp_payload_reads:
  assumes "length opts \<le> 40" "4 dvd length opts" "28 + length opts + length payload < 65536"
  shows "udp_payload (udp_packet opts [a, b, c, d] port payload pad) = Some (\<lparr>sa_ip = Ip4 [a, b, c, d], sa_port = port\<rparr>, payload)"
proof -
  let ?h = "20 + length opts"
  obtain t0 t1 where t: "to_be 2 (?h + (8 + length payload)) = [t0, t1]" "be_nat [t0, t1] = ?h + (8 + length payload)"
    using two_bytes [of "?h + (8 + length payload)"] assms(3) by auto
  have "unat port < 65536" using unsigned_less [of port] by simp
  then obtain p0 p1 where p: "to_be 2 (unat port) = [p0, p1]" "(word_of_nat (be_nat [p0, p1]) :: u16) = port"
    using two_bytes [of "unat port"] by (metis port_word)
  obtain l0 l1 where l: "to_be 2 (8 + length payload) = [l0, l1]" "be_nat [l0, l1] = 8 + length payload"
    using two_bytes [of "8 + length payload"] assms(3) by auto
  obtain k where k: "length opts = 4 * k" "k \<le> 10" using assms(1,2) by auto
  have e: "64 + ?h div 4 = 69 + k" using k by simp
  have v: "unat (word_of_nat (64 + ?h div 4) :: u8) = 64 + (5 + k)"
    unfolding e unsigned_of_nat using k(2) by (simp add: take_bit_nat_def)
  define w :: bytes where "w = [word_of_nat (64 + ?h div 4), 0, t0, t1, 0, 0, 64, 0, 64, 17, 0, 0, a, b, c, d, 10, 0, 0, 2] @ opts"
  have pk: "udp_packet opts [a, b, c, d] port payload pad = w @ [p0, p1, 19, 136, l0, l1, 0, 0] @ payload @ pad"
    using t(1) p(1) l(1) by (simp add: udp_packet_def w_def)
  have w: "length w = ?h" "w ! 0 = word_of_nat (64 + ?h div 4)" "w ! 2 = t0" "w ! 3 = t1" "w ! 6 = 64" "w ! 7 = 0" "w ! 9 = 17"
      "w ! 12 = a" "w ! 13 = b" "w ! 14 = c" "w ! 15 = d"
    by (simp_all add: w_def)
  have "64 + (5 + k) = (5 + k) + 16 * 4" by simp
  then have "(64 + (5 + k)) mod 16 = 5 + k" "(64 + (5 + k)) div 16 = 4" using k(2) by (simp_all only: mod_mult_self2 div_mult_self2) simp_all
  then have h: "(64 + (5 + k)) mod 16 * 4 = ?h" "(64 + (5 + k)) div 16 = 4" using k(1) by simp_all
  define q where "q = [p0, p1, 19, 136, l0, l1, 0, 0] @ payload @ pad"
  have n: "(w @ q) ! i = w ! i" if "i < 20" for i using that w(1) by (simp add: nth_append)
  have m: "(w @ q) ! (length w + i) = q ! i" for i by (rule nth_append_length_plus)
  have bytes: "(w @ q) ! 0 = w ! 0" "(w @ q) ! 2 = t0" "(w @ q) ! 3 = t1" "(w @ q) ! 6 = 64" "(w @ q) ! 7 = 0" "(w @ q) ! 9 = 17"
      "(w @ q) ! 12 = a" "(w @ q) ! 13 = b" "(w @ q) ! 14 = c" "(w @ q) ! 15 = d"
    by (simp_all add: n w)
  have udp: "(w @ q) ! length w = p0" "(w @ q) ! (length w + 1) = p1" "(w @ q) ! (length w + 4) = l0" "(w @ q) ! (length w + 5) = l1"
    using m [of 0] m [of 1] m [of 4] m [of 5] by (simp_all add: q_def)
  have hd: "unat (w ! 0) mod 16 * 4 = length w" "unat (w ! 0) div 16 = 4" using v h w(1,2) by simp_all
  have tot: "min (length w + (8 + length payload)) (length (w @ q)) = length w + 8 + length payload" by (simp add: q_def)
  have fr: "be_nat [64, 0] mod 2 ^ 14 = 0" by simp
  have body: "take (length payload) (drop (length w + 8) (w @ q)) = payload" by (simp add: q_def)
  have ge: "\<not> length w < 20" "\<not> length (w @ q) < length w + 8" "w @ q \<noteq> []" using w(1) by (simp_all add: q_def)
  have "udp_payload (w @ q) = Some (\<lparr>sa_ip = Ip4 [a, b, c, d], sa_port = port\<rparr>, payload)"
    unfolding udp_payload_def bytes hd Let_def udp fr t(2) [unfolded w(1) [symmetric]] l(2) p(2) tot
    using ge body by (simp del: append_is_Nil_conv length_append)
  then show ?thesis by (simp add: pk q_def)
qed

theorem udp_payload_reads_witness:
  "udp_payload (udp_packet [1, 1, 1, 0] [8, 8, 8, 8] 3478 [5, 6, 7] [0, 0]) = Some (\<lparr>sa_ip = Ip4 [8, 8, 8, 8], sa_port = 3478\<rparr>, [5, 6, 7])"
proof (rule udp_payload_reads)
  have "length [1, 1, 1, 0 :: u8] = 4" by simp
  then show "4 dvd length [1, 1, 1, 0 :: u8]" by (metis dvd_refl)
qed simp_all

section \<open>Requests and addresses\<close>

definition default_nat_servers :: "string list" where
  "default_nat_servers = [''stun:stun.miwifi.com:3478'', ''stun:stun.voipgate.com:3478'', ''stun:stun.fitauto.ru:3478'',
     ''stun:stun.nextcloud.com:443'', ''stun:stun.cloudflare.com:3478'', ''stun:stun.chat.bilibili.com:3478'']"

definition max_nat_servers :: nat where "max_nat_servers = 6"

definition default_servers :: "(string \<times> nat) list" where
  "default_servers = List.map_filter parse_server default_nat_servers"

text \<open>The parameter of the action \<open>nat.detect\<close>; \<open>Inl\<close> is an invalid request.\<close>

definition nat_detect_servers :: "json \<Rightarrow> string + (string \<times> nat) list" where
  "nat_detect_servers params =
     (case jget params ''servers'' of
        None \<Rightarrow> Inr default_servers
      | Some (JArray items) \<Rightarrow>
          if 1 \<le> length items \<and> length items \<le> max_nat_servers
          then (let parsed = map (\<lambda>item. Option.bind (as_str item) parse_server) items in
                if list_all (\<lambda>x. x \<noteq> None) parsed then Inr (map the parsed)
                else Inl ''servers must be stun:host[:port] entries'')
          else Inl (''servers must be an array of 1-'' @ show_nat max_nat_servers @ '' stun:host[:port] entries'')
      | Some _ \<Rightarrow> Inl (''servers must be an array of 1-'' @ show_nat max_nat_servers @ '' stun:host[:port] entries''))"

lemma default_servers_all: "length default_servers = length default_nat_servers"
  by code_simp

lemma sorted_adjacent: "sorted xs \<Longrightarrow> distinct (remdups_adj xs)" for xs :: "string list"
  by (induction xs rule: remdups_adj.induct) (auto simp: order.antisym)

text \<open>The order and the repetition of addresses in a snapshot are no change for the watcher.\<close>

lemma wan_ipv4_canonical:
  assumes "set (List.map_filter entry_address (wan_entries a)) = set (List.map_filter entry_address (wan_entries b))"
  shows "wan_ipv4 a = wan_ipv4 b"
proof -
  have "sorted (wan_ipv4 x)" "distinct (wan_ipv4 x)" "set (wan_ipv4 x) = set (List.map_filter entry_address (wan_entries x))" for x
    by (simp_all add: wan_ipv4_def sorted_adjacent)
  then show ?thesis using assms by (metis sorted_distinct_set_unique)
qed

end
