(* ===== verification/Cloud_Assign.thy ===== *)
theory Cloud_Assign
  imports Rust_Net Json_Value Interfaces
begin

text \<open>
  What the platform assigns to a device: its MQTT route (\<open>cloud_route.rs\<close>) and the relay nodes it may connect to
  (\<open>cloud_nodes.rs\<close>), with the checks of origins and topics of \<open>cloud.rs\<close> they share.  The URL parser is a
  parameter; besides the parts of a \<open>url\<close> it gives the path and the serialised origin.
\<close>

section \<open>Origins\<close>

definition cloud_topic :: "string \<Rightarrow> bool" where
  "cloud_topic v \<longleftrightarrow> v \<noteq> [] \<and> length v \<le> 128 \<and> list_all (\<lambda>b. is_ascii_alphanumeric b \<or> b \<in> set ''_. -'') v"

definition https_origin :: "url_parser \<Rightarrow> string \<Rightarrow> origin_url option" where
  "https_origin up raw =
     (if length raw > 512 \<or> list_ex (\<lambda>b. is_ascii_control b \<or> is_ascii_whitespace b) raw then None
      else case up raw of None \<Rightarrow> None
        | Some u \<Rightarrow>
            if url_scheme u \<noteq> ''https'' \<or> (case url_host_str u of None \<Rightarrow> True | Some h \<Rightarrow> str_contains ''*'' h)
              \<or> url_username u \<noteq> [] \<or> url_password u \<noteq> None \<or> url_path u \<notin> {[], ''/''} \<or> url_query u \<noteq> None
              \<or> url_fragment u \<noteq> None \<or> url_port u = Some 0
            then None else Some u)"

text \<open>The check of a domain name that both modules write out.\<close>

definition domain_name :: "string \<Rightarrow> bool" where
  "domain_name raw =
     (let host = to_ascii_lowercase raw in
      \<not> starts_with ''['' host \<and> parse_ip host = None \<and> str_contains ''.'' host \<and> \<not> ends_with ''.'' host
      \<and> host \<noteq> ''localhost'' \<and> \<not> ends_with ''.localhost'' host)"

record cloud_config =
  cf_platform_url :: string
  cf_broker :: string

definition platform_origin :: "url_parser \<Rightarrow> cloud_config \<Rightarrow> string option" where
  "platform_origin up cfg = map_option url_origin (https_origin up (cf_platform_url cfg))"

section \<open>The MQTT route\<close>

record route_saved =
  rs_revision :: nat
  rs_route :: string
  rs_broker :: string
  rs_platform :: string



record mqtt_route =
  mr_saved :: route_saved
  mr_file :: "route_saved disk"
  mr_on_fallback :: bool

record endpoints =
  ep_primary :: string
  ep_fallback :: "string option"

definition member_broker :: "url_parser \<Rightarrow> string \<Rightarrow> bool" where
  "member_broker up raw =
     (case up raw of None \<Rightarrow> False
      | Some u \<Rightarrow>
          (case url_host_str u of None \<Rightarrow> False
           | Some host \<Rightarrow>
               length raw \<le> 512 \<and> url_scheme u = ''wss'' \<and> domain_name host \<and> url_username u = [] \<and> url_password u = None
               \<and> url_query u = None \<and> url_fragment u = None \<and> url_port u \<noteq> Some 0))"




definition route_member :: "url_parser \<Rightarrow> cloud_config \<Rightarrow> mqtt_route \<Rightarrow> string option" where
  "route_member up cfg m =
     (let s = mr_saved m in
      if rs_route s = ''member'' \<and> platform_origin up cfg = Some (rs_platform s) \<and> member_broker up (rs_broker s)
      then Some (rs_broker s) else None)"

definition route_endpoints :: "url_parser \<Rightarrow> cloud_config \<Rightarrow> mqtt_route \<Rightarrow> endpoints" where
  "route_endpoints up cfg m =
     (case route_member up cfg m of
        Some member \<Rightarrow>
          if member \<noteq> cf_broker cfg then \<lparr>ep_primary = member, ep_fallback = Some (cf_broker cfg)\<rparr>
          else \<lparr>ep_primary = cf_broker cfg, ep_fallback = None\<rparr>
      | None \<Rightarrow> \<lparr>ep_primary = cf_broker cfg, ep_fallback = None\<rparr>)"

definition set_on_fallback :: "bool \<Rightarrow> mqtt_route \<Rightarrow> mqtt_route" where
  "set_on_fallback v m = m\<lparr>mr_on_fallback := v\<rparr>"


definition reply_tail :: "bool \<Rightarrow> bool \<Rightarrow> string option \<Rightarrow> json_map" where
  "reply_tail ok applied err =
     (if ok then [(''applied'', JBool applied)] else [])
     @ (case err of Some code \<Rightarrow> [(''error'', jobj [(''code'', JString code)])] | None \<Rightarrow> [])"



section \<open>Relay nodes\<close>

definition max_nodes :: nat where "max_nodes = 8"

record nodes_saved =
  no_revision :: nat
  no_nodes :: "string list"
  no_platform :: string
  no_disabled :: bool

definition nodes_default :: nodes_saved where
  "nodes_default = \<lparr>no_revision = 0, no_nodes = [], no_platform = [], no_disabled = False\<rparr>"

record nodes_command =
  nc_protocol_version :: int
  nc_request_id :: string
  nc_action :: string
  nc_nodes :: "string list"
  nc_revision :: nat

record remote_nodes =
  rn_saved :: nodes_saved
  rn_file :: "nodes_saved disk"

definition node_origin :: "url_parser \<Rightarrow> string \<Rightarrow> origin_url option" where
  "node_origin up raw =
     (case https_origin up raw of None \<Rightarrow> None
      | Some u \<Rightarrow> (case url_host_str u of Some host \<Rightarrow> if domain_name host then Some u else None | None \<Rightarrow> None))"

definition nodes_valid :: "url_parser \<Rightarrow> nodes_saved \<Rightarrow> bool" where
  "nodes_valid up s \<longleftrightarrow> length (no_nodes s) \<le> max_nodes \<and> list_all (\<lambda>n. node_origin up n \<noteq> None) (no_nodes s)"

definition nodes_load :: "url_parser \<Rightarrow> nodes_saved disk \<Rightarrow> remote_nodes" where
  "nodes_load up f =
     \<lparr>rn_saved = (case f of Holds s \<Rightarrow> if nodes_valid up s then s else nodes_default | _ \<Rightarrow> nodes_default), rn_file = f\<rparr>"

definition nodes_store :: "string option \<Rightarrow> nodes_saved \<Rightarrow> remote_nodes \<Rightarrow> (string + unit) \<times> remote_nodes" where
  "nodes_store outcome next m =
     (case outcome of Some err \<Rightarrow> (Inl err, m) | None \<Rightarrow> (Inr (), m\<lparr>rn_file := Holds next, rn_saved := next\<rparr>))"

definition nodes_active :: "url_parser \<Rightarrow> cloud_config \<Rightarrow> remote_nodes \<Rightarrow> origin_url list" where
  "nodes_active up cfg m =
     (let s = rn_saved m in
      if no_disabled s \<or> platform_origin up cfg \<noteq> Some (no_platform s) then []
      else List.map_filter (node_origin up) (no_nodes s))"

definition nodes_origins :: "url_parser \<Rightarrow> cloud_config \<Rightarrow> remote_nodes \<Rightarrow> string list" where
  "nodes_origins up cfg m = map url_origin (nodes_active up cfg m)"

definition nodes_set_enabled :: "string option \<Rightarrow> bool \<Rightarrow> remote_nodes \<Rightarrow> (string + unit) \<times> remote_nodes" where
  "nodes_set_enabled outcome enabled m =
     (if no_disabled (rn_saved m) \<noteq> enabled then (Inr (), m)
      else nodes_store outcome ((rn_saved m)\<lparr>no_disabled := \<not> enabled\<rparr>) m)"

definition nodes_public_view :: "url_parser \<Rightarrow> cloud_config \<Rightarrow> remote_nodes \<Rightarrow> json" where
  "nodes_public_view up cfg m =
     jobj [(''enabled'', JBool (\<not> no_disabled (rn_saved m))), (''revision'', jint (int (no_revision (rn_saved m)))),
           (''nodes'', JArray (map JString (no_nodes (rn_saved m)))), (''active'', JArray (map JString (nodes_origins up cfg m)))]"

definition nodes_reply :: "url_parser \<Rightarrow> cloud_config \<Rightarrow> nodes_command \<Rightarrow> remote_nodes \<Rightarrow> bool \<Rightarrow> bool \<Rightarrow> string option \<Rightarrow> json" where
  "nodes_reply up cfg c m ok applied err =
     jobj ([(''request_id'', JString (nc_request_id c)), (''action'', JString ''remote.nodes.set''),
            (''status'', JString (if ok then ''ok'' else ''rejected'')), (''ok'', JBool ok),
            (''revision'', jint (int (no_revision (rn_saved m)))), (''nodes'', JArray (map JString (nodes_origins up cfg m))),
            (''enabled'', JBool (\<not> no_disabled (rn_saved m)))]
           @ reply_tail ok applied err)"

text \<open>The loop over the entries: \<open>None\<close> as soon as one is refused, the origins without repetition otherwise.\<close>

fun collect_nodes :: "url_parser \<Rightarrow> string list \<Rightarrow> string list \<Rightarrow> string list option" where
  "collect_nodes up acc [] = Some acc"
| "collect_nodes up acc (raw # rest) =
     (case node_origin up raw of None \<Rightarrow> None
      | Some u \<Rightarrow> collect_nodes up (if url_origin u \<in> set acc then acc else acc @ [url_origin u]) rest)"

definition nodes_apply :: "url_parser \<Rightarrow> string option \<Rightarrow> cloud_config \<Rightarrow> nodes_command \<Rightarrow> remote_nodes \<Rightarrow> json \<times> remote_nodes" where
  "nodes_apply up outcome cfg c m =
     (let reject = (\<lambda>code. (nodes_reply up cfg c m False False (Some code), m)) in
      if nc_protocol_version c \<noteq> 1 \<or> \<not> cloud_topic (nc_request_id c) \<or> nc_action c \<noteq> ''remote.nodes.set'' then reject ''invalid_request''
      else if length (nc_nodes c) > max_nodes then reject ''too_many_nodes''
      else case collect_nodes up [] (nc_nodes c) of None \<Rightarrow> reject ''invalid_node''
      | Some nodes \<Rightarrow>
          (case platform_origin up cfg of None \<Rightarrow> reject ''platform_unset''
           | Some platform \<Rightarrow>
               let cur = rn_saved m in
               if nc_revision c \<le> no_revision cur \<and> no_platform cur = platform then (nodes_reply up cfg c m True False None, m)
               else
                 let next = \<lparr>no_revision = nc_revision c, no_nodes = nodes, no_platform = platform, no_disabled = no_disabled cur\<rparr> in
                 case nodes_store outcome next m of
                   (Inl _, m1) \<Rightarrow> (nodes_reply up cfg c m1 False False (Some ''save_failed''), m1)
                 | (Inr _, m1) \<Rightarrow> (nodes_reply up cfg c m1 True True None, m1)))"

section \<open>Laws of the route\<close>



definition cmd_platform :: "url_parser \<Rightarrow> string option \<times> cloud_config \<times> 'c \<Rightarrow> string" where
  "cmd_platform up e = (case platform_origin up (fst (snd e)) of Some p \<Rightarrow> p | None \<Rightarrow> [])"




section \<open>Laws of the nodes\<close>

datatype nodes_event = NodesSet "string option" cloud_config nodes_command | NodesSwitch "string option" bool

fun nodes_step :: "url_parser \<Rightarrow> nodes_event \<Rightarrow> remote_nodes \<Rightarrow> remote_nodes" where
  "nodes_step up (NodesSet outcome cfg c) m = snd (nodes_apply up outcome cfg c m)"
| "nodes_step up (NodesSwitch outcome enabled) m = snd (nodes_set_enabled outcome enabled m)"

definition nodes_cmd_ok :: "url_parser \<Rightarrow> string option \<times> cloud_config \<times> nodes_command \<Rightarrow> bool" where
  "nodes_cmd_ok up e = (case e of (outcome, cfg, c) \<Rightarrow>
     outcome = None \<and> nc_protocol_version c = 1 \<and> cloud_topic (nc_request_id c) \<and> nc_action c = ''remote.nodes.set''
     \<and> length (nc_nodes c) \<le> max_nodes \<and> collect_nodes up [] (nc_nodes c) \<noteq> None \<and> platform_origin up cfg \<noteq> None)"

definition cmd_nodes :: "url_parser \<Rightarrow> nodes_command \<Rightarrow> string list" where
  "cmd_nodes up c = (case collect_nodes up [] (nc_nodes c) of Some ns \<Rightarrow> ns | None \<Rightarrow> [])"

lemma nodes_apply_cases:
  "snd (nodes_apply up outcome cfg c m) =
     (if nodes_cmd_ok up (outcome, cfg, c) \<and> (no_revision (rn_saved m) < nc_revision c \<or> no_platform (rn_saved m) \<noteq> cmd_platform up (outcome, cfg, c))
      then let next = \<lparr>no_revision = nc_revision c, no_nodes = cmd_nodes up c, no_platform = cmd_platform up (outcome, cfg, c),
                       no_disabled = no_disabled (rn_saved m)\<rparr>
           in m\<lparr>rn_file := Holds next, rn_saved := next\<rparr>
      else m)"
  by (auto simp: nodes_apply_def nodes_cmd_ok_def cmd_platform_def cmd_nodes_def nodes_store_def Let_def split: option.split)

interpretation nodes_file: durable rn_saved rn_file "nodes_step up" for up
proof
  show "rn_saved (nodes_step up e s) = rn_saved s \<and> rn_file (nodes_step up e s) = rn_file s
      \<or> rn_file (nodes_step up e s) = Holds (rn_saved (nodes_step up e s))" for e s
    by (cases e) (auto simp: nodes_apply_cases Let_def nodes_set_enabled_def nodes_store_def split: option.split)
qed

interpretation nodes_rev: revisioned "\<lambda>(outcome, cfg, c) m. snd (nodes_apply up outcome cfg c m)" "\<lambda>m. no_revision (rn_saved m)"
  "\<lambda>m. no_platform (rn_saved m)" "\<lambda>m. no_nodes (rn_saved m)" "nodes_cmd_ok up" "cmd_platform up" "\<lambda>(_, _, c). nc_revision c"
  "\<lambda>(_, _, c). cmd_nodes up c" for up
  by unfold_locales (auto simp: nodes_apply_cases Let_def split: prod.splits)

section \<open>Properties\<close>

lemma platform_cmd: "platform_origin up (fst (snd e)) = Some p \<Longrightarrow> cmd_platform up e = p"
  by (simp add: cmd_platform_def)


text \<open>
  The order in which node lists arrive does not matter.  Two sequences of the same commands of one platform with distinct
  revisions, with any refused ones among them, leave the device with the same revision and the same list of nodes.\<close>
theorem nodes_order_irrelevant:
  assumes "no_platform (rn_saved m) = p" "\<forall>e\<in>set es. platform_origin up (fst (snd e)) = Some p" "set es' = set es"
    and "inj_on (\<lambda>(_, _, c). nc_revision c) {e \<in> set es. nodes_cmd_ok up e}"
    and "\<forall>(_, _, c)\<in>set es. nc_revision c \<noteq> no_revision (rn_saved m)"
    and "run = (\<lambda>xs. fold (\<lambda>(outcome, cfg, c) m. snd (nodes_apply up outcome cfg c m)) xs m)"
  shows "no_nodes (rn_saved (run es')) = no_nodes (rn_saved (run es)) \<and> no_revision (rn_saved (run es')) = no_revision (rn_saved (run es))"
proof -
  have a: "\<forall>e\<in>set es. nodes_cmd_ok up e \<longrightarrow> cmd_platform up e = p" using assms(2) platform_cmd by blast
  have b: "\<forall>e\<in>set es. nodes_cmd_ok up e \<longrightarrow> (case e of (_, _, c) \<Rightarrow> nc_revision c) \<noteq> no_revision (rn_saved m)"
    using assms(5) by auto
  show ?thesis unfolding assms(6) by (rule nodes_rev.order_irrelevant [OF assms(1) a assms(3,4) b])
qed

text \<open>The owner's switch after a history: the last value that could be stored.\<close>

fun owner_switch :: "bool \<Rightarrow> nodes_event list \<Rightarrow> bool" where
  "owner_switch on [] = on"
| "owner_switch on (NodesSwitch None v # es) = owner_switch v es"
| "owner_switch on (_ # es) = owner_switch on es"

lemma collect_nodes_from:
  assumes "collect_nodes up acc raws = Some ns" "n \<in> set ns"
  shows "n \<in> set acc \<or> (\<exists>raw\<in>set raws. \<exists>u. node_origin up raw = Some u \<and> url_origin u = n)"
  using assms
proof (induction up acc raws rule: collect_nodes.induct)
  case (2 up acc raw rest)
  then show ?case by (fastforce split: option.splits if_splits)
qed simp

definition node_from :: "url_parser \<Rightarrow> string \<Rightarrow> nodes_event list \<Rightarrow> string \<Rightarrow> bool" where
  "node_from up platform es n \<longleftrightarrow> (\<exists>outcome cfg c. NodesSet outcome cfg c \<in> set es \<and> nodes_cmd_ok up (outcome, cfg, c)
     \<and> platform_origin up cfg = Some platform \<and> (\<exists>raw\<in>set (nc_nodes c). \<exists>u. node_origin up raw = Some u \<and> url_origin u = n))"

lemma cmd_nodes_from:
  assumes "nodes_cmd_ok up (outcome, cfg, c)" "n \<in> set (cmd_nodes up c)" "NodesSet outcome cfg c \<in> set es"
  shows "node_from up (cmd_platform up (outcome, cfg, c)) es n"
proof -
  obtain ns where ns: "collect_nodes up [] (nc_nodes c) = Some ns" "n \<in> set ns"
    using assms(1,2) by (auto simp: nodes_cmd_ok_def cmd_nodes_def)
  have "\<exists>raw\<in>set (nc_nodes c). \<exists>u. node_origin up raw = Some u \<and> url_origin u = n" using collect_nodes_from [OF ns] by simp
  moreover have "platform_origin up cfg = Some (cmd_platform up (outcome, cfg, c))"
    using assms(1) by (auto simp: nodes_cmd_ok_def cmd_platform_def)
  ultimately show ?thesis using assms(1,3) unfolding node_from_def by blast
qed

definition nodes_inv :: "url_parser \<Rightarrow> nodes_event list \<Rightarrow> remote_nodes \<Rightarrow> bool" where
  "nodes_inv up es m \<longleftrightarrow> no_disabled (rn_saved m) = (\<not> owner_switch True es)
     \<and> (\<forall>n\<in>set (no_nodes (rn_saved m)). node_from up (no_platform (rn_saved m)) es n)"

lemma owner_switch_snoc: "owner_switch on (es @ [e]) = (case e of NodesSwitch None v \<Rightarrow> v | _ \<Rightarrow> owner_switch on es)"
  by (induction on es rule: owner_switch.induct) (auto split: nodes_event.split option.split)

lemma node_from_snoc: "node_from up p es n \<Longrightarrow> node_from up p (es @ [e]) n"
  unfolding node_from_def set_append by blast

lemma nodes_inv_step:
  assumes "nodes_inv up es m"
  shows "nodes_inv up (es @ [e]) (nodes_step up e m)"
proof (cases e)
  case (NodesSet outcome cfg c)
  then have sw: "owner_switch True (es @ [e]) = owner_switch True es" by (simp add: owner_switch_snoc)
  have "NodesSet outcome cfg c \<in> set (es @ [e])" using NodesSet by simp
  then show ?thesis using assms sw NodesSet node_from_snoc cmd_nodes_from [of up outcome cfg c]
    by (auto simp: nodes_inv_def nodes_apply_cases Let_def)
next
  case (NodesSwitch outcome v)
  then show ?thesis using assms node_from_snoc
    by (cases outcome) (auto simp: nodes_inv_def nodes_set_enabled_def nodes_store_def owner_switch_snoc)
qed

lemma nodes_run_inv: "nodes_inv up es (fold (nodes_step up) es (nodes_load up Missing))"
proof (induction es rule: rev_induct)
  case Nil
  then show ?case by (simp add: nodes_inv_def nodes_load_def nodes_default_def)
next
  case (snoc e es)
  then show ?case using nodes_inv_step by simp
qed

text \<open>
  C27: A device trusts only the nodes its platform named.  Starting without a list, after any sequence of commands and switches of
  the owner, under any configuration: a trusted origin is an HTTPS origin on a domain name without credentials, path
  or query; it is read from the origin of an entry of a well-formed command that was stored under the
  very platform configured now; and the last stored switch of the owner was on.\<close>
theorem nodes_trusted_origin:
  assumes "m = fold (nodes_step up) es (nodes_load up Missing)" "u \<in> set (nodes_active up cfg m)"
  shows "url_scheme u = ''https'' \<and> url_username u = [] \<and> url_password u = None \<and> url_path u \<in> {[], ''/''} \<and> url_query u = None
    \<and> (\<exists>host. url_host_str u = Some host \<and> domain_name host) \<and> owner_switch True es
    \<and> (\<exists>outcome cfg' c raw v. NodesSet outcome cfg' c \<in> set es \<and> nodes_cmd_ok up (outcome, cfg', c)
         \<and> platform_origin up cfg' = platform_origin up cfg \<and> platform_origin up cfg \<noteq> None
         \<and> raw \<in> set (nc_nodes c) \<and> node_origin up raw = Some v \<and> node_origin up (url_origin v) = Some u)"
proof -
  have i: "nodes_inv up es m" unfolding assms(1) by (rule nodes_run_inv)
  have g: "\<not> no_disabled (rn_saved m)" "platform_origin up cfg = Some (no_platform (rn_saved m))"
    using assms(2) by (auto simp: nodes_active_def Let_def split: if_splits)
  obtain n where n: "n \<in> set (no_nodes (rn_saved m))" "node_origin up n = Some u"
    using assms(2) by (auto simp: nodes_active_def Let_def List.map_filter_def split: if_splits)
  have "node_from up (no_platform (rn_saved m)) es n" using i n(1) by (simp add: nodes_inv_def)
  then obtain outcome cfg' c raw v where c: "NodesSet outcome cfg' c \<in> set es" "nodes_cmd_ok up (outcome, cfg', c)"
      "platform_origin up cfg' = Some (no_platform (rn_saved m))" "raw \<in> set (nc_nodes c)" "node_origin up raw = Some v" "url_origin v = n"
    unfolding node_from_def by blast
  have "owner_switch True es" using i g(1) by (simp add: nodes_inv_def)
  moreover have "url_scheme u = ''https'' \<and> url_username u = [] \<and> url_password u = None \<and> url_path u \<in> {[], ''/''} \<and> url_query u = None
      \<and> (\<exists>host. url_host_str u = Some host \<and> domain_name host)"
    using n(2) by (auto simp: node_origin_def https_origin_def split: option.splits if_splits)
  moreover have "\<exists>outcome cfg' c raw v. NodesSet outcome cfg' c \<in> set es \<and> nodes_cmd_ok up (outcome, cfg', c)
         \<and> platform_origin up cfg' = platform_origin up cfg \<and> platform_origin up cfg \<noteq> None
         \<and> raw \<in> set (nc_nodes c) \<and> node_origin up raw = Some v \<and> node_origin up (url_origin v) = Some u"
    by (rule exI [of _ outcome], rule exI [of _ cfg'], rule exI [of _ c], rule exI [of _ raw], rule exI [of _ v])
       (use c g n in simp)
  ultimately show ?thesis by blast
qed

section \<open>Witnesses\<close>

definition demo_url :: "string \<Rightarrow> string \<Rightarrow> string \<Rightarrow> origin_url" where
  "demo_url scheme host orig = \<lparr>url_scheme = scheme, url_username = [], url_password = None, url_query = None, url_fragment = None,
     url_port = None, url_host_str = Some host, url_path = ''/'', url_origin = orig\<rparr>"

definition demo_parser :: url_parser where
  "demo_parser raw =
     (if raw = ''https://n.org'' \<or> raw = ''https://n.org/'' then Some (demo_url ''https'' ''n.org'' ''https://n.org'')
      else if raw = ''wss://m.org'' then Some (demo_url ''wss'' ''m.org'' ''wss://m.org'')
      else None)"

definition demo_cfg :: cloud_config where
  "demo_cfg = \<lparr>cf_platform_url = ''https://n.org'', cf_broker = ''wss://n.org''\<rparr>"



definition demo_nodes_cmd :: "string list \<Rightarrow> nat \<Rightarrow> nodes_command" where
  "demo_nodes_cmd nodes revision =
     \<lparr>nc_protocol_version = 1, nc_request_id = ''n1'', nc_action = ''remote.nodes.set'', nc_nodes = nodes, nc_revision = revision\<rparr>"

lemma demo_platform: "platform_origin demo_parser demo_cfg = Some ''https://n.org''" by code_simp


theorem nodes_order_irrelevant_witness:
  "let a = (None, demo_cfg, demo_nodes_cmd [''https://n.org/''] 4); b = (None, demo_cfg, demo_nodes_cmd [] 9);
       m = \<lparr>rn_saved = \<lparr>no_revision = 0, no_nodes = [], no_platform = ''https://n.org'', no_disabled = False\<rparr>, rn_file = Missing\<rparr>;
       run = (\<lambda>xs. fold (\<lambda>(outcome, cfg, c) m. snd (nodes_apply demo_parser outcome cfg c m)) xs m)
   in no_revision (rn_saved (run [b, a])) = no_revision (rn_saved (run [a, b])) \<and> no_nodes (rn_saved (run [b, a])) = no_nodes (rn_saved (run [a, b]))"
proof -
  let ?a = "(None :: string option, demo_cfg, demo_nodes_cmd [''https://n.org/''] 4)"
  let ?b = "(None :: string option, demo_cfg, demo_nodes_cmd [] 9)"
  let ?m = "\<lparr>rn_saved = \<lparr>no_revision = 0, no_nodes = [], no_platform = ''https://n.org'', no_disabled = False\<rparr>, rn_file = Missing\<rparr>"
  have 1: "no_platform (rn_saved ?m) = ''https://n.org''" by simp
  have 2: "\<forall>e\<in>set [?a, ?b]. platform_origin demo_parser (fst (snd e)) = Some ''https://n.org''" using demo_platform by simp
  have 3: "set [?b, ?a] = set [?a, ?b]" by auto
  have 4: "inj_on (\<lambda>(_, _, c). nc_revision c) {e \<in> set [?a, ?b]. nodes_cmd_ok demo_parser e}"
    by (rule inj_on_subset [of _ "set [?a, ?b]"]) (auto simp: inj_on_def demo_nodes_cmd_def)
  have 5: "\<forall>(_, _, c)\<in>set [?a, ?b]. nc_revision c \<noteq> no_revision (rn_saved ?m)" by (simp add: demo_nodes_cmd_def)
  show ?thesis unfolding Let_def using nodes_order_irrelevant [OF 1 2 3 4 5 refl] by blast
qed

theorem nodes_trusted_origin_witness:
  "let es = [NodesSet None demo_cfg (demo_nodes_cmd [''https://n.org/''] 1)];
       u = demo_url ''https'' ''n.org'' ''https://n.org''
   in u \<in> set (nodes_active demo_parser demo_cfg (fold (nodes_step demo_parser) es (nodes_load demo_parser Missing)))
      \<and> (\<exists>host. url_host_str u = Some host \<and> domain_name host)"
proof -
  let ?es = "[NodesSet None demo_cfg (demo_nodes_cmd [''https://n.org/''] 1)]"
  have u: "demo_url ''https'' ''n.org'' ''https://n.org''
      \<in> set (nodes_active demo_parser demo_cfg (fold (nodes_step demo_parser) ?es (nodes_load demo_parser Missing)))"
    by code_simp
  show ?thesis unfolding Let_def using nodes_trusted_origin [OF refl u] u by blast
qed

end
