(* ===== verification/Smtp_Forward.thy ===== *)
theory Smtp_Forward
  imports Rust_Net "HOL-Library.Sublist"
begin

text \<open>
  Mail submission of \<open>smtp_forward.rs\<close>, with the address filter \<open>public_ip\<close> of \<open>sms_forward.rs\<close> it shares.  A
  connection is the bytes the peer still has to send, the pieces written so far and the number of writes that
  still succeed; a read past the end and a write past that number are the failed calls of the socket.  Base64, the
  resolver, the TCP connections, the TLS handshake and the check of a server name are parameters.
\<close>

section \<open>Addresses outside the local network\<close>

definition public_v4 :: "nat list \<Rightarrow> bool" where
  "public_v4 ip =
     (let a = ip ! 0; b = ip ! 1; c = ip ! 2 in
      \<not> (a = 0 \<or> a = 10 \<or> a = 127 \<or> 224 \<le> a
         \<or> a = 100 \<and> 64 \<le> b \<and> b \<le> 127
         \<or> a = 169 \<and> b = 254
         \<or> a = 172 \<and> 16 \<le> b \<and> b \<le> 31
         \<or> a = 192 \<and> (b = 0 \<or> b = 168 \<or> b = 88)
         \<or> a = 198 \<and> (b = 18 \<or> b = 19 \<or> b = 51 \<and> c = 100)
         \<or> a = 203 \<and> b = 0 \<and> c = 113))"

fun public_ip :: "ip_addr \<Rightarrow> bool" where
  "public_ip (V4 ip) = public_v4 ip"
| "public_ip (V6 ip) =
     (case v6_mapped ip of
        Some v4 \<Rightarrow> public_v4 v4
      | None \<Rightarrow> ip ! 0 div 8192 = 1 \<and> \<not> (ip ! 0 = 8193 \<and> ip ! 1 = 3512))"

section \<open>Settings\<close>

record smtp_settings =
  st_host :: string
  st_port :: nat
  st_username :: string
  st_password :: string
  st_to :: string

definition smtp_settings_default :: smtp_settings where
  "smtp_settings_default = \<lparr>st_host = [], st_port = 0, st_username = [], st_password = [], st_to = []\<rparr>"

record smtp_update =
  su_host :: string
  su_port :: nat
  su_username :: string
  su_password :: "string option"
  su_to :: string

definition smtp_apply :: "smtp_update \<Rightarrow> smtp_settings \<Rightarrow> smtp_settings" where
  "smtp_apply change s =
     \<lparr>st_host = su_host change, st_port = su_port change, st_username = su_username change,
      st_password = (case su_password change of Some p \<Rightarrow> p | None \<Rightarrow> st_password s),
      st_to = su_to change\<rparr>"

definition valid_label :: "string \<Rightarrow> bool" where
  "valid_label l \<longleftrightarrow> 1 \<le> length l \<and> length l \<le> 63 \<and> is_ascii_alphanumeric (hd l) \<and> is_ascii_alphanumeric (last l)
     \<and> list_all (\<lambda>b. is_ascii_alphanumeric b \<or> b = CHR ''-'') l"

definition valid_host :: "string \<Rightarrow> bool" where
  "valid_host host \<longleftrightarrow>
     (let lower = to_ascii_lowercase host in
      length host \<le> 253 \<and> is_ascii host \<and> str_contains ''.'' host \<and> parse_ip host = None \<and> \<not> ends_with ''.'' host
      \<and> \<not> ends_with ''.local'' lower \<and> \<not> ends_with ''.internal'' lower \<and> \<not> ends_with ''.localhost'' lower
      \<and> list_all valid_label (split_on CHR ''.'' host))"

definition valid_mailbox :: "string \<Rightarrow> bool" where
  "valid_mailbox v =
     (if length v > 254 \<or> \<not> is_ascii v then False
      else (case split_once CHR ''@'' v of
              None \<Rightarrow> False
            | Some (local, domain) \<Rightarrow>
                1 \<le> length local \<and> length local \<le> 64 \<and> \<not> starts_with ''.'' local \<and> \<not> ends_with ''.'' local
                \<and> \<not> str_contains ''..'' local
                \<and> list_all (\<lambda>b. is_ascii_alphanumeric b
                     \<or> b \<in> set (''.!#$%&'' @ [CHR 0x27] @ ''*+/=?^_'' @ [CHR 0x60] @ ''{|}~-'')) local
                \<and> valid_host domain))"

definition smtp_configured :: "smtp_settings \<Rightarrow> bool" where
  "smtp_configured s \<longleftrightarrow>
     valid_host (st_host s) \<and> (st_port s = 465 \<or> st_port s = 587) \<and> valid_mailbox (st_username s)
     \<and> st_password s \<noteq> [] \<and> length (st_password s) \<le> 512 \<and> \<not> has_control (st_password s)
     \<and> valid_mailbox (st_to s)"

definition smtp_safe :: "smtp_settings \<Rightarrow> bool" where
  "smtp_safe s \<longleftrightarrow> smtp_configured s
     \<or> st_host s = [] \<and> st_port s = 0 \<and> st_username s = [] \<and> st_password s = [] \<and> st_to s = []"

section \<open>Lines of a connection\<close>

record smtp_io =
  sm_in :: string
  sm_out :: "string list"
  sm_writes :: nat

type_synonym 'a smtp = "smtp_io \<Rightarrow> (string + 'a) \<times> smtp_io"

text \<open>The operator \<open>?\<close>: an error ends the function, the connection stays as it is.\<close>

definition and_then :: "'a smtp \<Rightarrow> ('a \<Rightarrow> 'b smtp) \<Rightarrow> 'b smtp" where
  "and_then m f io = (case m io of (Inl e, io1) \<Rightarrow> (Inl e, io1) | (Inr a, io1) \<Rightarrow> f a io1)"

definition write_all :: "string \<Rightarrow> unit smtp" where
  "write_all piece io =
     (if sm_writes io = 0 then (Inl ''delivery_failed'', io)
      else (Inr (), io\<lparr>sm_out := sm_out io @ [piece], sm_writes := sm_writes io - 1\<rparr>))"

definition crlf :: string where
  "crlf = [CHR 0x0D, CHR 0x0A]"

definition smtp_command :: "string \<Rightarrow> unit smtp" where
  "smtp_command line = and_then (write_all line) (\<lambda>_. write_all crlf)"

text \<open>The inner loop of \<open>read_reply\<close>: at most \<open>n\<close> bytes up to a line feed.\<close>

fun read_line :: "nat \<Rightarrow> string \<Rightarrow> string option \<times> string" where
  "read_line n [] = (None, [])"
| "read_line n (b # inp) =
     (if n = 0 then (None, b # inp)
      else if b = CHR 0x0A then (Some [b], inp)
      else (case read_line (n - 1) inp of (l, rest) \<Rightarrow> (map_option ((#) b) l, rest)))"

definition max_reply_lines :: nat where "max_reply_lines = 24"
definition max_reply_line :: nat where "max_reply_line = 512"

fun read_lines :: "nat \<Rightarrow> nat option \<Rightarrow> string list \<Rightarrow> (nat \<times> string list) smtp" where
  "read_lines n expected result io =
     (if n = 0 then (Inl ''delivery_failed'', io)
      else case read_line max_reply_line (sm_in io) of
        (None, rest) \<Rightarrow> (Inl ''delivery_failed'', io\<lparr>sm_in := rest\<rparr>)
      | (Some line, rest) \<Rightarrow>
          let io1 = io\<lparr>sm_in := rest\<rparr> in
          if length line < 6 \<or> \<not> ends_with crlf line \<or> \<not> list_all is_ascii_digit (take 3 line)
          then (Inl ''delivery_failed'', io1)
          else
            let code = digits_val (take 3 line) in
            if (case expected of Some old \<Rightarrow> old \<noteq> code | None \<Rightarrow> False) \<or> line ! 3 \<notin> {CHR ''-'', CHR '' ''}
            then (Inl ''delivery_failed'', io1)
            else
              let result1 = result @ [from_utf8_lossy (drop 4 (take (length line - 2) line))] in
              if line ! 3 = CHR '' '' then (Inr (code, result1), io1)
              else read_lines (n - 1) (Some code) result1 io1)"

declare read_lines.simps [simp del]

definition read_reply :: "(nat \<times> string list) smtp" where
  "read_reply = read_lines max_reply_lines None []"

definition expect_code :: "nat \<Rightarrow> string list smtp" where
  "expect_code code =
     and_then read_reply (\<lambda>(actual, ls) io. if actual \<noteq> code then (Inl ''delivery_failed'', io) else (Inr ls, io))"

definition ehlo :: "string list smtp" where
  "ehlo = and_then (smtp_command ''EHLO zwrt-datad'') (\<lambda>_. expect_code 250)"

definition eq_ignore_case :: "string \<Rightarrow> string \<Rightarrow> bool" where
  "eq_ignore_case a b \<longleftrightarrow> to_ascii_lowercase a = to_ascii_lowercase b"

definition advertises :: "string list \<Rightarrow> string \<Rightarrow> bool" where
  "advertises ls capability =
     list_ex (\<lambda>l. case split_ascii_whitespace l of name # _ \<Rightarrow> eq_ignore_case name capability | [] \<Rightarrow> False) ls"

definition offers_plain :: "string list \<Rightarrow> bool" where
  "offers_plain ls =
     list_ex (\<lambda>l. case split_ascii_whitespace l of
                    name # names \<Rightarrow> eq_ignore_case name ''AUTH'' \<and> list_ex (\<lambda>n. eq_ignore_case n ''PLAIN'') names
                  | [] \<Rightarrow> False) ls"

section \<open>The submission\<close>

type_synonym encoder = "string \<Rightarrow> string"

definition credential :: "smtp_settings \<Rightarrow> string" where
  "credential s = CHR 0x00 # st_username s @ CHR 0x00 # st_password s"

fun chunks :: "nat \<Rightarrow> string \<Rightarrow> string list" where
  "chunks n [] = []"
| "chunks n (c # s) = (c # take (n - 1) s) # chunks n (drop (n - 1) s)"

primrec write_each :: "string list \<Rightarrow> unit smtp" where
  "write_each [] io = (Inr (), io)"
| "write_each (p # ps) io = and_then (write_all p) (\<lambda>_. write_each ps) io"

definition mail_headers :: "encoder \<Rightarrow> smtp_settings \<Rightarrow> string \<Rightarrow> string" where
  "mail_headers enc s subject =
     ''From: <'' @ st_username s @ ''>'' @ crlf @ ''To: <'' @ st_to s @ ''>'' @ crlf
     @ ''Subject: =?UTF-8?B?'' @ enc subject @ ''?='' @ crlf @ ''MIME-Version: 1.0'' @ crlf
     @ ''Content-Type: text/plain; charset=UTF-8'' @ crlf
     @ ''Content-Transfer-Encoding: base64'' @ crlf @ crlf"

definition auth_plain :: "encoder \<Rightarrow> smtp_settings \<Rightarrow> unit smtp" where
  "auth_plain enc s =
     (let encoded = enc (credential s) in
      and_then (smtp_command (''AUTH PLAIN '' @ encoded)) (\<lambda>_.
      and_then read_reply (\<lambda>(code, _).
      and_then (if code = 334 then and_then (smtp_command encoded) (\<lambda>_. read_reply) else Pair (Inr (code, [])))
        (\<lambda>(code, _) io.
           if code \<noteq> 235
           then (Inl (if 400 \<le> code \<and> code < 500 then ''smtp_auth_temporary'' else ''smtp_auth_failed''), io)
           else (Inr (), io)))))"

definition mail_data :: "encoder \<Rightarrow> smtp_settings \<Rightarrow> string \<Rightarrow> string \<Rightarrow> unit smtp" where
  "mail_data enc s subject body =
     and_then (write_all (mail_headers enc s subject)) (\<lambda>_.
     and_then (write_each (concat (map (\<lambda>c. [c, crlf]) (chunks 76 (enc body))))) (\<lambda>_.
     and_then (write_all (''.'' @ crlf)) (\<lambda>_.
     and_then (expect_code 250) (\<lambda>_ io. (Inr (), snd (smtp_command ''QUIT'' io))))))"

definition submit :: "encoder \<Rightarrow> smtp_settings \<Rightarrow> string \<Rightarrow> string \<Rightarrow> bool \<Rightarrow> unit smtp" where
  "submit enc s subject body greeting =
     and_then (if greeting then expect_code 220 else Pair (Inr [])) (\<lambda>_.
     and_then ehlo (\<lambda>capabilities.
     if \<not> offers_plain capabilities then Pair (Inl ''delivery_failed'')
     else
       and_then (auth_plain enc s) (\<lambda>_.
       and_then (smtp_command (''MAIL FROM:<'' @ st_username s @ ''>'')) (\<lambda>_.
       and_then (expect_code 250) (\<lambda>_.
       and_then (smtp_command (''RCPT TO:<'' @ st_to s @ ''>'')) (\<lambda>_.
       and_then (expect_code 250) (\<lambda>_.
       and_then (smtp_command ''DATA'') (\<lambda>_.
       and_then (expect_code 354) (\<lambda>_. mail_data enc s subject body)))))))))"

section \<open>The connection\<close>

text \<open>
  The socket and the TLS stream it becomes are two channels.  \<open>sv_tls name io\<close> is the outcome of the handshake, which
  takes the socket with what was read and written on it and validates the certificate against the name.
\<close>

record smtp_env =
  sv_b64 :: encoder
  sv_name_ok :: "string \<Rightarrow> bool"
  sv_tls :: "string \<Rightarrow> smtp_io \<Rightarrow> smtp_io option"
  sv_lookup :: "string \<Rightarrow> nat \<Rightarrow> (ip_addr \<times> nat) list option"
  sv_connect :: "ip_addr \<times> nat \<Rightarrow> smtp_io option"
  sv_in_time :: bool

text \<open>What a call leaves on the socket in the clear and, once there is one, on the TLS stream.\<close>

record smtp_wire =
  wi_peer :: "(ip_addr \<times> nat) option"
  wi_clear :: smtp_io
  wi_tls :: "(string \<times> smtp_io) option"

definition submit_tls ::
  "smtp_env \<Rightarrow> smtp_settings \<Rightarrow> string \<Rightarrow> string \<Rightarrow> bool \<Rightarrow> smtp_wire \<Rightarrow> (string + unit) \<times> smtp_wire" where
  "submit_tls e s subject body greeting w =
     (case sv_tls e (st_host s) (wi_clear w) of
        None \<Rightarrow> (Inl ''delivery_failed'', w)
      | Some stream \<Rightarrow>
          (case submit (sv_b64 e) s subject body greeting stream of
             (r, stream1) \<Rightarrow> (r, w\<lparr>wi_tls := Some (st_host s, stream1)\<rparr>)))"

definition start_tls :: "unit smtp" where
  "start_tls =
     and_then (expect_code 220) (\<lambda>_.
     and_then ehlo (\<lambda>capabilities.
     if \<not> advertises capabilities ''STARTTLS'' then Pair (Inl ''delivery_failed'')
     else and_then (smtp_command ''STARTTLS'') (\<lambda>_. and_then (expect_code 220) (\<lambda>_. Pair (Inr ())))))"

definition send_to ::
  "smtp_env \<Rightarrow> smtp_settings \<Rightarrow> string \<Rightarrow> string \<Rightarrow> smtp_wire \<Rightarrow> (string + unit) \<times> smtp_wire" where
  "send_to e s subject body w =
     (if \<not> sv_name_ok e (st_host s) then (Inl ''delivery_failed'', w)
      else if st_port s = 465 then submit_tls e s subject body True w
      else
        (case start_tls (wi_clear w) of
           (Inl err, io) \<Rightarrow> (Inl err, w\<lparr>wi_clear := io\<rparr>)
         | (Inr _, io) \<Rightarrow> submit_tls e s subject body False (w\<lparr>wi_clear := io\<rparr>)))"

fun first_connected :: "(ip_addr \<times> nat \<Rightarrow> smtp_io option) \<Rightarrow> (ip_addr \<times> nat) list \<Rightarrow> smtp_wire option" where
  "first_connected connect [] = None"
| "first_connected connect (a # as) =
     (case connect a of
        Some io \<Rightarrow> Some \<lparr>wi_peer = Some a, wi_clear = io, wi_tls = None\<rparr>
      | None \<Rightarrow> first_connected connect as)"

definition no_wire :: smtp_wire where
  "no_wire = \<lparr>wi_peer = None, wi_clear = \<lparr>sm_in = [], sm_out = [], sm_writes = 0\<rparr>, wi_tls = None\<rparr>"

definition max_resolved :: nat where "max_resolved = 16"

text \<open>
  The deadline of twenty seconds may cut the exchange short at any point, which is a connection whose reads or writes
  end there; when it strikes the result is \<open>delivery_failed\<close> whatever the exchange had reached.
\<close>

definition smtp_send :: "smtp_env \<Rightarrow> smtp_settings \<Rightarrow> string \<Rightarrow> string \<Rightarrow> (string + unit) \<times> smtp_wire" where
  "smtp_send e s subject body =
     (if \<not> smtp_configured s \<or> length subject > 64 \<or> has_control subject \<or> length body > 4096
      then (Inl ''invalid_forward_config'', no_wire)
      else
        let (r, w) =
          (case sv_lookup e (st_host s) (st_port s) of
             None \<Rightarrow> (Inl ''delivery_failed'', no_wire)
           | Some addresses \<Rightarrow>
               if addresses = [] \<or> length addresses > max_resolved \<or> list_ex (\<lambda>a. \<not> public_ip (fst a)) addresses
               then (Inl ''invalid_forward_config'', no_wire)
               else (case first_connected (sv_connect e) addresses of
                       None \<Rightarrow> (Inl ''delivery_failed'', no_wire)
                     | Some w \<Rightarrow> send_to e s subject body w))
        in (if sv_in_time e then r else Inl ''delivery_failed'', w))"

section \<open>What a session writes\<close>

text \<open>
  \<open>sends m W\<close>: whatever the peer answers, a successful \<open>m\<close> writes one of the sequences of \<open>W\<close>, and a failed one
  stops within one of them.
\<close>

definition sends :: "'a smtp \<Rightarrow> string list set \<Rightarrow> bool" where
  "sends m W \<longleftrightarrow> (\<forall>io. \<exists>ws\<in>W. case m io of
       (Inl e, io1) \<Rightarrow> \<exists>k. sm_out io1 = sm_out io @ take k ws
     | (Inr a, io1) \<Rightarrow> sm_out io1 = sm_out io @ ws)"

named_theorems sends_rules

lemma sendsI:
  assumes "\<And>io e io1. m io = (Inl e, io1) \<Longrightarrow> \<exists>ws\<in>W. \<exists>k. sm_out io1 = sm_out io @ take k ws"
    and "\<And>io a io1. m io = (Inr a, io1) \<Longrightarrow> \<exists>ws\<in>W. sm_out io1 = sm_out io @ ws"
  shows "sends m W"
  unfolding sends_def
proof
  fix io
  obtain r io1 where r: "m io = (r, io1)" by fastforce
  then show "\<exists>ws\<in>W. case m io of (Inl e, io1) \<Rightarrow> \<exists>k. sm_out io1 = sm_out io @ take k ws
      | (Inr a, io1) \<Rightarrow> sm_out io1 = sm_out io @ ws"
    using assms by (cases r) auto
qed

lemma sendsE:
  assumes "sends m W" and "m io = (r, io1)"
  obtains ws where "ws \<in> W" and "\<exists>k. sm_out io1 = sm_out io @ take k ws"
    and "isl r \<or> sm_out io1 = sm_out io @ ws"
proof -
  have "\<exists>ws\<in>W. case m io of (Inl e, io1) \<Rightarrow> \<exists>k. sm_out io1 = sm_out io @ take k ws
      | (Inr a, io1) \<Rightarrow> sm_out io1 = sm_out io @ ws"
    using assms(1) by (simp add: sends_def)
  then obtain ws where ws: "ws \<in> W" "case m io of (Inl e, io1) \<Rightarrow> \<exists>k. sm_out io1 = sm_out io @ take k ws
      | (Inr a, io1) \<Rightarrow> sm_out io1 = sm_out io @ ws" by (rule bexE)
  show thesis
  proof (cases r)
    case (Inl e)
    then show thesis using that [OF ws(1)] ws(2) assms(2) by simp
  next
    case (Inr a)
    then have out: "sm_out io1 = sm_out io @ ws" using ws(2) assms(2) by simp
    then have "sm_out io1 = sm_out io @ take (length ws) ws" by simp
    then show thesis using that [OF ws(1)] out by blast
  qed
qed

definition seqs :: "string list set \<Rightarrow> string list set \<Rightarrow> string list set" where
  "seqs V W = {v @ w | v w. v \<in> V \<and> w \<in> W}"

lemma seqs_single [simp]: "seqs {v} W = (@) v ` W" "seqs V {[]} = V"
  by (auto simp: seqs_def)

lemma sends_and_then [sends_rules]:
  assumes "sends m V" and "\<And>a. sends (f a) W" and "W \<noteq> {}"
  shows "sends (and_then m f) (seqs V W)"
proof (rule sendsI)
  fix io e io1
  assume step: "and_then m f io = (Inl e, io1)"
  obtain r io2 where m: "m io = (r, io2)" by fastforce
  obtain v where v: "v \<in> V" "\<exists>k. sm_out io2 = sm_out io @ take k v" "isl r \<or> sm_out io2 = sm_out io @ v"
    using sendsE [OF assms(1) m] by blast
  show "\<exists>ws\<in>seqs V W. \<exists>k. sm_out io1 = sm_out io @ take k ws"
  proof (cases r)
    case (Inl e')
    obtain k where k: "sm_out io2 = sm_out io @ take k v" using v(2) by blast
    obtain w where w: "w \<in> W" using assms(3) by blast
    have "io1 = io2" using step m Inl by (simp add: and_then_def)
    then have "sm_out io1 = sm_out io @ take (min k (length v)) (v @ w)" using k by (simp add: min_def)
    then show ?thesis using v(1) w unfolding seqs_def by blast
  next
    case (Inr a)
    then have "f a io2 = (Inl e, io1)" using step m by (simp add: and_then_def)
    then obtain w k where w: "w \<in> W" "sm_out io1 = sm_out io2 @ take k w"
      using sendsE [OF assms(2)] by metis
    then have "sm_out io1 = sm_out io @ take (length v + k) (v @ w)" using v(3) Inr by simp
    then show ?thesis using v(1) w(1) unfolding seqs_def by blast
  qed
next
  fix io b io1
  assume step: "and_then m f io = (Inr b, io1)"
  then obtain a io2 where m: "m io = (Inr a, io2)" "f a io2 = (Inr b, io1)"
    by (auto simp: and_then_def split: prod.splits sum.splits)
  obtain v where "v \<in> V" "sm_out io2 = sm_out io @ v" using sendsE [OF assms(1) m(1)] by auto
  moreover obtain w where "w \<in> W" "sm_out io1 = sm_out io2 @ w" using sendsE [OF assms(2) m(2)] by auto
  ultimately show "\<exists>ws\<in>seqs V W. sm_out io1 = sm_out io @ ws" unfolding seqs_def by fastforce
qed

lemma sends_mono: "sends m V \<Longrightarrow> V \<subseteq> W \<Longrightarrow> sends m W"
  unfolding sends_def by (meson subsetD)

lemma sends_write_all [sends_rules]: "sends (write_all p) {[p]}"
  by (rule sendsI) (auto simp: write_all_def split: if_splits intro: exI [of _ 0])

lemma sends_command [sends_rules]: "sends (smtp_command l) {[l, crlf]}"
  using sends_and_then [OF sends_write_all [of l] sends_write_all [of crlf]] by (simp add: smtp_command_def)

lemma sends_return: "sends (Pair r) {[]}"
  by (rule sendsI) auto

lemma sm_out_read_lines: "read_lines n expected result io = (r, io1) \<Longrightarrow> sm_out io1 = sm_out io"
proof (induction n arbitrary: expected result io)
  case (Suc n)
  then show ?case
    by (subst (asm) (2) read_lines.simps) (auto simp: Let_def split: prod.splits option.splits if_splits)
qed (simp add: read_lines.simps)

lemma sends_silent: "(\<And>io r io1. m io = (r, io1) \<Longrightarrow> sm_out io1 = sm_out io) \<Longrightarrow> sends m {[]}"
  by (rule sendsI) auto

lemma sends_read_reply: "sends read_reply {[]}"
  by (rule sends_silent) (simp add: read_reply_def sm_out_read_lines)

lemma sends_expect: "sends (expect_code c) {[]}"
proof -
  have "sends (\<lambda>io. if actual \<noteq> c then (Inl ''delivery_failed'', io) else (Inr ls, io)) {[]}" for actual ls
    by (rule sends_silent) (auto split: if_splits)
  then show ?thesis
    unfolding expect_code_def
    by (intro sends_and_then [OF sends_read_reply, of _ "{[]}", simplified seqs_single]) auto
qed

lemma sends_ehlo: "sends ehlo {[''EHLO zwrt-datad'', crlf]}"
  using sends_and_then [OF sends_command sends_expect] by (simp add: ehlo_def)

lemma sends_each: "sends (write_each ps) {ps}"
proof (induction ps)
  case Nil
  show ?case by (rule sends_silent) simp
next
  case (Cons p ps)
  have "write_each (p # ps) = and_then (write_all p) (\<lambda>_. write_each ps)" by (rule ext) simp
  then show ?case using sends_and_then [OF sends_write_all Cons, of p] by simp
qed

text \<open>The pieces of each part of the dialogue.\<close>

definition line_pieces :: "string list \<Rightarrow> string list" where
  "line_pieces ls = concat (map (\<lambda>l. [l, crlf]) ls)"

definition auth_lines :: "encoder \<Rightarrow> smtp_settings \<Rightarrow> bool \<Rightarrow> string list" where
  "auth_lines enc s challenged =
     (''AUTH PLAIN '' @ enc (credential s)) # (if challenged then [enc (credential s)] else [])"

definition command_lines :: "encoder \<Rightarrow> smtp_settings \<Rightarrow> bool \<Rightarrow> string list" where
  "command_lines enc s challenged =
     ''EHLO zwrt-datad'' # auth_lines enc s challenged
     @ [''MAIL FROM:<'' @ st_username s @ ''>'', ''RCPT TO:<'' @ st_to s @ ''>'', ''DATA'']"

definition data_pieces :: "encoder \<Rightarrow> smtp_settings \<Rightarrow> string \<Rightarrow> string \<Rightarrow> string list" where
  "data_pieces enc s subject body =
     mail_headers enc s subject # line_pieces (chunks 76 (enc body)) @ [''.'' @ crlf]"

definition quit_pieces :: "string list set" where
  "quit_pieces = {[], [''QUIT''], [''QUIT'', crlf]}"

lemma sends_quit: "sends (\<lambda>io. (Inr (), snd (smtp_command ''QUIT'' io))) quit_pieces"
  by (rule sendsI)
    (auto simp: quit_pieces_def smtp_command_def and_then_def write_all_def split: if_splits prod.splits sum.splits)

lemma sends_data: "sends (mail_data enc s subject body) ((@) (data_pieces enc s subject body) ` quit_pieces)"
proof -
  have q: "quit_pieces \<noteq> {}" by (simp add: quit_pieces_def)
  have "sends (mail_data enc s subject body)
     (seqs {[mail_headers enc s subject]} (seqs {line_pieces (chunks 76 (enc body))} (seqs {[''.'' @ crlf]}
        (seqs {[]} quit_pieces))))"
    unfolding mail_data_def line_pieces_def
    by (intro sends_and_then sends_write_all sends_each sends_expect sends_quit) (auto simp: quit_pieces_def seqs_def)
  then show ?thesis by (simp add: data_pieces_def image_image)
qed

lemma sends_auth: "sends (auth_plain enc s) {line_pieces (auth_lines enc s c) | c. True}"
proof -
  let ?e = "enc (credential s)"
  have verdict: "sends (\<lambda>io. if code \<noteq> 235 then (Inl (if 400 \<le> code \<and> code < 500 then ''smtp_auth_temporary''
      else ''smtp_auth_failed''), io) else (Inr (), io)) {[]}" for code :: nat
    by (rule sends_silent) (auto split: if_splits)
  have again: "sends (if code = 334 then and_then (smtp_command ?e) (\<lambda>_. read_reply) else Pair (Inr (code, [])))
      {[], [?e, crlf]}" for code :: nat
  proof (cases "code = 334")
    case True
    have "sends (and_then (smtp_command ?e) (\<lambda>_. read_reply)) (seqs {[?e, crlf]} {[]})"
      by (intro sends_and_then sends_command sends_read_reply) simp
    then show ?thesis using True by (auto elim: sends_mono)
  next
    case False
    have "sends (Pair (Inr (code, [] :: string list)) :: (nat \<times> string list) smtp) {[], [?e, crlf]}"
      by (rule sends_mono [OF sends_return]) simp
    then show ?thesis using False by simp
  qed
  have "sends (auth_plain enc s) (seqs {[''AUTH PLAIN '' @ ?e, crlf]} (seqs {[]} (seqs {[], [?e, crlf]} {[]})))"
    unfolding auth_plain_def Let_def split_def
    by (intro sends_and_then sends_command sends_read_reply again verdict) (auto simp: seqs_def)
  then show ?thesis
    by (rule sends_mono) (auto simp: auth_lines_def line_pieces_def intro: exI [of _ True] exI [of _ False])
qed

definition submit_pieces :: "encoder \<Rightarrow> smtp_settings \<Rightarrow> string \<Rightarrow> string \<Rightarrow> string list set" where
  "submit_pieces enc s subject body =
     {line_pieces (command_lines enc s c) @ data_pieces enc s subject body @ q | c q. q \<in> quit_pieces}"

lemma sends_submit: "sends (submit enc s subject body greeting) (submit_pieces enc s subject body)"
proof -
  let ?A = "{line_pieces (auth_lines enc s c) | c. True}"
  let ?D = "(@) (data_pieces enc s subject body) ` quit_pieces"
  let ?R = "seqs ?A (seqs {[''MAIL FROM:<'' @ st_username s @ ''>'', crlf]} (seqs {[]}
      (seqs {[''RCPT TO:<'' @ st_to s @ ''>'', crlf]} (seqs {[]} (seqs {[''DATA'', crlf]} (seqs {[]} ?D))))))"
  have D: "?D \<noteq> {}" by (simp add: quit_pieces_def)
  have R: "sends (and_then (auth_plain enc s) (\<lambda>_.
       and_then (smtp_command (''MAIL FROM:<'' @ st_username s @ ''>'')) (\<lambda>_.
       and_then (expect_code 250) (\<lambda>_.
       and_then (smtp_command (''RCPT TO:<'' @ st_to s @ ''>'')) (\<lambda>_.
       and_then (expect_code 250) (\<lambda>_.
       and_then (smtp_command ''DATA'') (\<lambda>_.
       and_then (expect_code 354) (\<lambda>_. mail_data enc s subject body)))))))) ?R"
    by (intro sends_and_then sends_auth sends_command sends_expect sends_data) (use D in \<open>auto simp: seqs_def\<close>)
  have ne: "?R \<noteq> {}" using D by (auto simp: seqs_def)
  have fail: "sends (Pair (Inl ''delivery_failed'') :: unit smtp) ?R"
  proof (rule sendsI)
    obtain ws where "ws \<in> ?R" using ne by blast
    then show "\<exists>ws\<in>?R. \<exists>k. sm_out io1 = sm_out io @ take k ws"
      if "Pair (Inl ''delivery_failed'') io = (Inl e, io1)" for io e io1
      using that by (intro bexI [of _ ws] exI [of _ 0]) simp_all
  qed simp
  have greet: "sends (if greeting then expect_code 220 else Pair (Inr [])) {[]}"
    by (cases greeting) (simp_all add: sends_expect sends_return)
  have "sends (submit enc s subject body greeting) (seqs {[]} (seqs {[''EHLO zwrt-datad'', crlf]} ?R))"
    unfolding submit_def
    by (intro sends_and_then greet sends_ehlo) (use R fail ne in \<open>auto simp: seqs_def\<close>)
  then show ?thesis
    by (rule sends_mono) (auto simp: submit_pieces_def seqs_def command_lines_def line_pieces_def)
qed

section \<open>What the mail server reads\<close>

text \<open>
  The receiver of RFC 5321: lines end with CR LF, a line that is one dot ends the message, and a dot in front of any
  other line is dropped.
\<close>

fun cut_line :: "string \<Rightarrow> (string \<times> string) option" where
  "cut_line (a # b # r) =
     (if a = CHR 0x0D \<and> b = CHR 0x0A then Some ([], r)
      else map_option (apfst ((#) a)) (cut_line (b # r)))"
| "cut_line _ = None"

lemma cut_line_shorter: "cut_line s = Some (l, r) \<Longrightarrow> length r < length s"
  by (induction s arbitrary: l r rule: cut_line.induct) (fastforce split: if_splits)+

function receive_data :: "string \<Rightarrow> (string list \<times> string) option" where
  "receive_data s =
     (case cut_line s of
        None \<Rightarrow> None
      | Some (l, r) \<Rightarrow>
          if l = ''.'' then Some ([], r)
          else map_option (apfst ((#) (case strip_prefix ''.'' l of Some t \<Rightarrow> t | None \<Rightarrow> l))) (receive_data r))"
  by pat_completeness auto
termination
  by (relation "measure length") (auto dest: cut_line_shorter)

declare receive_data.simps [simp del]

definition plain_line :: "string \<Rightarrow> bool" where
  "plain_line l \<longleftrightarrow> CHR 0x0D \<notin> set l \<and> CHR 0x0A \<notin> set l"

definition with_crlf :: "string list \<Rightarrow> string" where
  "with_crlf ls = concat (map (\<lambda>l. l @ crlf) ls)"

lemma cut_line_plain: "plain_line l \<Longrightarrow> cut_line (l @ crlf @ r) = Some (l, r)"
proof (induction l)
  case (Cons a l)
  then have IH: "cut_line (l @ crlf @ r) = Some (l, r)" and a: "a \<noteq> CHR 0x0D"
    by (auto simp: plain_line_def)
  obtain b t where t: "l @ crlf @ r = b # t" by (cases l) (auto simp: crlf_def)
  then show ?case using IH a by simp
qed (simp add: crlf_def)

lemma receive_data_lines:
  assumes "list_all (\<lambda>l. plain_line l \<and> \<not> starts_with ''.'' l) ls"
  shows "receive_data (with_crlf ls @ ''.'' @ crlf @ r) = Some (ls, r)"
  using assms
proof (induction ls)
  case Nil
  have "cut_line (''.'' @ crlf @ r) = Some (''.'', r)" by (rule cut_line_plain) (simp add: plain_line_def)
  then show ?case by (subst receive_data.simps) (simp add: with_crlf_def)
next
  case (Cons l ls)
  have "cut_line (with_crlf (l # ls) @ ''.'' @ crlf @ r) = Some (l, with_crlf ls @ ''.'' @ crlf @ r)"
    using cut_line_plain [of l "with_crlf ls @ ''.'' @ crlf @ r"] Cons.prems by (simp add: with_crlf_def)
  moreover have "l \<noteq> ''.''" "strip_prefix ''.'' l = None"
    using Cons.prems by (auto simp: starts_with_def)
  ultimately show ?case using Cons by (subst receive_data.simps) simp
qed

lemma concat_chunks [simp]: "concat (chunks n s) = s"
  by (induction n s rule: chunks.induct) auto

lemma chunks_bound: "0 < n \<Longrightarrow> l \<in> set (chunks n s) \<Longrightarrow> 0 < length l \<and> length l \<le> n \<and> set l \<subseteq> set s"
  by (induction n s rule: chunks.induct) (auto dest: in_set_takeD in_set_dropD)

definition b64_alphabet :: string where
  "b64_alphabet = ''ABCDEFGHIJKLMNOPQRSTUVWXYZabcdefghijklmnopqrstuvwxyz0123456789+/=''"

lemma b64_plain: "set l \<subseteq> set b64_alphabet \<Longrightarrow> plain_line l \<and> \<not> starts_with ''.'' l"
proof -
  assume l: "set l \<subseteq> set b64_alphabet"
  have no: "c \<notin> set b64_alphabet" if "c \<in> {CHR 0x0D, CHR 0x0A, CHR ''.''}" for c
    using that by (auto simp: b64_alphabet_def)
  have "plain_line l" using l no unfolding plain_line_def by blast
  moreover have "\<not> starts_with ''.'' l"
    using l no [of "CHR ''.''"] by (auto simp: starts_with_def strip_prefix_Some)
  ultimately show ?thesis by simp
qed

text \<open>Mail addresses carry no control characters, blanks or angle brackets.\<close>

lemma host_chars:
  assumes "valid_host h" and "c \<in> set h"
  shows "is_ascii_alphanumeric c \<or> c = CHR ''-'' \<or> c = CHR ''.''"
proof -
  have "c \<in> set (concat (split_on x s)) \<or> c = x" if "c \<in> set s" for x s
    using that by (induction x s rule: split_on.induct) (auto split: if_splits list.splits)
  then obtain l where "l \<in> set (split_on CHR ''.'' h) \<and> c \<in> set l \<or> c = CHR ''.''"
    using assms(2) by fastforce
  then show ?thesis using assms(1) by (auto simp: valid_host_def valid_label_def Let_def list_all_iff)
qed

lemma split_once_eq: "split_once x s = Some (a, b) \<Longrightarrow> s = a @ x # b"
proof -
  assume a: "split_once x s = Some (a, b)"
  let ?k = "takeWhile (\<lambda>c. c \<noteq> x) s"
  have "length ?k < length s" "a = ?k" "b = drop (Suc (length ?k)) s"
    using a by (auto simp: split_once_def Let_def split: if_splits)
  moreover from this have "s ! length ?k = x" using nth_length_takeWhile by fastforce
  ultimately show ?thesis
    by (metis id_take_nth_drop takeWhile_eq_take)
qed

lemma mailbox_plain: "valid_mailbox v \<Longrightarrow> plain_line v"
proof -
  assume v: "valid_mailbox v"
  then obtain a b where ab: "v = a @ CHR ''@'' # b" and b: "valid_host b"
    and a: "list_all (\<lambda>b. is_ascii_alphanumeric b
                     \<or> b \<in> set (''.!#$%&'' @ [CHR 0x27] @ ''*+/=?^_'' @ [CHR 0x60] @ ''{|}~-'')) a"
    by (auto simp: valid_mailbox_def split: if_splits option.splits dest: split_once_eq)
  have no: "\<not> is_ascii_alphanumeric c" if "c \<in> {CHR 0x0D, CHR 0x0A}" for c
    using that by (auto simp: is_ascii_alphanumeric_def is_ascii_digit_def is_ascii_lower_def is_ascii_upper_def cval_def)
  have "c \<notin> set a" if "c \<in> {CHR 0x0D, CHR 0x0A}" for c
    using a no [OF that] that by (auto simp: list_all_iff)
  moreover have "c \<notin> set b" if "c \<in> {CHR 0x0D, CHR 0x0A}" for c
    using host_chars [OF b] no [OF that] that by auto
  ultimately show ?thesis using ab by (auto simp: plain_line_def)
qed

definition header_lines :: "encoder \<Rightarrow> smtp_settings \<Rightarrow> string \<Rightarrow> string list" where
  "header_lines enc s subject =
     [''From: <'' @ st_username s @ ''>'', ''To: <'' @ st_to s @ ''>'', ''Subject: =?UTF-8?B?'' @ enc subject @ ''?='',
      ''MIME-Version: 1.0'', ''Content-Type: text/plain; charset=UTF-8'', ''Content-Transfer-Encoding: base64'', []]"

lemma headers_lines: "mail_headers enc s subject = with_crlf (header_lines enc s subject)"
  by (simp add: mail_headers_def header_lines_def with_crlf_def)

lemma concat_line_pieces: "concat (line_pieces ls) = with_crlf ls"
  by (induction ls) (simp_all add: line_pieces_def with_crlf_def)

lemma plain_line_append [simp]: "plain_line (a @ b) \<longleftrightarrow> plain_line a \<and> plain_line b"
  by (auto simp: plain_line_def)

lemma plain_line_Cons [simp]: "plain_line (c # l) \<longleftrightarrow> c \<noteq> CHR 0x0D \<and> c \<noteq> CHR 0x0A \<and> plain_line l"
  by (auto simp: plain_line_def)

lemma plain_line_Nil [simp]: "plain_line []"
  by (simp add: plain_line_def)

lemma commands_plain:
  assumes "\<And>x. set (enc x) \<subseteq> set b64_alphabet" and "smtp_configured s"
  shows "list_all plain_line (command_lines enc s c)"
  using assms(2) mailbox_plain [of "st_username s"] mailbox_plain [of "st_to s"] b64_plain [OF assms(1)]
  by (auto simp: command_lines_def auth_lines_def smtp_configured_def)

lemma header_lines_plain:
  assumes "\<And>x. set (enc x) \<subseteq> set b64_alphabet" and "smtp_configured s"
  shows "list_all (\<lambda>l. plain_line l \<and> \<not> starts_with ''.'' l) (header_lines enc s subject)"
  using assms(2) mailbox_plain [of "st_username s"] mailbox_plain [of "st_to s"] b64_plain [OF assms(1)]
  by (auto simp: header_lines_def smtp_configured_def starts_with_def)

lemma data_received:
  assumes "\<And>x. set (enc x) \<subseteq> set b64_alphabet" and "smtp_configured s"
  shows "receive_data (concat (data_pieces enc s subject body) @ rest)
    = Some (header_lines enc s subject @ chunks 76 (enc body), rest)"
proof -
  have "list_all (\<lambda>l. plain_line l \<and> \<not> starts_with ''.'' l) (chunks 76 (enc body))"
    unfolding list_all_iff
  proof
    fix l assume "l \<in> set (chunks 76 (enc body))"
    then have "set l \<subseteq> set b64_alphabet" using chunks_bound [of 76 l "enc body"] assms(1) [of body] by auto
    then show "plain_line l \<and> \<not> starts_with ''.'' l" by (rule b64_plain)
  qed
  then have "list_all (\<lambda>l. plain_line l \<and> \<not> starts_with ''.'' l) (header_lines enc s subject @ chunks 76 (enc body))"
    using header_lines_plain [where enc = enc and subject = subject, OF assms] by simp
  from receive_data_lines [OF this, of rest] show ?thesis
    by (simp add: data_pieces_def headers_lines concat_line_pieces) (simp add: with_crlf_def)
qed

section \<open>Properties\<close>

text \<open>
  C22: mail cannot be injected into.  With configured settings and an encoder that writes the base64 alphabet, a
  submission that reports success has written a sequence of command lines, none with a line break inside, and then a
  message that a receiver following RFC 5321 reads back as exactly the header lines, the blank line and the lines of
  the encoded body, of at most 76 characters; nothing of the text can end the message early or become a command.
\<close>

theorem smtp_message_intact:
  assumes "\<And>x. set (enc x) \<subseteq> set b64_alphabet" and "smtp_configured s"
    and "submit enc s subject body greeting io = (Inr (), io1)"
  shows "\<exists>c message rest. concat (sm_out io1) = concat (sm_out io) @ with_crlf (command_lines enc s c) @ message @ rest
    \<and> list_all plain_line (command_lines enc s c)
    \<and> receive_data (message @ rest) = Some (header_lines enc s subject @ chunks 76 (enc body), rest)
    \<and> concat (chunks 76 (enc body)) = enc body \<and> (\<forall>l \<in> set (chunks 76 (enc body)). length l \<le> 76)
    \<and> rest \<in> concat ` quit_pieces"
proof -
  obtain ws where ws: "ws \<in> submit_pieces enc s subject body" "sm_out io1 = sm_out io @ ws"
    using sendsE [OF sends_submit assms(3)] by auto
  then obtain c q where "ws = line_pieces (command_lines enc s c) @ data_pieces enc s subject body @ q" "q \<in> quit_pieces"
    by (auto simp: submit_pieces_def)
  then have "concat (sm_out io1) = concat (sm_out io) @ with_crlf (command_lines enc s c)
      @ concat (data_pieces enc s subject body) @ concat q" "concat q \<in> concat ` quit_pieces"
    using ws(2) by (simp_all add: concat_line_pieces)
  moreover have "\<forall>l \<in> set (chunks 76 (enc body)). length l \<le> 76" using chunks_bound [of 76] by simp
  ultimately show ?thesis
    using commands_plain [OF assms(1,2)] data_received [where enc = enc and subject = subject and body = body and rest = "concat q", OF assms(1,2)]
    by (intro exI [of _ c] exI [of _ "concat (data_pieces enc s subject body)"] exI [of _ "concat q"]) simp
qed

definition demo_settings :: smtp_settings where
  "demo_settings = \<lparr>st_host = ''smtp.example.com'', st_port = 587, st_username = ''me@example.com'',
     st_password = ''secret'', st_to = ''you@example.com''\<rparr>"

definition demo_b64 :: encoder where
  "demo_b64 x = concat (map (\<lambda>c. if c = CHR ''.'' then ''Lg='' else ''QQ='') x)"

definition demo_replies :: string where
  "demo_replies = with_crlf [''250-mail'', ''250 AUTH LOGIN PLAIN'', ''334 x'', ''235 ok'', ''250 ok'', ''250 ok'', ''354 go'', ''250 done'']"

definition demo_io :: smtp_io where
  "demo_io = \<lparr>sm_in = demo_replies, sm_out = [], sm_writes = 40\<rparr>"

lemma demo_b64_alphabet: "set (demo_b64 x) \<subseteq> set b64_alphabet"
  by (auto simp: demo_b64_def b64_alphabet_def split: if_splits)

lemma demo_configured: "smtp_configured demo_settings"
  by code_simp

lemma demo_submit: "fst (submit demo_b64 demo_settings ''x'' ''.'' False demo_io) = Inr ()"
  by code_simp

lemma smtp_message_intact_witness:
  "\<exists>c message rest. concat (sm_out (snd (submit demo_b64 demo_settings ''x'' ''.'' False demo_io)))
      = with_crlf (command_lines demo_b64 demo_settings c) @ message @ rest
    \<and> receive_data (message @ rest) = Some (header_lines demo_b64 demo_settings ''x'' @ chunks 76 (demo_b64 ''.''), rest)"
proof -
  have "submit demo_b64 demo_settings ''x'' ''.'' False demo_io
      = (Inr (), snd (submit demo_b64 demo_settings ''x'' ''.'' False demo_io))"
    using demo_submit by (simp add: prod_eq_iff)
  from smtp_message_intact [OF demo_b64_alphabet demo_configured this] show ?thesis
    by (auto simp: demo_io_def)
qed

definition clear_dialogue :: "string list" where
  "clear_dialogue = [''EHLO zwrt-datad'', crlf, ''STARTTLS'', crlf]"

lemma sends_start_tls: "sends start_tls {clear_dialogue}"
proof -
  have up: "sends (and_then (smtp_command ''STARTTLS'') (\<lambda>_. and_then (expect_code 220) (\<lambda>_. Pair (Inr ()))))
      (seqs {[''STARTTLS'', crlf]} (seqs {[]} {[]}))"
    by (intro sends_and_then sends_command sends_expect sends_return) auto
  have "sends (Pair (Inl ''delivery_failed'') :: unit smtp) {[''STARTTLS'', crlf]}"
    by (rule sendsI) (auto intro: exI [of _ 0])
  then have "sends start_tls (seqs {[]} (seqs {[''EHLO zwrt-datad'', crlf]} {[''STARTTLS'', crlf]}))"
    unfolding start_tls_def using up
    by (intro sends_and_then sends_expect sends_ehlo) auto
  then show ?thesis by (simp add: clear_dialogue_def)
qed

text \<open>What a call leaves behind: who it spoke to, what went out in the clear, and the name TLS was checked against.\<close>

definition clear_wire_ok :: "smtp_settings \<Rightarrow> smtp_wire \<Rightarrow> bool" where
  "clear_wire_ok s w \<longleftrightarrow>
     prefix (sm_out (wi_clear w)) clear_dialogue
     \<and> (st_port s = 465 \<longrightarrow> sm_out (wi_clear w) = [])
     \<and> (\<forall>a. wi_peer w = Some a \<longrightarrow> public_ip (fst a))
     \<and> (\<forall>name io. wi_tls w = Some (name, io) \<longrightarrow> name = st_host s
          \<and> (st_port s = 465 \<or> sm_out (wi_clear w) = clear_dialogue))"

lemma submit_tls_wire:
  assumes "clear_wire_ok s w" and "wi_tls w = None"
    and "st_port s = 465 \<or> sm_out (wi_clear w) = clear_dialogue"
    and "submit_tls e s subject body g w = (r, w1)"
  shows "clear_wire_ok s w1 \<and> (isl r \<or> wi_tls w1 \<noteq> None)"
proof (cases "sv_tls e (st_host s) (wi_clear w)")
  case None
  then show ?thesis using assms(1,4) by (auto simp: submit_tls_def)
next
  case (Some io)
  obtain q io1 where "submit (sv_b64 e) s subject body g io = (q, io1)" by fastforce
  then have w1: "w1 = w\<lparr>wi_tls := Some (st_host s, io1)\<rparr>" using assms(4) Some by (simp add: submit_tls_def)
  then show ?thesis using assms(1,3) by (simp add: clear_wire_ok_def)
qed

lemma send_to_wire:
  assumes "sm_out (wi_clear w) = []" "wi_tls w = None" "\<forall>a. wi_peer w = Some a \<longrightarrow> public_ip (fst a)"
    and "send_to e s subject body w = (r, w1)"
  shows "clear_wire_ok s w1 \<and> (isl r \<or> wi_tls w1 \<noteq> None)"
proof (cases "sv_name_ok e (st_host s) \<and> st_port s \<noteq> 465")
  case True
  obtain q io where st: "start_tls (wi_clear w) = (q, io)" by fastforce
  from sendsE [OF sends_start_tls st] obtain k where k: "sm_out io = sm_out (wi_clear w) @ take k clear_dialogue"
    and full: "isl q \<or> sm_out io = sm_out (wi_clear w) @ clear_dialogue"
    by (metis singletonD)
  have ok: "clear_wire_ok s (w\<lparr>wi_clear := io\<rparr>)"
    using assms(1-3) True k take_is_prefix [of k] by (simp add: clear_wire_ok_def)
  show ?thesis
  proof (cases q)
    case (Inl err)
    then show ?thesis using assms(4) True st ok by (auto simp: send_to_def)
  next
    case (Inr u)
    then have "submit_tls e s subject body False (w\<lparr>wi_clear := io\<rparr>) = (r, w1)"
      using assms(4) True st by (simp add: send_to_def)
    from submit_tls_wire [OF ok _ _ this] show ?thesis using assms(1,2) full Inr by simp
  qed
next
  case False
  have ok: "clear_wire_ok s w" using assms(1-3) by (simp add: clear_wire_ok_def)
  show ?thesis
  proof (cases "sv_name_ok e (st_host s)")
    case True
    then have "submit_tls e s subject body True w = (r, w1)" "st_port s = 465"
      using assms(4) False by (simp_all add: send_to_def)
    then show ?thesis using submit_tls_wire [OF ok assms(2)] by blast
  next
    case name: False
    then show ?thesis using assms(4) ok by (auto simp: send_to_def)
  qed
qed

lemma first_connected_peer:
  "first_connected f as = Some w \<Longrightarrow> \<exists>a\<in>set as. wi_peer w = Some a \<and> f a = Some (wi_clear w) \<and> wi_tls w = None"
  by (induction as) (auto split: option.splits)

text \<open>
  C14: credentials and mail only travel inside TLS.  Over fresh connections, whatever the resolver, the peer and the
  handshake answer, a call to \<open>send\<close> speaks only to addresses outside the local network, writes nothing in the clear
  but a prefix of EHLO and STARTTLS (and nothing at all on port 465), opens TLS for the configured host name only
  after the whole of that, and reports success only when there was a TLS stream.
\<close>

theorem smtp_credentials_only_in_tls:
  assumes "\<And>a io. sv_connect e a = Some io \<Longrightarrow> sm_out io = []"
    and "smtp_send e s subject body = (r, w)"
  shows "clear_wire_ok s w \<and> (r = Inr () \<longrightarrow> wi_tls w \<noteq> None)"
proof -
  have none: "clear_wire_ok s no_wire" by (simp add: no_wire_def clear_wire_ok_def)
  show ?thesis
  proof (cases "smtp_configured s \<and> length subject \<le> 64 \<and> \<not> has_control subject \<and> length body \<le> 4096
      \<and> (\<exists>as w0. sv_lookup e (st_host s) (st_port s) = Some as \<and> as \<noteq> [] \<and> length as \<le> max_resolved
           \<and> list_all (\<lambda>a. public_ip (fst a)) as \<and> first_connected (sv_connect e) as = Some w0)")
    case True
    then obtain as w0 where as: "sv_lookup e (st_host s) (st_port s) = Some as" "as \<noteq> []" "length as \<le> max_resolved"
        "list_all (\<lambda>a. public_ip (fst a)) as" "first_connected (sv_connect e) as = Some w0"
      by blast
    from first_connected_peer [OF as(5)] obtain a where a: "a \<in> set as" "wi_peer w0 = Some a"
        "sv_connect e a = Some (wi_clear w0)" "wi_tls w0 = None" by blast
    obtain q w1 where send: "send_to e s subject body w0 = (q, w1)" by fastforce
    have "clear_wire_ok s w1 \<and> (isl q \<or> wi_tls w1 \<noteq> None)"
      using send_to_wire [OF assms(1) [OF a(3)] a(4) _ send] a(1,2) as(4) by (simp add: list_all_iff)
    moreover have "w = w1" "r = Inr () \<longrightarrow> q = Inr ()"
      using assms(2) True as send by (auto simp: smtp_send_def list_ex_iff list_all_iff split: if_splits)
    ultimately show ?thesis by auto
  next
    case False
    then have "w = no_wire \<and> isl r"
      using assms(2) by (auto simp: smtp_send_def Let_def list_ex_iff list_all_iff not_le split: if_splits option.splits)
    then show ?thesis using none by auto
  qed
qed

definition demo_smtp_env :: smtp_env where
  "demo_smtp_env = \<lparr>sv_b64 = demo_b64, sv_name_ok = (\<lambda>_. True),
     sv_tls = (\<lambda>name io. Some demo_io),
     sv_lookup = (\<lambda>h p. Some [(V4 [93, 184, 216, 34], p)]),
     sv_connect = (\<lambda>a. Some \<lparr>sm_in = with_crlf [''220 hello'', ''250 STARTTLS'', ''220 go''], sm_out = [], sm_writes = 9\<rparr>),
     sv_in_time = True\<rparr>"

lemma demo_connect: "sv_connect demo_smtp_env a = Some io \<Longrightarrow> sm_out io = []"
  by (auto simp: demo_smtp_env_def)

lemma demo_send: "fst (smtp_send demo_smtp_env demo_settings ''x'' ''.'') = Inr ()"
  by code_simp

lemma smtp_credentials_only_in_tls_witness:
  "clear_wire_ok demo_settings (snd (smtp_send demo_smtp_env demo_settings ''x'' ''.''))
   \<and> wi_tls (snd (smtp_send demo_smtp_env demo_settings ''x'' ''.'')) \<noteq> None"
proof -
  have "smtp_send demo_smtp_env demo_settings ''x'' ''.'' = (Inr (), snd (smtp_send demo_smtp_env demo_settings ''x'' ''.''))"
    using demo_send by (simp add: prod_eq_iff)
  from smtp_credentials_only_in_tls [OF demo_connect this] show ?thesis by simp
qed

end
