(* ===== verification/Sms_Forward.thy ===== *)
theory Sms_Forward
  imports Calendar Interfaces Rust_F64 Smtp_Forward
begin

text \<open>
  The forwarding rules and the ledger of \<open>sms_forward.rs\<close>: which messages of the inbox and which battery events are
  forwarded, and the daily allowance of messages sent through the SIM.  The ledger lives in a file; \<open>io\<close> is the outcome
  of \<open>save\<close>, whose last step is the rename that replaces the file (the size limit is one of its failures).  The URL
  parser and SHA-256 are parameters, the readings of the clock are arguments.
\<close>

section \<open>Configuration\<close>

definition max_seen :: nat where "max_seen = 1024"
definition max_sms_targets :: nat where "max_sms_targets = 3"
definition max_sms_daily_sends :: nat where "max_sms_daily_sends = 60"
definition power_thresholds :: "int list" where "power_thresholds = [5, 20, 40, 60, 80, 100]"
definition power_rearm_percent :: int where "power_rearm_percent = 3"
definition max_blacklist_phones :: nat where "max_blacklist_phones = 64"
definition max_blacklist_keywords :: nat where "max_blacklist_keywords = 32"
definition max_keyword_bytes :: nat where "max_keyword_bytes = 128"

record fwd_config =
  fc_schema :: nat
  fc_enabled :: bool
  fc_method :: string
  fc_webhook_url :: string
  fc_dingtalk_webhook :: string
  fc_dingtalk_secret :: string
  fc_sms_to_phone :: "string list"
  fc_sms_quota_date :: string
  fc_sms_quota_used :: nat
  fc_smtp :: smtp_settings
  fc_power_forward_enabled :: bool
  fc_power_last_percent :: "int option"
  fc_power_last_charging :: "int option"
  fc_legacy_power_quota_date :: string
  fc_legacy_power_quota_used :: nat
  fc_blacklist_phone :: "string list"
  fc_blacklist_keywords :: "string list"
  fc_nickname :: string
  fc_smtp_forward_device_info :: bool
  fc_dingtalk_forward_device_info :: bool
  fc_sms_forward_device_info :: bool
  fc_seen :: "string list"
  fc_power_last_point :: "int option"
  fc_fingerprint_version :: nat
  fc_forwarding_since :: nat

definition fwd_config_default :: fwd_config where
  "fwd_config_default =
     \<lparr>fc_schema = 1, fc_enabled = False, fc_method = ''webhook'', fc_webhook_url = [], fc_dingtalk_webhook = [],
      fc_dingtalk_secret = [], fc_sms_to_phone = [], fc_sms_quota_date = [], fc_sms_quota_used = 0,
      fc_smtp = smtp_settings_default, fc_power_forward_enabled = False, fc_power_last_percent = None,
      fc_power_last_charging = None, fc_legacy_power_quota_date = [], fc_legacy_power_quota_used = 0,
      fc_blacklist_phone = [], fc_blacklist_keywords = [], fc_nickname = [], fc_smtp_forward_device_info = False,
      fc_dingtalk_forward_device_info = False, fc_sms_forward_device_info = False, fc_seen = [],
      fc_power_last_point = None, fc_fingerprint_version = 0, fc_forwarding_since = 0\<rparr>"

record fwd_update =
  fu_enabled :: bool
  fu_method :: string
  fu_webhook_url :: "string option"
  fu_dingtalk_webhook :: "string option"
  fu_dingtalk_secret :: "string option"
  fu_sms_to_phone :: "string list option"
  fu_smtp :: "smtp_update option"
  fu_power_forward_enabled :: "bool option"
  fu_blacklist_phone :: "string list option"
  fu_blacklist_keywords :: "string list option"
  fu_nickname :: "string option"
  fu_smtp_forward_device_info :: "bool option"
  fu_dingtalk_forward_device_info :: "bool option"
  fu_sms_forward_device_info :: "bool option"

datatype msg_kind = KSms | KPower | KDevice

record fwd_message =
  ms_from :: string
  ms_text :: string
  ms_date :: string
  ms_kind :: msg_kind

section \<open>Rules\<close>

definition destination :: "url_parser \<Rightarrow> string \<Rightarrow> string \<Rightarrow> string + origin_url" where
  "destination up raw method =
     (if length raw > 2048 \<or> has_control raw then Inl ''invalid_destination''
      else case up raw of
          None \<Rightarrow> Inl ''invalid_destination''
        | Some u \<Rightarrow>
            (case url_host_str u of
               None \<Rightarrow> Inl ''invalid_destination''
             | Some host \<Rightarrow>
                 if url_scheme u \<noteq> ''https'' \<or> url_username u \<noteq> [] \<or> url_password u \<noteq> None \<or> url_fragment u \<noteq> None
                    \<or> parse_ip host \<noteq> None \<or> \<not> str_contains ''.'' host
                    \<or> ends_with ''.local'' host \<or> ends_with ''.internal'' host
                    \<or> method = ''dingtalk'' \<and> (host \<noteq> ''oapi.dingtalk.com'' \<or> url_path u \<noteq> ''/robot/send'')
                 then Inl ''invalid_destination''
                 else Inr u))"

definition valid_phone :: "string \<Rightarrow> bool" where
  "valid_phone v \<longleftrightarrow>
     (let digits = (case strip_prefix ''+'' v of Some d \<Rightarrow> d | None \<Rightarrow> v) in
      3 \<le> length v \<and> length v \<le> 32 \<and> digits \<noteq> [] \<and> list_all is_ascii_digit digits)"

definition bare_phone :: "string \<Rightarrow> string" where
  "bare_phone v = dropWhile (\<lambda>c. c = CHR ''+'') v"

definition phone_matches :: "string \<Rightarrow> string \<Rightarrow> bool" where
  "phone_matches a b \<longleftrightarrow> bare_phone a = bare_phone b"

definition valid_keyword :: "string \<Rightarrow> bool" where
  "valid_keyword v \<longleftrightarrow> v \<noteq> [] \<and> v = trim v \<and> length v \<le> max_keyword_bytes \<and> \<not> has_control v"

definition valid_nickname :: "string \<Rightarrow> bool" where
  "valid_nickname v \<longleftrightarrow> length v \<le> 255 \<and> v = trim v \<and> \<not> has_control v"

definition blacklisted :: "fwd_config \<Rightarrow> fwd_message \<Rightarrow> bool" where
  "blacklisted c m \<longleftrightarrow>
     list_ex (\<lambda>phone. phone_matches phone (ms_from m)) (fc_blacklist_phone c)
     \<or> list_ex (\<lambda>keyword. str_contains keyword (ms_text m)) (fc_blacklist_keywords c)"

definition power_state :: "json option \<Rightarrow> (int \<times> int) option" where
  "power_state v =
     Option.bind v (\<lambda>battery.
     Option.bind (Option.bind (jget battery ''percent'') as_i64) (\<lambda>percent.
     Option.bind (Option.bind (jget battery ''charging'') as_i64) (\<lambda>charging.
       if \<not> (0 \<le> percent \<and> percent \<le> 100) \<or> \<not> (1 \<le> charging \<and> charging \<le> 4) then None
       else Some (percent, charging))))"

definition charge_label :: "int \<Rightarrow> string" where
  "charge_label charging =
     (if charging = 1 then (ustr [0x5145, 0x7535, 0x4e2d]) else if charging = 2 then (ustr [0x653e, 0x7535, 0x4e2d])
      else if charging = 3 then (ustr [0x672a, 0x5728, 0x5145, 0x7535]) else if charging = 4 then (ustr [0x5df2, 0x5145, 0x6ee1]) else (ustr [0x672a, 0x77e5]))"

definition crossed_power_threshold :: "int \<Rightarrow> int \<Rightarrow> int option" where
  "crossed_power_threshold previous current =
     (if current > previous
      then List.find (\<lambda>point. previous < point \<and> current \<ge> point) (rev power_thresholds)
      else List.find (\<lambda>point. previous > point \<and> current \<le> point) power_thresholds)"

definition valid_quota_state :: "string \<Rightarrow> nat \<Rightarrow> bool" where
  "valid_quota_state date used = (if date = [] then used = 0 else valid_date date)"

definition power_pair_ok :: "int option \<Rightarrow> int option \<Rightarrow> bool" where
  "power_pair_ok p c =
     (case (p, c) of
        (None, None) \<Rightarrow> True
      | (Some percent, Some charging) \<Rightarrow> 0 \<le> percent \<and> percent \<le> 100 \<and> 1 \<le> charging \<and> charging \<le> 4
      | _ \<Rightarrow> False)"

definition distinct_count :: "'a list \<Rightarrow> nat" where
  "distinct_count xs = length (remdups xs)"

definition method_ready :: "fwd_config \<Rightarrow> bool" where
  "method_ready c =
     (if fc_method c = ''webhook'' then fc_webhook_url c \<noteq> []
      else if fc_method c = ''dingtalk'' then fc_dingtalk_webhook c \<noteq> []
      else if fc_method c = ''sms'' then fc_sms_to_phone c \<noteq> []
      else if fc_method c = ''smtp'' then smtp_configured (fc_smtp c)
      else False)"

definition valid_config :: "url_parser \<Rightarrow> fwd_config \<Rightarrow> bool" where
  "valid_config up c \<longleftrightarrow>
     fc_schema c = 1
     \<and> fc_method c \<in> {''webhook'', ''dingtalk'', ''sms'', ''smtp''}
     \<and> length (fc_dingtalk_secret c) \<le> 256 \<and> \<not> has_control (fc_dingtalk_secret c)
     \<and> length (fc_seen c) \<le> max_seen
     \<and> length (fc_sms_to_phone c) \<le> max_sms_targets \<and> list_all valid_phone (fc_sms_to_phone c)
     \<and> distinct_count (map bare_phone (fc_sms_to_phone c)) = length (fc_sms_to_phone c)
     \<and> length (fc_blacklist_phone c) \<le> max_blacklist_phones \<and> list_all valid_phone (fc_blacklist_phone c)
     \<and> distinct_count (map bare_phone (fc_blacklist_phone c)) = length (fc_blacklist_phone c)
     \<and> length (fc_blacklist_keywords c) \<le> max_blacklist_keywords \<and> list_all valid_keyword (fc_blacklist_keywords c)
     \<and> distinct_count (fc_blacklist_keywords c) = length (fc_blacklist_keywords c)
     \<and> valid_nickname (fc_nickname c)
     \<and> (case fc_power_last_point c of None \<Rightarrow> True | Some point \<Rightarrow> point \<in> set power_thresholds)
     \<and> fc_sms_quota_used c \<le> max_sms_daily_sends
     \<and> power_pair_ok (fc_power_last_percent c) (fc_power_last_charging c)
     \<and> smtp_safe (fc_smtp c)
     \<and> valid_quota_state (fc_sms_quota_date c) (fc_sms_quota_used c)
     \<and> list_all (\<lambda>hash. length hash = 64 \<and> list_all is_ascii_hexdigit hash) (fc_seen c)
     \<and> (fc_webhook_url c = [] \<or> \<not> isl (destination up (fc_webhook_url c) ''webhook''))
     \<and> (fc_dingtalk_webhook c = [] \<or> \<not> isl (destination up (fc_dingtalk_webhook c) ''dingtalk''))
     \<and> (\<not> fc_enabled c \<or> method_ready c)"

definition quota_day :: "string \<Rightarrow> nat \<Rightarrow> string \<Rightarrow> string + (string \<times> nat)" where
  "quota_day date used today =
     (if \<not> valid_date today \<or> \<not> valid_quota_state date used then Inl ''clock_unavailable''
      else if date = [] \<or> date < today then Inr (today, 0)
      else Inr (date, used))"

definition quota_remaining :: "string \<Rightarrow> nat \<Rightarrow> string option \<Rightarrow> nat \<Rightarrow> nat" where
  "quota_remaining date used today maximum =
     (let used1 = (case today of
                     None \<Rightarrow> used
                   | Some t \<Rightarrow> (case quota_day date used t of Inr (_, u) \<Rightarrow> u | Inl _ \<Rightarrow> used))
      in maximum - used1)"

text \<open>The seconds since 1970, when the clock stands after 1970.\<close>

definition forwarding_clock :: "nat option \<Rightarrow> string + nat" where
  "forwarding_clock now =
     (case now of
        Some t \<Rightarrow> if 946684800 \<le> t \<and> t < 4102444800 then Inr t else Inl ''clock_unavailable''
      | None \<Rightarrow> Inl ''clock_unavailable'')"

section \<open>The inbox\<close>

type_synonym incoming = "string \<times> fwd_message \<times> nat option"

text \<open>\<open>sha\<close> is the digest in lower-case hexadecimal.\<close>

definition field_bytes :: "string \<Rightarrow> bytes" where
  "field_bytes f = to_be 4 (length f) @ str_bytes f"

definition fingerprint :: "(bytes \<Rightarrow> string) \<Rightarrow> string \<Rightarrow> string \<Rightarrow> string \<Rightarrow> string" where
  "fingerprint sha from date content = sha (concat (map field_bytes [from, date, content]))"

definition unavailable :: string where
  "unavailable = ''sms_list_unavailable''"

definition message_of :: "(bytes \<Rightarrow> string) \<Rightarrow> json \<Rightarrow> string + incoming option" where
  "message_of sha item =
     (case Option.bind (jget item ''tag'') as_i64 of
        None \<Rightarrow> Inl unavailable
      | Some tag \<Rightarrow>
          if tag \<noteq> 0 \<and> tag \<noteq> 1 then Inr None
          else
            (case (Option.bind (jget item ''id'') as_i64, Option.bind (jget item ''num'') as_str,
                   Option.bind (jget item ''text'') as_str, Option.bind (jget item ''date'') as_str) of
               (Some _, Some from, Some content, Some date) \<Rightarrow>
                 if length from > 64 \<or> length content > 4096 \<or> length date > 64 then Inl unavailable
                 else
                   let received_at = Option.bind (jget item ''received_at'') as_u64;
                       identity_date = (case received_at of Some t \<Rightarrow> show_nat t | None \<Rightarrow> date)
                   in Inr (Some (fingerprint sha from identity_date content,
                        \<lparr>ms_from = from, ms_text = content, ms_date = date, ms_kind = KSms\<rparr>, received_at))
             | _ \<Rightarrow> Inl unavailable))"

fun messages_of :: "(bytes \<Rightarrow> string) \<Rightarrow> json list \<Rightarrow> string + incoming list" where
  "messages_of sha [] = Inr []"
| "messages_of sha (item # items) =
     (case message_of sha item of
        Inl e \<Rightarrow> Inl e
      | Inr m \<Rightarrow>
          (case messages_of sha items of
             Inl e \<Rightarrow> Inl e
           | Inr ms \<Rightarrow> Inr (case m of Some x \<Rightarrow> x # ms | None \<Rightarrow> ms)))"

definition messages :: "(bytes \<Rightarrow> string) \<Rightarrow> json \<Rightarrow> string + incoming list" where
  "messages sha snapshot =
     (if Option.bind (jget snapshot ''stale'') as_bool \<noteq> Some False
         \<or> Option.bind (jget snapshot ''truncated'') as_bool \<noteq> Some False then Inl unavailable
      else
        case Option.bind (jget snapshot ''list'') as_array of
          None \<Rightarrow> Inl unavailable
        | Some items \<Rightarrow> if length items > 512 then Inl unavailable else messages_of sha (rev items))"

definition delivery_result_code :: "string + unit \<Rightarrow> string" where
  "delivery_result_code result =
     (case result of
        Inr _ \<Rightarrow> ''sent''
      | Inl error \<Rightarrow>
          if error \<in> {''clock_unavailable'', ''source_unavailable'', ''rate_limited'', ''self_forward_blocked'',
              ''message_too_long'', ''smtp_auth_failed'', ''smtp_auth_temporary''} then error
          else if error = ''forward_storage_failed'' then ''storage_failed''
          else ''delivery_failed'')"

section \<open>The forwarder\<close>

record forwarder =
  fw_flash :: "fwd_config disk"
  fw_config :: fwd_config
  fw_last_result :: string
  fw_power_last_result :: string

definition fwd_load :: "url_parser \<Rightarrow> fwd_config disk \<Rightarrow> forwarder" where
  "fwd_load up f =
     (let config =
        (case f of
           Missing \<Rightarrow> Some fwd_config_default
         | Corrupt \<Rightarrow> None
         | Holds c \<Rightarrow> if valid_config up c then Some c else None);
          result = (if config = None then ''invalid_config'' else ''idle'')
      in \<lparr>fw_flash = f, fw_config = (case config of Some c \<Rightarrow> c | None \<Rightarrow> fwd_config_default),
          fw_last_result = result, fw_power_last_result = result\<rparr>)"

text \<open>What serialisation keeps: the two legacy fields are skipped, and default when the file is read again.\<close>

definition written :: "fwd_config \<Rightarrow> fwd_config" where
  "written c = c\<lparr>fc_legacy_power_quota_date := [], fc_legacy_power_quota_used := 0\<rparr>"

definition fwd_save :: "bool \<Rightarrow> fwd_config \<Rightarrow> forwarder \<Rightarrow> (string + unit) \<times> forwarder" where
  "fwd_save io next s =
     (if io then (Inr (), s\<lparr>fw_flash := Holds (written next)\<rparr>) else (Inl ''forward_storage_failed'', s))"

text \<open>\<open>self.save(&next)?; self.config = next\<close>\<close>

definition fwd_commit :: "bool \<Rightarrow> fwd_config \<Rightarrow> forwarder \<Rightarrow> (string + unit) \<times> forwarder" where
  "fwd_commit io next s =
     (case fwd_save io next s of
        (Inl e, s1) \<Rightarrow> (Inl e, s1)
      | (Inr _, s1) \<Rightarrow> (Inr (), s1\<lparr>fw_config := next\<rparr>))"

definition fwd_status :: "bool \<Rightarrow> clock option \<Rightarrow> forwarder \<Rightarrow> json" where
  "fwd_status changing clk s =
     (let c = fw_config s;
          today = (if changing then None else map_option ck_date clk);
          remaining = quota_remaining (fc_sms_quota_date c) (fc_sms_quota_used c) today max_sms_daily_sends
      in jobj
        [(''supported'', JBool True), (''enabled'', JBool (fc_enabled c)), (''method'', JString (fc_method c)),
         (''webhook_configured'', JBool (fc_webhook_url c \<noteq> [])),
         (''dingtalk_configured'', JBool (fc_dingtalk_webhook c \<noteq> [])),
         (''dingtalk_secret_configured'', JBool (fc_dingtalk_secret c \<noteq> [])),
         (''sms_configured'', JBool (fc_sms_to_phone c \<noteq> [])),
         (''sms_daily_remaining'', jint (int remaining)),
         (''smtp_configured'', JBool (smtp_configured (fc_smtp c))), (''smtp_supported'', JBool True),
         (''power_forward_enabled'', JBool (fc_power_forward_enabled c)),
         (''power_last_result'', JString (fw_power_last_result s)), (''rules_supported'', JBool True),
         (''blacklist_phone_count'', jint (int (length (fc_blacklist_phone c)))),
         (''blacklist_keywords_count'', jint (int (length (fc_blacklist_keywords c)))),
         (''nickname_supported'', JBool True), (''nickname'', JString (fc_nickname c)),
         (''device_info_supported'', JBool True),
         (''smtp_forward_device_info'', JBool (fc_smtp_forward_device_info c)),
         (''dingtalk_forward_device_info'', JBool (fc_dingtalk_forward_device_info c)),
         (''sms_forward_device_info'', JBool (fc_sms_forward_device_info c)),
         (''last_result'', JString (fw_last_result s))])"

definition app_config :: "forwarder \<Rightarrow> json" where
  "app_config s =
     (let c = fw_config s in
      jobj
        [(''enabled'', JBool (fc_enabled c)), (''method'', JString (fc_method c)),
         (''webhook_url'', JString (fc_webhook_url c)), (''dingtalk_webhook'', JString (fc_dingtalk_webhook c)),
         (''dingtalk_secret_configured'', JBool (fc_dingtalk_secret c \<noteq> [])),
         (''sms_to_phone'', JArray (map JString (fc_sms_to_phone c))),
         (''smtp'', jobj [(''host'', JString (st_host (fc_smtp c))), (''port'', jint (int (st_port (fc_smtp c)))),
            (''username'', JString (st_username (fc_smtp c))), (''to'', JString (st_to (fc_smtp c))),
            (''password_configured'', JBool (st_password (fc_smtp c) \<noteq> []))]),
         (''power_forward_enabled'', JBool (fc_power_forward_enabled c)),
         (''blacklist_phone'', JArray (map JString (fc_blacklist_phone c))),
         (''blacklist_keywords'', JArray (map JString (fc_blacklist_keywords c))),
         (''nickname'', JString (fc_nickname c)),
         (''smtp_forward_device_info'', JBool (fc_smtp_forward_device_info c)),
         (''dingtalk_forward_device_info'', JBool (fc_dingtalk_forward_device_info c)),
         (''sms_forward_device_info'', JBool (fc_sms_forward_device_info c))])"

definition requires_baseline :: "fwd_update \<Rightarrow> forwarder \<Rightarrow> bool" where
  "requires_baseline input s \<longleftrightarrow>
     fu_enabled input
     \<and> (\<not> fc_enabled (fw_config s) \<or> fu_method input \<noteq> fc_method (fw_config s)
        \<or> fc_fingerprint_version (fw_config s) \<noteq> 3 \<or> fw_last_result s = ''invalid_config'')"

definition given :: "'a option \<Rightarrow> 'a \<Rightarrow> 'a" where
  "given change old = (case change of Some v \<Rightarrow> v | None \<Rightarrow> old)"

text \<open>The fields of an update that are copied as they come.\<close>

definition apply_fields :: "fwd_update \<Rightarrow> fwd_config \<Rightarrow> fwd_config" where
  "apply_fields i c =
     c\<lparr>fc_enabled := fu_enabled i, fc_method := fu_method i,
       fc_webhook_url := given (fu_webhook_url i) (fc_webhook_url c),
       fc_dingtalk_webhook := given (fu_dingtalk_webhook i) (fc_dingtalk_webhook c),
       fc_dingtalk_secret := given (fu_dingtalk_secret i) (fc_dingtalk_secret c),
       fc_sms_to_phone := given (fu_sms_to_phone i) (fc_sms_to_phone c),
       fc_smtp := (case fu_smtp i of Some u \<Rightarrow> smtp_apply u (fc_smtp c) | None \<Rightarrow> fc_smtp c),
       fc_blacklist_phone := given (fu_blacklist_phone i) (fc_blacklist_phone c),
       fc_blacklist_keywords := given (fu_blacklist_keywords i) (fc_blacklist_keywords c),
       fc_nickname := given (fu_nickname i) (fc_nickname c),
       fc_smtp_forward_device_info := given (fu_smtp_forward_device_info i) (fc_smtp_forward_device_info c),
       fc_dingtalk_forward_device_info := given (fu_dingtalk_forward_device_info i) (fc_dingtalk_forward_device_info c),
       fc_sms_forward_device_info := given (fu_sms_forward_device_info i) (fc_sms_forward_device_info c)\<rparr>"

definition set_power :: "(int \<times> int) option \<Rightarrow> fwd_config \<Rightarrow> fwd_config" where
  "set_power p c =
     c\<lparr>fc_power_last_percent := map_option fst p, fc_power_last_charging := map_option snd p\<rparr>"

fun push_new :: "string list \<Rightarrow> string list \<Rightarrow> string list \<Rightarrow> string list" where
  "push_new known acc [] = acc"
| "push_new known acc (h # hs) =
     (if h \<in> set known then push_new known acc hs else push_new (h # known) (acc @ [h]) hs)"

definition drain_seen :: "string list \<Rightarrow> string list" where
  "drain_seen xs = (if length xs > max_seen then drop (length xs - max_seen) xs else xs)"

text \<open>The inbox of the moment forwarding starts is history.\<close>

definition take_baseline :: "nat \<Rightarrow> incoming list \<Rightarrow> fwd_config \<Rightarrow> fwd_config" where
  "take_baseline since current c =
     (let kept = (if fc_fingerprint_version c \<noteq> 3 then [] else fc_seen c)
      in c\<lparr>fc_forwarding_since := since, fc_fingerprint_version := 3,
           fc_seen := drain_seen (push_new kept kept (map fst current))\<rparr>)"

definition fwd_finish ::
  "bool \<Rightarrow> bool \<Rightarrow> clock option \<Rightarrow> bool \<Rightarrow> fwd_config \<Rightarrow> forwarder \<Rightarrow> (string + json) \<times> forwarder" where
  "fwd_finish io changing clk reset next s =
     (case fwd_commit io next s of
        (Inl e, s1) \<Rightarrow> (Inl e, s1)
      | (Inr _, s1) \<Rightarrow>
          let s2 = s1\<lparr>fw_last_result := ''idle'',
                fw_power_last_result := (if reset then ''idle'' else fw_power_last_result s1)\<rparr>
          in (Inr (fwd_status changing clk s2), s2))"

definition fwd_update_with ::
  "url_parser \<Rightarrow> (bytes \<Rightarrow> string) \<Rightarrow> bool \<Rightarrow> nat option \<Rightarrow> bool \<Rightarrow> clock option
   \<Rightarrow> fwd_update \<Rightarrow> json option \<Rightarrow> json option \<Rightarrow> forwarder \<Rightarrow> (string + json) \<times> forwarder" where
  "fwd_update_with up sha io now changing clk i snapshot battery s =
     (let power_change = fu_power_forward_enabled i;
          next = apply_fields i (fw_config s);
          reset = (power_change \<noteq> None
             \<or> fc_enabled next \<and> \<not> fc_enabled (fw_config s) \<and> fc_power_forward_enabled next);
          baseline = power_state battery
      in if power_change = Some True \<and> baseline = None then (Inl ''power_unavailable'', s)
      else
        let next = (case power_change of
                      Some e \<Rightarrow> set_power baseline (next\<lparr>fc_power_forward_enabled := e\<rparr>)
                    | None \<Rightarrow> if reset then set_power baseline next else next)
        in if \<not> valid_config up next then (Inl ''invalid_forward_config'', s)
        else if requires_baseline i s
        then
          (case snapshot of
             None \<Rightarrow> (Inl unavailable, s)
           | Some snap \<Rightarrow>
               (case messages sha snap of
                  Inl e \<Rightarrow> (Inl e, s)
                | Inr current \<Rightarrow>
                    (case forwarding_clock now of
                       Inl e \<Rightarrow> (Inl e, s)
                     | Inr since \<Rightarrow> fwd_finish io changing clk reset (take_baseline since current next) s)))
        else fwd_finish io changing clk reset next s)"

section \<open>Choosing the next message\<close>

text \<open>\<open>known\<close> is the set the loop looks up, \<open>kept\<close> the list it will store.\<close>

fun next_scan ::
  "nat \<Rightarrow> fwd_config \<Rightarrow> string list \<Rightarrow> string list \<Rightarrow> incoming list \<Rightarrow> string list \<times> fwd_message option" where
  "next_scan now c known kept [] = (kept, None)"
| "next_scan now c known kept ((hash, message, received_at) # ms) =
     (if hash \<in> set known then next_scan now c known kept ms
      else if (case received_at of Some t \<Rightarrow> t > sat_add64 now 300 | None \<Rightarrow> False)
      then next_scan now c known kept ms
      else
        let kept1 = drain_seen (kept @ [hash]);
            recent = (case received_at of Some t \<Rightarrow> t \<ge> fc_forwarding_since c | None \<Rightarrow> False)
        in if recent \<and> \<not> blacklisted c message then (kept1, Some message)
           else next_scan now c (hash # known) kept1 ms)"

definition next_at ::
  "(bytes \<Rightarrow> string) \<Rightarrow> bool \<Rightarrow> json \<Rightarrow> nat \<Rightarrow> forwarder \<Rightarrow> (string + fwd_message option) \<times> forwarder" where
  "next_at sha io snapshot now s =
     (case messages sha snapshot of
        Inl e \<Rightarrow> (Inl e, s)
      | Inr ms \<Rightarrow>
          (case next_scan now (fw_config s) (fc_seen (fw_config s)) (fc_seen (fw_config s)) ms of
             (seen, deliverable) \<Rightarrow>
               if seen = fc_seen (fw_config s) then (Inr None, s)
               else (case fwd_commit io ((fw_config s)\<lparr>fc_seen := seen\<rparr>) s of
                       (Inl e, s1) \<Rightarrow> (Inl e, s1)
                     | (Inr _, s1) \<Rightarrow> (Inr deliverable, s1))))"

definition next_with_clock_gate ::
  "(bytes \<Rightarrow> string) \<Rightarrow> bool \<Rightarrow> nat option \<Rightarrow> json \<Rightarrow> bool \<Rightarrow> forwarder \<Rightarrow> (string + fwd_message option) \<times> forwarder" where
  "next_with_clock_gate sha io now snapshot changing s =
     (if changing then (Inr None, s)
      else if \<not> fc_enabled (fw_config s) then (Inr None, s)
      else if fc_fingerprint_version (fw_config s) \<noteq> 3
      then
        (case messages sha snapshot of
           Inl e \<Rightarrow> (Inl e, s)
         | Inr ms \<Rightarrow>
             (case forwarding_clock now of
                Inl e \<Rightarrow> (Inl e, s)
              | Inr since \<Rightarrow>
                  (case fwd_commit io ((fw_config s)\<lparr>fc_seen := map fst ms, fc_fingerprint_version := 3,
                          fc_forwarding_since := since\<rparr>) s of
                     (Inl e, s1) \<Rightarrow> (Inl e, s1)
                   | (Inr _, s1) \<Rightarrow> (Inr None, s1))))
      else
        (case forwarding_clock now of
           Inl e \<Rightarrow> (Inl e, s)
         | Inr t \<Rightarrow> next_at sha io snapshot t s))"

definition mark_delivery :: "string + unit \<Rightarrow> forwarder \<Rightarrow> forwarder" where
  "mark_delivery result s = s\<lparr>fw_last_result := delivery_result_code result\<rparr>"

definition mark_power_delivery :: "string + unit \<Rightarrow> forwarder \<Rightarrow> forwarder" where
  "mark_power_delivery result s = s\<lparr>fw_power_last_result := delivery_result_code result\<rparr>"

definition mark_source_unavailable :: "forwarder \<Rightarrow> forwarder" where
  "mark_source_unavailable s =
     (if fc_enabled (fw_config s) then s\<lparr>fw_last_result := ''source_unavailable''\<rparr> else s)"

definition mark_storage_failed :: "forwarder \<Rightarrow> forwarder" where
  "mark_storage_failed s = s\<lparr>fw_last_result := ''storage_failed''\<rparr>"

section \<open>Battery events\<close>

definition rearmed :: "int \<Rightarrow> int option \<Rightarrow> int option" where
  "rearmed percent last_point =
     (case last_point of
        Some point \<Rightarrow> if \<bar>percent - point\<bar> \<ge> power_rearm_percent then None else Some point
      | None \<Rightarrow> None)"

definition power_threshold :: "int \<Rightarrow> int \<Rightarrow> int option \<Rightarrow> int option" where
  "power_threshold old_percent percent last_point =
     (case crossed_power_threshold old_percent percent of
        Some p \<Rightarrow> if rearmed percent last_point \<noteq> Some p then Some p else None
      | None \<Rightarrow> None)"

definition power_point :: "int \<Rightarrow> int \<Rightarrow> int option \<Rightarrow> int option" where
  "power_point old_percent percent last_point =
     (let threshold = power_threshold old_percent percent last_point
      in if threshold \<noteq> None then threshold else rearmed percent last_point)"

definition power_text :: "int \<Rightarrow> int \<Rightarrow> int \<Rightarrow> int option \<Rightarrow> string" where
  "power_text old_charging percent charging threshold =
     (if old_charging \<noteq> charging
      then (ustr [0x5145, 0x7535, 0x72b6, 0x6001, 0xff1a]) @ charge_label charging @ [CHR 0x0A] @ (ustr [0x5f53, 0x524d, 0x7535, 0x91cf, 0xff1a]) @ show_int percent @ ''%''
      else (ustr [0x7535, 0x91cf, 0x63d0, 0x9192, 0xff1a]) @ show_int (case threshold of Some p \<Rightarrow> p | None \<Rightarrow> 0) @ ''%'' @ [CHR 0x0A]
        @ (ustr [0x5f53, 0x524d, 0x7535, 0x91cf, 0xff1a]) @ show_int percent @ ''%'' @ [CHR 0x0A] @ (ustr [0x5145, 0x7535, 0x72b6, 0x6001, 0xff1a]) @ charge_label charging)"

definition observe_power_with_clock ::
  "bool \<Rightarrow> json option \<Rightarrow> clock option \<Rightarrow> bool \<Rightarrow> forwarder \<Rightarrow> (string + fwd_message option) \<times> forwarder" where
  "observe_power_with_clock io battery clk changing s =
     (if changing then (Inr None, s)
      else
        let current = power_state battery;
            c = fw_config s;
            previous = (case (fc_power_last_percent c, fc_power_last_charging c) of
                          (Some p, Some q) \<Rightarrow> Some (p, q) | _ \<Rightarrow> None)
        in if current = previous then (Inr None, s)
        else
          let next = set_power current c in
          if \<not> fc_power_forward_enabled c \<or> \<not> fc_enabled c
          then (Inr None, s\<lparr>fw_config := next, fw_power_last_result := ''idle''\<rparr>)
          else
            (case current of
               None \<Rightarrow>
                 (case fwd_commit io next s of
                    (Inl e, s1) \<Rightarrow> (Inl e, s1)
                  | (Inr _, s1) \<Rightarrow> (Inr None, s1\<lparr>fw_power_last_result := ''source_unavailable''\<rparr>))
             | Some (percent, charging) \<Rightarrow>
                 (case previous of
                    None \<Rightarrow>
                      (case fwd_commit io next s of
                         (Inl e, s1) \<Rightarrow> (Inl e, s1)
                       | (Inr _, s1) \<Rightarrow> (Inr None, s1\<lparr>fw_power_last_result := ''idle''\<rparr>))
                  | Some (old_percent, old_charging) \<Rightarrow>
                      let threshold = power_threshold old_percent percent (fc_power_last_point next);
                          next = next\<lparr>fc_power_last_point := power_point old_percent percent (fc_power_last_point next)\<rparr>
                      in if old_charging = charging \<and> threshold = None
                      then (case fwd_commit io next s of
                              (Inl e, s1) \<Rightarrow> (Inl e, s1)
                            | (Inr _, s1) \<Rightarrow> (Inr None, s1))
                      else
                        (case clk of
                           None \<Rightarrow> (Inr None, s\<lparr>fw_power_last_result := ''clock_unavailable''\<rparr>)
                         | Some k \<Rightarrow>
                             (case fwd_commit io next s of
                                (Inl e, s1) \<Rightarrow> (Inl e, s1)
                              | (Inr _, s1) \<Rightarrow>
                                  (Inr (Some \<lparr>ms_from = ''PowerMonitor'',
                                     ms_text = power_text old_charging percent charging threshold,
                                     ms_date = ck_date k @ '' '' @ ck_time k, ms_kind = KPower\<rparr>),
                                   s1\<lparr>fw_power_last_result := ''idle''\<rparr>))))))"

definition observe_power ::
  "bool \<Rightarrow> json option \<Rightarrow> clock option \<Rightarrow> bool \<Rightarrow> forwarder \<Rightarrow> (string + fwd_message option) \<times> forwarder" where
  "observe_power io battery clk changing s =
     observe_power_with_clock io battery
       (if \<not> changing \<and> fc_enabled (fw_config s) \<and> fc_power_forward_enabled (fw_config s) then clk else None) changing s"

section \<open>The daily allowance\<close>

text \<open>\<open>count\<close> and the stored use are of type \<open>u16\<close>; the sum is checked.\<close>

definition reserve_sim_quota_with_clock ::
  "bool \<Rightarrow> nat \<Rightarrow> string option \<Rightarrow> bool \<Rightarrow> forwarder \<Rightarrow> (string + unit) \<times> forwarder" where
  "reserve_sim_quota_with_clock io n date changing s =
     (if changing then (Inl ''clock_unavailable'', s)
      else
        case date of
          None \<Rightarrow> (Inl ''clock_unavailable'', s)
        | Some today \<Rightarrow>
            (case quota_day (fc_sms_quota_date (fw_config s)) (fc_sms_quota_used (fw_config s)) today of
               Inl e \<Rightarrow> (Inl e, s)
             | Inr (day, used) \<Rightarrow>
                 if used + n > 65535 \<or> used + n > max_sms_daily_sends then (Inl ''rate_limited'', s)
                 else fwd_commit io ((fw_config s)\<lparr>fc_sms_quota_date := day, fc_sms_quota_used := used + n\<rparr>) s))"

definition reserve_sim_quota ::
  "bool \<Rightarrow> nat \<Rightarrow> clock option \<Rightarrow> bool \<Rightarrow> forwarder \<Rightarrow> (string + unit) \<times> forwarder" where
  "reserve_sim_quota io n clk changing s =
     reserve_sim_quota_with_clock io n (if changing then None else map_option ck_date clk) changing s"

definition reserve_scheduled_sms ::
  "bool \<Rightarrow> clock option \<Rightarrow> bool \<Rightarrow> forwarder \<Rightarrow> (string + unit) \<times> forwarder" where
  "reserve_scheduled_sms io clk changing s =
     (if fw_last_result s = ''invalid_config'' then (Inl ''invalid_config'', s)
      else reserve_sim_quota io 1 clk changing s)"

definition sms_targets :: "string list \<Rightarrow> fwd_message \<Rightarrow> string list" where
  "sms_targets phones m = filter (\<lambda>phone. \<not> phone_matches phone (ms_from m)) phones"

definition reserve_sms ::
  "bool \<Rightarrow> fwd_message \<Rightarrow> clock option \<Rightarrow> bool \<Rightarrow> forwarder \<Rightarrow> (string + unit) \<times> forwarder" where
  "reserve_sms io m clk changing s =
     (if changing then (Inl ''clock_unavailable'', s)
      else if fc_method (fw_config s) \<noteq> ''sms'' then (Inr (), s)
      else
        let n = length (sms_targets (fc_sms_to_phone (fw_config s)) m) in
        if n = 0 then (Inl ''self_forward_blocked'', s)
        else reserve_sim_quota io (n mod 65536) clk changing s)"

end
