(* ===== verification/Sms_Ledger.thy ===== *)
theory Sms_Ledger
  imports Sms_Forward
begin

text \<open>
  What the ledger of the forwarder guarantees over any sequence of calls and restarts: its record stays valid and
  survives a restart, a message is forwarded once, the SIM allowance is kept, and a wobbling battery level is reported
  once.
\<close>

section \<open>Calls as steps, restarts included\<close>

datatype fwd_event =
    EUpdate bool "nat option" bool "clock option" fwd_update "json option" "json option"
  | ENext bool "nat option" json bool
  | EPower bool "json option" "clock option" bool
  | EReserve bool fwd_message "clock option" bool
  | EReserveScheduled bool "clock option" bool
  | EMark "string + unit"
  | EMarkPower "string + unit"
  | EMarkSource
  | EMarkStorage
  | ERestart

fun fwd_step :: "url_parser \<Rightarrow> (bytes \<Rightarrow> string) \<Rightarrow> fwd_event \<Rightarrow> forwarder \<Rightarrow> forwarder" where
  "fwd_step up sha (EUpdate io now changing clk i snapshot battery) s =
     snd (fwd_update_with up sha io now changing clk i snapshot battery s)"
| "fwd_step up sha (ENext io now snapshot changing) s = snd (next_with_clock_gate sha io now snapshot changing s)"
| "fwd_step up sha (EPower io battery clk changing) s = snd (observe_power io battery clk changing s)"
| "fwd_step up sha (EReserve io m clk changing) s = snd (reserve_sms io m clk changing s)"
| "fwd_step up sha (EReserveScheduled io clk changing) s = snd (reserve_scheduled_sms io clk changing s)"
| "fwd_step up sha (EMark r) s = mark_delivery r s"
| "fwd_step up sha (EMarkPower r) s = mark_power_delivery r s"
| "fwd_step up sha EMarkSource s = mark_source_unavailable s"
| "fwd_step up sha EMarkStorage s = mark_storage_failed s"
| "fwd_step up sha ERestart s = fwd_load up (fw_flash s)"

text \<open>
  What of the configuration is in the file whenever it is in memory: all of it but the last battery reading, which a
  disabled forwarder keeps in memory only, and the legacy fields.
\<close>

definition durable_part :: "fwd_config \<Rightarrow> fwd_config" where
  "durable_part c = (written c)\<lparr>fc_power_last_percent := None, fc_power_last_charging := None\<rparr>"

lemma durable_written [simp]: "durable_part (written c) = durable_part c"
  by (simp add: durable_part_def written_def)

lemma durable_set_power [simp]: "durable_part (set_power p c) = durable_part c"
  by (simp add: durable_part_def set_power_def written_def)

lemma durable_fields:
  assumes "durable_part c = durable_part d"
  shows "fc_seen c = fc_seen d \<and> fc_fingerprint_version c = fc_fingerprint_version d
    \<and> fc_sms_quota_date c = fc_sms_quota_date d \<and> fc_sms_quota_used c = fc_sms_quota_used d
    \<and> fc_forwarding_since c = fc_forwarding_since d \<and> fc_enabled c = fc_enabled d"
  using assms by (cases c, cases d) (simp add: durable_part_def written_def)

text \<open>Each call either leaves file and durable record alone, or has written the record it keeps.\<close>

definition fwd_committed :: "forwarder \<Rightarrow> forwarder \<Rightarrow> bool" where
  "fwd_committed s s1 \<longleftrightarrow>
     durable_part (fw_config s1) = durable_part (fw_config s) \<and> fw_flash s1 = fw_flash s
     \<or> fw_flash s1 = Holds (written (fw_config s1))"

lemma fwd_commit_result:
  "fwd_commit io next s =
     (if io then (Inr (), s\<lparr>fw_flash := Holds (written next), fw_config := next\<rparr>) else (Inl ''forward_storage_failed'', s))"
  by (simp add: fwd_commit_def fwd_save_def)

lemma committed_refl: "fwd_committed s s"
  by (simp add: fwd_committed_def)

lemma committed_finish: "fwd_committed s (snd (fwd_finish io changing clk reset next s))"
  by (simp add: fwd_finish_def fwd_commit_result fwd_committed_def Let_def)

lemma committed_update: "fwd_committed s (snd (fwd_update_with up sha io now changing clk i snapshot battery s))"
  unfolding fwd_update_with_def Let_def
  by (simp add: committed_finish committed_refl split: option.split sum.split)

lemma committed_next: "fwd_committed s (snd (next_with_clock_gate sha io now snapshot changing s))"
  by (auto simp: next_with_clock_gate_def next_at_def fwd_commit_result fwd_committed_def split: sum.split prod.split)

lemma committed_power: "fwd_committed s (snd (observe_power io battery clk changing s))"
  by (auto simp: observe_power_def observe_power_with_clock_def fwd_commit_result fwd_committed_def Let_def
      split: option.split prod.split)

lemma committed_quota: "fwd_committed s (snd (reserve_sim_quota io n clk changing s))"
  by (auto simp: reserve_sim_quota_def reserve_sim_quota_with_clock_def fwd_commit_result fwd_committed_def
      split: option.split sum.split prod.split)

lemma fwd_committed_step: "e \<noteq> ERestart \<Longrightarrow> fwd_committed s (fwd_step up sha e s)"
  by (cases e) (auto simp: committed_update committed_next committed_power committed_quota committed_refl
      reserve_sms_def reserve_scheduled_sms_def mark_delivery_def mark_power_delivery_def mark_source_unavailable_def
      mark_storage_failed_def Let_def, auto simp: fwd_committed_def)

interpretation ledger: durable "durable_part \<circ> fw_config" "map_disk durable_part \<circ> fw_flash"
  "\<lambda>e. if e = ERestart then id else fwd_step up sha e" for up sha
proof unfold_locales
  fix e s
  show "(durable_part \<circ> fw_config) ((if e = ERestart then id else fwd_step up sha e) s) = (durable_part \<circ> fw_config) s
      \<and> (map_disk durable_part \<circ> fw_flash) ((if e = ERestart then id else fwd_step up sha e) s)
        = (map_disk durable_part \<circ> fw_flash) s
    \<or> (map_disk durable_part \<circ> fw_flash) ((if e = ERestart then id else fwd_step up sha e) s)
      = Holds ((durable_part \<circ> fw_config) ((if e = ERestart then id else fwd_step up sha e) s))"
    using fwd_committed_step [of e s up sha] by (cases "e = ERestart") (auto simp: fwd_committed_def)
qed

section \<open>The record stays valid\<close>

definition hash_ok :: "string \<Rightarrow> bool" where
  "hash_ok h \<longleftrightarrow> length h = 64 \<and> list_all is_ascii_hexdigit h"

definition sha_ok :: "(bytes \<Rightarrow> string) \<Rightarrow> bool" where
  "sha_ok sha \<longleftrightarrow> (\<forall>x. hash_ok (sha x))"

lemma message_of_hash: "sha_ok sha \<Longrightarrow> message_of sha item = Inr (Some m) \<Longrightarrow> hash_ok (fst m)"
  by (auto simp: message_of_def Let_def fingerprint_def sha_ok_def split: option.splits if_splits)

lemma messages_of_hashes:
  assumes "sha_ok sha"
  shows "messages_of sha items = Inr ms \<Longrightarrow> list_all hash_ok (map fst ms) \<and> length ms \<le> length items"
proof (induction items arbitrary: ms)
  case (Cons item items)
  then show ?case using message_of_hash [OF assms, of item] by (fastforce split: sum.splits option.splits)
qed simp

lemma messages_hashes:
  "sha_ok sha \<Longrightarrow> messages sha snapshot = Inr ms \<Longrightarrow> list_all hash_ok (map fst ms) \<and> length ms \<le> 512"
  using messages_of_hashes by (fastforce simp: messages_def split: option.splits if_splits)

lemma method_ready_ledger [simp]:
  "method_ready (c\<lparr>fc_seen := seen\<rparr>) = method_ready c"
  "method_ready (c\<lparr>fc_forwarding_since := t\<rparr>) = method_ready c"
  "method_ready (c\<lparr>fc_fingerprint_version := v\<rparr>) = method_ready c"
  "method_ready (c\<lparr>fc_power_last_percent := p\<rparr>) = method_ready c"
  "method_ready (c\<lparr>fc_power_last_charging := p\<rparr>) = method_ready c"
  "method_ready (c\<lparr>fc_power_last_point := p\<rparr>) = method_ready c"
  "method_ready (c\<lparr>fc_sms_quota_date := d\<rparr>) = method_ready c"
  "method_ready (c\<lparr>fc_sms_quota_used := n\<rparr>) = method_ready c"
  "method_ready (c\<lparr>fc_legacy_power_quota_date := d\<rparr>) = method_ready c"
  "method_ready (c\<lparr>fc_legacy_power_quota_used := n\<rparr>) = method_ready c"
  by (simp_all add: method_ready_def)

lemma valid_seen:
  assumes "valid_config up c" and "length seen \<le> max_seen" and "list_all hash_ok seen"
  shows "valid_config up (c\<lparr>fc_seen := seen\<rparr>)"
  using assms by (simp add: valid_config_def hash_ok_def [abs_def])

lemma valid_stamp [simp]:
  "valid_config up (c\<lparr>fc_forwarding_since := t\<rparr>) = valid_config up c"
  "valid_config up (c\<lparr>fc_fingerprint_version := v\<rparr>) = valid_config up c"
  by (simp_all add: valid_config_def)

lemma valid_written [simp]: "valid_config up (written c) = valid_config up c"
  by (simp add: valid_config_def written_def)

lemma valid_parts:
  assumes "valid_config up c"
  shows "length (fc_seen c) \<le> max_seen" "list_all hash_ok (fc_seen c)"
    "fc_sms_quota_used c \<le> max_sms_daily_sends" "valid_quota_state (fc_sms_quota_date c) (fc_sms_quota_used c)"
  using assms by (simp_all add: valid_config_def hash_ok_def [abs_def])

lemma drain_seen_lastn: "drain_seen xs = lastn max_seen xs"
  by (simp add: drain_seen_def lastn_def)

lemma lastn_all: "list_all P xs \<Longrightarrow> list_all P (lastn n xs)"
  using set_lastn [of n xs] by (auto simp: list_all_iff)

text \<open>\<open>new_hashes known hs\<close>: the members of \<open>hs\<close> that are not known, each once.\<close>

fun new_hashes :: "string list \<Rightarrow> string list \<Rightarrow> string list" where
  "new_hashes known [] = []"
| "new_hashes known (h # hs) = (if h \<in> set known then new_hashes known hs else h # new_hashes (h # known) hs)"

lemma push_new_hashes: "push_new known acc hs = acc @ new_hashes known hs"
  by (induction known acc hs rule: push_new.induct) auto

lemma new_hashes_fresh: "distinct (new_hashes known hs) \<and> set (new_hashes known hs) = set hs - set known"
  by (induction known hs rule: new_hashes.induct) auto

text \<open>\<open>scan_hashes\<close>: the fingerprints a pass over the inbox records, in order.\<close>

fun scan_hashes :: "nat \<Rightarrow> fwd_config \<Rightarrow> string list \<Rightarrow> incoming list \<Rightarrow> string list" where
  "scan_hashes now c known [] = []"
| "scan_hashes now c known ((hash, message, received_at) # ms) =
     (if hash \<in> set known \<or> (case received_at of Some t \<Rightarrow> t > sat_add64 now 300 | None \<Rightarrow> False)
      then scan_hashes now c known ms
      else if (case received_at of Some t \<Rightarrow> t \<ge> fc_forwarding_since c | None \<Rightarrow> False) \<and> \<not> blacklisted c message
      then [hash]
      else hash # scan_hashes now c (hash # known) ms)"

lemma scan_kept:
  "length kept \<le> max_seen \<Longrightarrow> fst (next_scan now c known kept ms) = lastn max_seen (kept @ scan_hashes now c known ms)"
proof (induction now c known kept ms rule: next_scan.induct)
  case (2 now c known kept hash message received_at ms)
  have d: "length (drain_seen (kept @ [hash])) \<le> max_seen" by (simp add: drain_seen_lastn)
  show ?case
    using 2 d by (simp add: Let_def drain_seen_lastn split del: if_split) (auto simp: Let_def drain_seen_lastn)
qed simp

lemma scan_fresh:
  "distinct (scan_hashes now c known ms) \<and> set (scan_hashes now c known ms) \<subseteq> set (map fst ms) - set known"
proof (induction now c known ms rule: scan_hashes.induct)
  case (2 now c known hash message received_at ms)
  then show ?case by (auto split del: if_split split: if_splits)
qed simp

lemma valid_commit:
  assumes "valid_config up (fw_config s)" and "valid_config up next"
  shows "valid_config up (fw_config (snd (fwd_commit io next s)))"
  using assms by (simp add: fwd_commit_result)

lemma valid_baseline:
  assumes "sha_ok sha" "valid_config up c" "messages sha snap = Inr current"
  shows "valid_config up (take_baseline since current c)"
proof -
  let ?kept = "if fc_fingerprint_version c \<noteq> 3 then [] else fc_seen c"
  have "list_all hash_ok (?kept @ new_hashes ?kept (map fst current))"
    using valid_parts(2) [OF assms(2)] messages_hashes [OF assms(1,3)] new_hashes_fresh [of ?kept "map fst current"]
    by (auto simp: list_all_iff)
  then show ?thesis
    unfolding take_baseline_def Let_def push_new_hashes drain_seen_lastn
    by (intro valid_seen lastn_all) (simp_all add: assms(2))
qed

lemma valid_update:
  assumes "sha_ok sha" "valid_config up (fw_config s)"
  shows "valid_config up (fw_config (snd (fwd_update_with up sha io now changing clk i snapshot battery s)))"
proof -
  have fin: "valid_config up c \<Longrightarrow> valid_config up (fw_config (snd (fwd_finish io changing clk reset c s)))" for c reset
    using assms(2) by (simp add: fwd_finish_def fwd_commit_result Let_def)
  show ?thesis
    unfolding fwd_update_with_def Let_def
    using assms(2) by (auto intro!: fin valid_baseline [OF assms(1)] split: option.split sum.split)
qed

lemma valid_next:
  assumes "sha_ok sha" "valid_config up (fw_config s)"
  shows "valid_config up (fw_config (snd (next_with_clock_gate sha io now snapshot changing s)))"
proof -
  let ?c = "fw_config s"
  have base: "valid_config up (?c\<lparr>fc_seen := map fst ms, fc_fingerprint_version := 3, fc_forwarding_since := t\<rparr>)"
    if "messages sha snapshot = Inr ms" for ms t
  proof -
    have "valid_config up (?c\<lparr>fc_seen := map fst ms\<rparr>)"
      using messages_hashes [OF assms(1) that] by (intro valid_seen assms(2)) (simp_all add: max_seen_def)
    then show ?thesis by simp
  qed
  have scan: "valid_config up (?c\<lparr>fc_seen := fst (next_scan t ?c (fc_seen ?c) (fc_seen ?c) ms)\<rparr>)"
    if "messages sha snapshot = Inr ms" for ms t
  proof -
    have "list_all hash_ok (fc_seen ?c @ scan_hashes t ?c (fc_seen ?c) ms)"
      using valid_parts(2) [OF assms(2)] messages_hashes [OF assms(1) that] scan_fresh [of t ?c "fc_seen ?c" ms]
      by (auto simp: list_all_iff)
    then show ?thesis
      unfolding scan_kept [OF valid_parts(1) [OF assms(2)]] by (intro valid_seen assms(2) lastn_all) simp_all
  qed
  have "valid_config up (fw_config (snd (next_at sha io snapshot t s)))" for t
    using assms(2) scan by (auto simp: next_at_def fwd_commit_result split: sum.split prod.split) (metis fst_conv)
  then show ?thesis
    using assms(2) base by (auto simp: next_with_clock_gate_def fwd_commit_result split: sum.split)
qed

lemma crossed_member: "crossed_power_threshold p q = Some t \<Longrightarrow> t \<in> set power_thresholds"
  by (auto simp: crossed_power_threshold_def find_Some_iff split: if_splits) (metis nth_mem length_rev set_rev)+

lemma power_state_pair: "power_pair_ok (map_option fst (power_state b)) (map_option snd (power_state b))"
  by (cases "power_state b")
    (auto simp: power_pair_ok_def power_state_def Option.bind_eq_Some_conv split: if_splits)

lemma valid_set_power:
  assumes "valid_config up c"
  shows "valid_config up (set_power (power_state b) c)"
  using assms power_state_pair [of b] by (simp add: valid_config_def set_power_def)

lemma valid_point:
  assumes "valid_config up c" and "\<And>t. p = Some t \<Longrightarrow> t \<in> set power_thresholds"
  shows "valid_config up (c\<lparr>fc_power_last_point := p\<rparr>)"
  using assms by (cases p) (simp_all add: valid_config_def)

lemma rearmed_point: "rearmed q p = Some t \<Longrightarrow> p = Some t"
  by (auto simp: rearmed_def split: option.splits if_splits)

lemma valid_observed_point:
  assumes "valid_config up c"
  shows "valid_config up (c\<lparr>fc_power_last_point := power_point a b (fc_power_last_point c)\<rparr>)"
proof (rule valid_point [OF assms])
  fix t assume t: "power_point a b (fc_power_last_point c) = Some t"
  have "crossed_power_threshold a b = Some t \<or> fc_power_last_point c = Some t"
    using t rearmed_point [of b "fc_power_last_point c" t]
    by (auto simp: power_point_def power_threshold_def Let_def split: if_splits option.splits)
  then show "t \<in> set power_thresholds" using assms by (auto simp: valid_config_def dest: crossed_member)
qed

lemma valid_power:
  assumes "valid_config up (fw_config s)"
  shows "valid_config up (fw_config (snd (observe_power io battery clk changing s)))"
proof -
  note v = valid_set_power [OF assms, of battery]
  note vp = valid_observed_point [OF v]
  show ?thesis
    unfolding observe_power_def observe_power_with_clock_def Let_def fwd_commit_result
    using assms v vp by (auto split: option.split prod.split)
qed

lemma valid_quota:
  assumes "valid_config up (fw_config s)"
  shows "valid_config up (fw_config (snd (reserve_sim_quota io n clk changing s)))"
proof -
  have "valid_config up ((fw_config s)\<lparr>fc_sms_quota_date := d, fc_sms_quota_used := k\<rparr>)"
    if "valid_date d" "k \<le> max_sms_daily_sends" for d k
    using assms that valid_date_nonempty [OF that(1)] by (simp add: valid_config_def valid_quota_state_def)
  moreover have "valid_date d" if "quota_day date used today = Inr (d, k)" for date used today d k
    using that by (auto simp: quota_day_def valid_quota_state_def split: if_splits)
  ultimately show ?thesis
    using assms
    by (auto simp: reserve_sim_quota_def reserve_sim_quota_with_clock_def fwd_commit_result not_less
        split: option.split sum.split prod.split)
qed

lemma valid_config_default: "valid_config up fwd_config_default"
  by (simp add: valid_config_def fwd_config_default_def smtp_safe_def smtp_settings_default_def valid_nickname_def
      distinct_count_def valid_quota_state_def power_pair_ok_def has_control_def utf8_chars_def trim_def)

lemma valid_load: "valid_config up (fw_config (fwd_load up f))"
  by (auto simp: fwd_load_def valid_config_default Let_def split: disk.split option.split)

lemma valid_step:
  assumes "sha_ok sha" "valid_config up (fw_config s)"
  shows "valid_config up (fw_config (fwd_step up sha e s))"
  using assms valid_load
  by (cases e) (auto simp: valid_update valid_next valid_power valid_quota reserve_sms_def reserve_scheduled_sms_def
      mark_delivery_def mark_power_delivery_def mark_source_unavailable_def mark_storage_failed_def Let_def)

text \<open>What every moment satisfies: the record is valid and a restart would find it.\<close>

definition fw_inv :: "url_parser \<Rightarrow> forwarder \<Rightarrow> bool" where
  "fw_inv up s \<longleftrightarrow> valid_config up (fw_config s)
     \<and> durable_part (fw_config (fwd_load up (fw_flash s))) = durable_part (fw_config s)"

lemma load_flash [simp]: "fw_flash (fwd_load up f) = f"
  by (simp add: fwd_load_def Let_def)

lemma load_written: "valid_config up c \<Longrightarrow> fw_config (fwd_load up (Holds (written c))) = written c"
  by (simp add: fwd_load_def Let_def)

lemma fw_inv_load: "fw_inv up (fwd_load up f)"
  by (simp add: fw_inv_def valid_load)

lemma fw_inv_step: "sha_ok sha \<Longrightarrow> fw_inv up s \<Longrightarrow> fw_inv up (fwd_step up sha e s)"
proof (cases "e = ERestart")
  case False
  assume sha: "sha_ok sha" and inv: "fw_inv up s"
  have v: "valid_config up (fw_config (fwd_step up sha e s))" using valid_step [OF sha] inv by (simp add: fw_inv_def)
  show ?thesis
    using fwd_committed_step [OF False, of s up sha] v inv by (auto simp: fwd_committed_def fw_inv_def load_written)
qed (simp add: fw_inv_load)

lemma restart_durable: "fw_inv up s \<Longrightarrow> durable_part (fw_config (fwd_step up sha ERestart s)) = durable_part (fw_config s)"
  by (simp add: fw_inv_def)

section \<open>What is recorded and what is forwarded\<close>

text \<open>The fingerprints a call adds to the list of seen messages, once the list is of the current format.\<close>

definition recorded :: "url_parser \<Rightarrow> (bytes \<Rightarrow> string) \<Rightarrow> fwd_event \<Rightarrow> forwarder \<Rightarrow> string list" where
  "recorded up sha e s =
     (let c = fw_config s in
      if fc_fingerprint_version c \<noteq> 3 then []
      else case e of
        ENext io now snapshot changing \<Rightarrow>
          if changing \<or> \<not> fc_enabled c \<or> \<not> io then []
          else (case (forwarding_clock now, messages sha snapshot) of
                  (Inr t, Inr ms) \<Rightarrow> scan_hashes t c (fc_seen c) ms
                | _ \<Rightarrow> [])
      | EUpdate io now changing clk i snapshot battery \<Rightarrow>
          if isl (fst (fwd_update_with up sha io now changing clk i snapshot battery s)) \<or> \<not> requires_baseline i s then []
          else (case map_option (messages sha) snapshot of
                  Some (Inr ms) \<Rightarrow> new_hashes (fc_seen c) (map fst ms)
                | _ \<Rightarrow> [])
      | _ \<Rightarrow> [])"

definition fw_ready :: "url_parser \<Rightarrow> forwarder \<Rightarrow> bool" where
  "fw_ready up s \<longleftrightarrow> fw_inv up s \<and> fc_fingerprint_version (fw_config s) = 3"

abbreviation seen_of :: "forwarder \<Rightarrow> string list" where
  "seen_of s \<equiv> fc_seen (fw_config s)"

lemma seen_same: "valid_config up (fw_config s) \<Longrightarrow> lastn max_seen (seen_of s) = seen_of s"
  by (simp add: valid_parts(1))

lemma recorded_next:
  assumes "fw_ready up s" and "e = ENext io now snapshot changing"
  shows "seen_of (fwd_step up sha e s) = lastn max_seen (seen_of s @ recorded up sha e s)
    \<and> fc_fingerprint_version (fw_config (fwd_step up sha e s)) = 3"
proof -
  have v: "length (seen_of s) \<le> max_seen" using assms(1) valid_parts(1) by (auto simp: fw_ready_def fw_inv_def)
  have r: "fc_fingerprint_version (fw_config s) = 3" using assms(1) by (simp add: fw_ready_def)
  show ?thesis
  proof (cases "changing \<or> \<not> fc_enabled (fw_config s) \<or> isl (forwarding_clock now) \<or> isl (messages sha snapshot)")
    case True
    then show ?thesis
      using assms(2) v r by (auto simp: recorded_def Let_def next_with_clock_gate_def next_at_def split: sum.splits)
  next
    case False
    then obtain t ms where t: "forwarding_clock now = Inr t" "messages sha snapshot = Inr ms" by (auto simp: isl_def) (metis isl_def sum.exhaust_sel)
    obtain seen m where sc: "next_scan t (fw_config s) (seen_of s) (seen_of s) ms = (seen, m)" by fastforce
    then have "seen = lastn max_seen (seen_of s @ scan_hashes t (fw_config s) (seen_of s) ms)"
      using scan_kept [OF v, of t "fw_config s" "seen_of s" ms] by simp
    then show ?thesis
      using assms(2) v r t sc False
      by (auto simp: recorded_def Let_def next_with_clock_gate_def next_at_def fwd_commit_result)
  qed
qed

lemma update_fields [simp]:
  "fc_seen (apply_fields i c) = fc_seen c" "fc_fingerprint_version (apply_fields i c) = fc_fingerprint_version c"
  "fc_seen (set_power p c) = fc_seen c" "fc_fingerprint_version (set_power p c) = fc_fingerprint_version c"
  "fc_sms_quota_date (apply_fields i c) = fc_sms_quota_date c" "fc_sms_quota_used (apply_fields i c) = fc_sms_quota_used c"
  "fc_sms_quota_date (set_power p c) = fc_sms_quota_date c" "fc_sms_quota_used (set_power p c) = fc_sms_quota_used c"
  by (simp_all add: apply_fields_def set_power_def)

lemma finish_config:
  "fw_config (snd (fwd_finish io changing clk reset c s)) = (if io then c else fw_config s)"
  "isl (fst (fwd_finish io changing clk reset c s)) = (\<not> io)"
  by (simp_all add: fwd_finish_def fwd_commit_result Let_def)

text \<open>What an update stores, apart from the fields it takes from its argument.\<close>

lemma update_ledger:
  assumes "s1 = snd (fwd_update_with up sha io now changing clk i snapshot battery s)"
    and "r = fst (fwd_update_with up sha io now changing clk i snapshot battery s)"
  shows "isl r \<and> fw_config s1 = fw_config s
    \<or> \<not> isl r \<and> \<not> requires_baseline i s \<and> fc_seen (fw_config s1) = fc_seen (fw_config s)
        \<and> fc_fingerprint_version (fw_config s1) = fc_fingerprint_version (fw_config s)
    \<or> \<not> isl r \<and> requires_baseline i s \<and> fc_fingerprint_version (fw_config s1) = 3
        \<and> (\<exists>snap ms. snapshot = Some snap \<and> messages sha snap = Inr ms
             \<and> (fc_fingerprint_version (fw_config s) = 3 \<longrightarrow>
                  seen_of s1 = lastn max_seen (seen_of s @ new_hashes (seen_of s) (map fst ms))))"
  unfolding assms fwd_update_with_def Let_def
  by (auto simp: finish_config take_baseline_def Let_def push_new_hashes drain_seen_lastn split: option.splits sum.splits)

text \<open>The calls that have nothing to do with the inbox leave its record alone.\<close>

lemma other_seen:
  assumes "fw_inv up s" and "\<And>io now snap ch. e \<noteq> ENext io now snap ch"
    and "\<And>io now ch clk i snap b. e \<noteq> EUpdate io now ch clk i snap b"
  shows "seen_of (fwd_step up sha e s) = seen_of s
    \<and> fc_fingerprint_version (fw_config (fwd_step up sha e s)) = fc_fingerprint_version (fw_config s)"
proof (cases e)
  case (EPower io b clk ch)
  then show ?thesis
    by (auto simp: observe_power_def observe_power_with_clock_def fwd_commit_result Let_def split: option.split prod.split)
next
  case ERestart
  then show ?thesis using assms(1) durable_fields [OF restart_durable] by auto
qed (use assms in \<open>auto simp: reserve_sms_def reserve_scheduled_sms_def reserve_sim_quota_def
    reserve_sim_quota_with_clock_def fwd_commit_result mark_delivery_def mark_power_delivery_def
    mark_source_unavailable_def mark_storage_failed_def Let_def split: option.split sum.split prod.split\<close>)

lemma recorded_step:
  assumes "fw_ready up s"
  shows "seen_of (fwd_step up sha e s) = lastn max_seen (seen_of s @ recorded up sha e s)
    \<and> fc_fingerprint_version (fw_config (fwd_step up sha e s)) = 3"
proof -
  have inv: "fw_inv up s" and r: "fc_fingerprint_version (fw_config s) = 3" and l: "length (seen_of s) \<le> max_seen"
    using assms valid_parts(1) by (auto simp: fw_ready_def fw_inv_def)
  show ?thesis
  proof (cases e)
    case (ENext io now snap ch)
    then show ?thesis using recorded_next [OF assms] by blast
  next
    case (EUpdate io now ch clk i snap b)
    then show ?thesis
      using update_ledger [OF refl refl, of up sha io now ch clk i snap b s] r l by (auto simp: recorded_def)
  qed (use other_seen [OF inv, of e sha] r l in \<open>auto simp: recorded_def\<close>)
qed

lemma scan_disjoint: "distinct (scan_hashes now c known ms) \<and> set (scan_hashes now c known ms) \<inter> set known = {}"
  using scan_fresh [of now c known ms] by blast

lemma recorded_fresh: "distinct (recorded up sha e s) \<and> set (recorded up sha e s) \<inter> set (seen_of s) = {}"
proof (cases e)
  case (ENext io now snap ch)
  then show ?thesis
    using scan_disjoint by (simp add: recorded_def Let_def split: sum.split)
next
  case (EUpdate io now ch clk i snap b)
  then show ?thesis
    using new_hashes_fresh by (auto simp: recorded_def Let_def split: sum.split option.split)
qed (auto simp: recorded_def Let_def)

lemma ready_step: "sha_ok sha \<Longrightarrow> fw_ready up s \<Longrightarrow> fw_ready up (fwd_step up sha e s)"
  using recorded_step fw_inv_step by (auto simp: fw_ready_def)

interpretation seen_log: dedup_log max_seen "\<lambda>s. fw_ready up s \<and> sha_ok sha" seen_of "recorded up sha" "fwd_step up sha"
  for up sha
  using recorded_step recorded_fresh ready_step by unfold_locales blast+

text \<open>From any file: nothing counts as recorded before the list has the current format.\<close>

lemma recorded_from_load:
  assumes "sha_ok sha" and "fw_inv up s"
    and "event_log (recorded up sha) (fwd_step up sha) es s = xs @ h # ys @ h # zs"
  shows "max_seen \<le> length ys"
  using assms(2,3)
proof (induction es arbitrary: s)
  case (Cons e es)
  show ?case
  proof (cases "fw_ready up s")
    case True
    then show ?thesis using seen_log.no_repeat [of up s sha "e # es"] assms(1) Cons.prems(2) by blast
  next
    case False
    then have "recorded up sha e s = []" using Cons.prems(1) by (simp add: recorded_def fw_ready_def Let_def)
    then show ?thesis using Cons.IH [OF fw_inv_step [OF assms(1) Cons.prems(1)]] Cons.prems(2) by simp
  qed
qed simp

lemma scan_deliver:
  "snd (next_scan now c known kept ms) = Some m \<Longrightarrow>
     \<exists>h t. (h, m, Some t) \<in> set ms \<and> scan_hashes now c known ms \<noteq> [] \<and> last (scan_hashes now c known ms) = h
       \<and> fc_forwarding_since c \<le> t \<and> t \<le> sat_add64 now 300 \<and> \<not> blacklisted c m"
proof (induction now c known kept ms rule: next_scan.induct)
  case (2 now c known kept hash message received_at ms)
  let ?late = "case received_at of Some t \<Rightarrow> t > sat_add64 now 300 | None \<Rightarrow> False"
  let ?recent = "case received_at of Some t \<Rightarrow> t \<ge> fc_forwarding_since c | None \<Rightarrow> False"
  consider "hash \<in> set known \<or> ?late" | "hash \<notin> set known" "\<not> ?late" "?recent \<and> \<not> blacklisted c message"
    | "hash \<notin> set known" "\<not> ?late" "\<not> (?recent \<and> \<not> blacklisted c message)" by blast
  then show ?case
  proof cases
    case 1
    then have "snd (next_scan now c known kept ms) = Some m" using 2(4) by (cases "hash \<in> set known") simp_all
    from 1 this 2(1,2) obtain h t where "(h, m, Some t) \<in> set ms" "scan_hashes now c known ms \<noteq> []"
      "last (scan_hashes now c known ms) = h" "fc_forwarding_since c \<le> t" "t \<le> sat_add64 now 300" "\<not> blacklisted c m"
      by blast
    then show ?thesis using 1 by auto
  next
    case 2
    then have "m = message" "received_at \<noteq> None" using \<open>snd _ = Some m\<close> by (auto simp: Let_def split: option.splits)
    then show ?thesis using 2 by (auto simp: not_less split: option.splits)
  next
    case 3
    then have "snd (next_scan now c (hash # known) (drain_seen (kept @ [hash])) ms) = Some m"
      using \<open>snd _ = Some m\<close> by (auto simp: Let_def)
    with 2(3) [OF 3(1,2) refl refl] 3 show ?thesis by auto
  qed
qed simp



section \<open>The allowance\<close>

text \<open>The reservations a call makes: the date on the clock, the day they are charged to, the number of messages.\<close>

definition today_of :: "clock option \<Rightarrow> string" where
  "today_of clk = (case clk of Some k \<Rightarrow> ck_date k | None \<Rightarrow> [])"

definition granted :: "fwd_event \<Rightarrow> forwarder \<Rightarrow> (string \<times> string \<times> nat) list" where
  "granted e s =
     (case e of
        EReserve io m clk changing \<Rightarrow>
          (case reserve_sms io m clk changing s of
             (Inr _, s1) \<Rightarrow> if fc_method (fw_config s) = ''sms''
                then [(today_of clk, fc_sms_quota_date (fw_config s1), length (sms_targets (fc_sms_to_phone (fw_config s)) m))]
                else []
           | _ \<Rightarrow> [])
      | EReserveScheduled io clk changing \<Rightarrow>
          (case reserve_scheduled_sms io clk changing s of
             (Inr _, s1) \<Rightarrow> [(today_of clk, fc_sms_quota_date (fw_config s1), 1)]
           | _ \<Rightarrow> [])
      | _ \<Rightarrow> [])"

definition charged :: "string \<Rightarrow> (string \<times> string \<times> nat) list \<Rightarrow> nat" where
  "charged d log = sum_list (map (\<lambda>(t, day, n). if day = d then n else 0) log)"

lemma charged_append [simp]: "charged d (a @ b) = charged d a + charged d b"
  by (simp add: charged_def)

text \<open>What is no longer available for a day.\<close>

definition spent :: "string \<Rightarrow> forwarder \<Rightarrow> nat" where
  "spent d s =
     (let c = fw_config s in
      if fc_sms_quota_date c = d then fc_sms_quota_used c else if d < fc_sms_quota_date c then max_sms_daily_sends else 0)"

lemma quota_reserved:
  assumes "reserve_sim_quota io n clk changing s = (Inr (), s1)"
  shows "\<exists>day used. quota_day (fc_sms_quota_date (fw_config s)) (fc_sms_quota_used (fw_config s)) (today_of clk) = Inr (day, used)
    \<and> used + n \<le> max_sms_daily_sends \<and> fc_sms_quota_date (fw_config s1) = day \<and> fc_sms_quota_used (fw_config s1) = used + n"
  using assms
  by (auto simp: reserve_sim_quota_def reserve_sim_quota_with_clock_def fwd_commit_result today_of_def not_less
      split: if_splits option.splits sum.splits prod.splits)

lemma quota_refused:
  "reserve_sim_quota io n clk changing s = (Inl e, s1) \<Longrightarrow> fw_config s1 = fw_config s"
  by (auto simp: reserve_sim_quota_def reserve_sim_quota_with_clock_def fwd_commit_result
      split: if_splits option.splits sum.splits prod.splits)

lemma quota_day_later:
  assumes "quota_day date used today = Inr (day, used1)"
  shows "date \<le> day \<and> today \<le> day \<and> (day = date \<and> used1 = used \<or> used1 = 0 \<and> date < day) \<and> valid_date day"
proof -
  have "valid_date today" "valid_quota_state date used" using assms by (auto simp: quota_day_def split: if_splits)
  moreover from this have "[] < today" using valid_date_nonempty [of today] by (cases today) auto
  ultimately show ?thesis
    using assms by (auto simp: quota_day_def valid_quota_state_def split: if_splits)
qed

text \<open>The other calls do not touch the allowance.\<close>

abbreviation quota_of :: "forwarder \<Rightarrow> string \<times> nat" where
  "quota_of s \<equiv> (fc_sms_quota_date (fw_config s), fc_sms_quota_used (fw_config s))"

lemma update_quota:
  "quota_of (snd (fwd_update_with up sha io now changing clk i snapshot battery s)) = quota_of s"
  unfolding fwd_update_with_def Let_def
  by (auto simp: finish_config take_baseline_def Let_def split: option.splits sum.splits)

lemma other_quota:
  assumes "fw_inv up s" and "\<And>io m clk ch. e \<noteq> EReserve io m clk ch" and "\<And>io clk ch. e \<noteq> EReserveScheduled io clk ch"
  shows "quota_of (fwd_step up sha e s) = quota_of s"
proof (cases e)
  case (EUpdate io now ch clk i snap b)
  then show ?thesis using update_quota by simp
next
  case (ENext io now snap ch)
  then show ?thesis
    by (auto simp: next_with_clock_gate_def next_at_def fwd_commit_result split: sum.split prod.split)
next
  case (EPower io b clk ch)
  then show ?thesis
    by (auto simp: observe_power_def observe_power_with_clock_def fwd_commit_result Let_def split: option.split prod.split)
next
  case ERestart
  then show ?thesis using assms(1) durable_fields [OF restart_durable] by auto
qed (use assms in \<open>auto simp: mark_delivery_def mark_power_delivery_def mark_source_unavailable_def mark_storage_failed_def\<close>)

definition quota_charged :: "forwarder \<Rightarrow> forwarder \<Rightarrow> string \<times> string \<times> nat \<Rightarrow> bool" where
  "quota_charged s s1 g = (case g of (t, day, n) \<Rightarrow>
     t \<le> day \<and> fc_sms_quota_date (fw_config s) \<le> day \<and> fc_sms_quota_date (fw_config s1) = day
     \<and> fc_sms_quota_used (fw_config s1) \<le> max_sms_daily_sends
     \<and> (day = fc_sms_quota_date (fw_config s) \<and> fc_sms_quota_used (fw_config s1) = fc_sms_quota_used (fw_config s) + n
        \<or> fc_sms_quota_date (fw_config s) < day \<and> fc_sms_quota_used (fw_config s1) = n))"

lemma quota_charge:
  assumes "reserve_sim_quota io n clk changing s = (Inr (), s1)"
  shows "quota_charged s s1 (today_of clk, fc_sms_quota_date (fw_config s1), n)"
  using quota_reserved [OF assms] quota_day_later by (fastforce simp: quota_charged_def)

lemma targets_bound:
  assumes "valid_config up c"
  shows "length (sms_targets (fc_sms_to_phone c) m) mod 65536 = length (sms_targets (fc_sms_to_phone c) m)"
proof -
  have "length (sms_targets (fc_sms_to_phone c) m) \<le> length (fc_sms_to_phone c)" by (simp add: sms_targets_def)
  also have "\<dots> \<le> 3" using assms by (simp add: valid_config_def max_sms_targets_def)
  finally show ?thesis by simp
qed

lemma quota_step:
  assumes "fw_inv up s"
  shows "granted e s = [] \<and> quota_of (fwd_step up sha e s) = quota_of s
    \<or> (\<exists>g. granted e s = [g] \<and> quota_charged s (fwd_step up sha e s) g)"
proof (cases e)
  case (EReserve io m clk ch)
  let ?n = "length (sms_targets (fc_sms_to_phone (fw_config s)) m)"
  have n: "?n mod 65536 = ?n" using assms targets_bound by (auto simp: fw_inv_def)
  show ?thesis
  proof (cases "ch \<or> fc_method (fw_config s) \<noteq> ''sms'' \<or> ?n = 0")
    case True
    then show ?thesis using EReserve by (auto simp: granted_def reserve_sms_def Let_def)
  next
    case False
    then have r: "reserve_sms io m clk ch s = reserve_sim_quota io ?n clk ch s" "fc_method (fw_config s) = ''sms''"
      by (simp_all add: reserve_sms_def n)
    obtain q s1 where q: "reserve_sim_quota io ?n clk ch s = (q, s1)" by fastforce
    show ?thesis
    proof (cases q)
      case (Inl err)
      then show ?thesis using q r EReserve quota_refused by (auto simp: granted_def)
    next
      case (Inr u)
      then show ?thesis using q r EReserve quota_charge by (auto simp: granted_def)
    qed
  qed
next
  case (EReserveScheduled io clk ch)
  show ?thesis
  proof (cases "fw_last_result s = ''invalid_config''")
    case True
    then show ?thesis using EReserveScheduled by (simp add: granted_def reserve_scheduled_sms_def)
  next
    case False
    obtain q s1 where q: "reserve_sim_quota io 1 clk ch s = (q, s1)" by fastforce
    show ?thesis
    proof (cases q)
      case (Inl err)
      then show ?thesis using q False EReserveScheduled quota_refused by (auto simp: granted_def reserve_scheduled_sms_def)
    next
      case (Inr u)
      then show ?thesis using q False EReserveScheduled quota_charge by (auto simp: granted_def reserve_scheduled_sms_def)
    qed
  qed
qed (use other_quota [OF assms, of e sha] in \<open>auto simp: granted_def\<close>)

lemma spent_step:
  assumes "fw_inv up s"
  shows "charged d (granted e s) + spent d s \<le> spent d (fwd_step up sha e s)"
  using quota_step [OF assms, of e sha]
proof
  assume "\<exists>g. granted e s = [g] \<and> quota_charged s (fwd_step up sha e s) g"
  moreover have "fc_sms_quota_used (fw_config s) \<le> max_sms_daily_sends"
    using assms valid_parts(3) by (auto simp: fw_inv_def)
  ultimately show ?thesis by (fastforce simp: charged_def spent_def quota_charged_def Let_def)
qed (simp add: charged_def spent_def Let_def)

lemma spent_bound: "fw_inv up s \<Longrightarrow> spent d s \<le> max_sms_daily_sends"
  using valid_parts(3) by (auto simp: spent_def Let_def fw_inv_def)

lemma allowance_run:
  assumes "sha_ok sha" and "fw_inv up s"
  shows "charged d (event_log granted (fwd_step up sha) es s) + spent d s \<le> max_sms_daily_sends"
  using assms(2)
proof (induction es arbitrary: s)
  case (Cons e es)
  have "charged d (event_log granted (fwd_step up sha) es (fwd_step up sha e s)) + spent d (fwd_step up sha e s)
      \<le> max_sms_daily_sends"
    using Cons.IH [OF fw_inv_step [OF assms(1) Cons.prems]] by simp
  then show ?case using spent_step [OF Cons.prems, of d e sha] by simp
qed (simp add: spent_bound charged_def)

lemma days_run:
  assumes "sha_ok sha" and "fw_inv up s"
  shows "sorted (map (fst \<circ> snd) (event_log granted (fwd_step up sha) es s))
    \<and> (\<forall>(t, day, n)\<in>set (event_log granted (fwd_step up sha) es s). t \<le> day \<and> fc_sms_quota_date (fw_config s) \<le> day)"
  using assms(2)
proof (induction es arbitrary: s)
  case (Cons e es)
  let ?s = "fwd_step up sha e s"
  have IH: "sorted (map (fst \<circ> snd) (event_log granted (fwd_step up sha) es ?s))"
    "\<forall>(t, day, n)\<in>set (event_log granted (fwd_step up sha) es ?s). t \<le> day \<and> fc_sms_quota_date (fw_config ?s) \<le> day"
    using Cons.IH [OF fw_inv_step [OF assms(1) Cons.prems, of e]] by (rule conjunct1, rule conjunct2)
  from quota_step [OF Cons.prems, of e sha] show ?case
  proof
    assume "\<exists>g. granted e s = [g] \<and> quota_charged s ?s g"
    then obtain t day n where g: "granted e s = [(t, day, n)]" "quota_charged s ?s (t, day, n)" by auto
    then have d: "fc_sms_quota_date (fw_config ?s) = day" "fc_sms_quota_date (fw_config s) \<le> day" "t \<le> day"
      by (simp_all add: quota_charged_def)
    have "\<forall>x\<in>set (event_log granted (fwd_step up sha) es ?s). day \<le> fst (snd x)" using IH(2) d(1) by force
    moreover have "\<forall>(t, day, n)\<in>set (event_log granted (fwd_step up sha) es ?s). t \<le> day \<and> fc_sms_quota_date (fw_config s) \<le> day"
      using IH(2) d(1,2) by force
    ultimately show ?thesis using IH(1) g(1) d by (simp add: comp_def)
  qed (use IH in \<open>simp add: comp_def\<close>)
qed simp

section \<open>Battery alerts\<close>




section \<open>Properties\<close>

abbreviation fwd_run :: "url_parser \<Rightarrow> (bytes \<Rightarrow> string) \<Rightarrow> fwd_event list \<Rightarrow> forwarder \<Rightarrow> forwarder" where
  "fwd_run up sha es s \<equiv> fold (fwd_step up sha) es s"

lemma fw_inv_run: "sha_ok sha \<Longrightarrow> fw_inv up s \<Longrightarrow> fw_inv up (fwd_run up sha es s)"
  by (induction es arbitrary: s) (auto intro: fw_inv_step)

text \<open>
  C21: the ledger survives a restart at any moment.  From any content of the file, through any sequence of calls and
  restarts with any outcomes of the file writes, the configuration stays valid and what a restart would load agrees
  with it in everything but the last battery reading.
\<close>

theorem fwd_ledger_survives_restart:
  assumes "sha_ok sha"
  shows "valid_config up (fw_config (fwd_run up sha es (fwd_load up f)))
    \<and> durable_part (fw_config (fwd_load up (fw_flash (fwd_run up sha es (fwd_load up f)))))
      = durable_part (fw_config (fwd_run up sha es (fwd_load up f)))"
  using fw_inv_run [OF assms fw_inv_load] by (simp add: fw_inv_def)

definition demo_sha :: "bytes \<Rightarrow> string" where
  "demo_sha x = replicate 63 CHR ''0'' @ [if length x = 13 then CHR ''1'' else CHR ''2'']"

lemma demo_sha_ok: "sha_ok demo_sha"
  by (auto simp: sha_ok_def hash_ok_def demo_sha_def list_all_iff is_ascii_hexdigit_def is_ascii_digit_def cval_def)

lemma fwd_ledger_survives_restart_witness:
  "valid_config (\<lambda>_. None) (fw_config (fwd_run (\<lambda>_. None) demo_sha [ERestart] (fwd_load (\<lambda>_. None) Corrupt)))"
  using fwd_ledger_survives_restart [OF demo_sha_ok, of "\<lambda>_. None" "[ERestart]" Corrupt] by blast

text \<open>
  The fingerprint of the message a call to \<open>next\<close> hands out: the last one in the list it stored.
\<close>

definition delivers :: "(bytes \<Rightarrow> string) \<Rightarrow> fwd_event \<Rightarrow> forwarder \<Rightarrow> (string \<times> fwd_message) option" where
  "delivers sha e s =
     (case e of
        ENext io now snapshot changing \<Rightarrow>
          (case next_with_clock_gate sha io now snapshot changing s of
             (Inr (Some m), s1) \<Rightarrow> Some (last (seen_of s1), m)
           | _ \<Rightarrow> None)
      | _ \<Rightarrow> None)"

lemma last_lastn: "ys \<noteq> [] \<Longrightarrow> 0 < n \<Longrightarrow> last (lastn n (xs @ ys)) = last ys"
  using last_drop [of "length (xs @ ys) - n" "xs @ ys"] by (simp add: lastn_def del: drop_append)

lemma delivers_recorded:
  assumes "fw_inv up s" and "delivers sha e s = Some (h, m)"
  shows "fw_ready up s \<and> recorded up sha e s \<noteq> [] \<and> last (recorded up sha e s) = h
    \<and> (\<exists>io now snapshot t ms at. e = ENext io now snapshot False \<and> io \<and> fc_enabled (fw_config s)
         \<and> forwarding_clock now = Inr t \<and> messages sha snapshot = Inr ms \<and> (h, m, Some at) \<in> set ms
         \<and> fc_forwarding_since (fw_config s) \<le> at \<and> at \<le> sat_add64 t 300 \<and> \<not> blacklisted (fw_config s) m)"
proof -
  obtain io now snapshot ch where e: "e = ENext io now snapshot ch" using assms(2) by (cases e) (auto simp: delivers_def)
  let ?c = "fw_config s"
  obtain s1 where nx: "next_with_clock_gate sha io now snapshot ch s = (Inr (Some m), s1)" and h: "h = last (seen_of s1)"
    using assms(2) e by (auto simp: delivers_def split: prod.splits sum.splits option.splits)
  from nx obtain t where g: "\<not> ch" "fc_enabled ?c" "fc_fingerprint_version ?c = 3" "forwarding_clock now = Inr t"
      "next_at sha io snapshot t s = (Inr (Some m), s1)"
    by (auto simp: next_with_clock_gate_def fwd_commit_result split: if_splits sum.splits)
  from g(5) obtain ms where ms: "messages sha snapshot = Inr ms" and io: "io"
      and sc: "snd (next_scan t ?c (seen_of s) (seen_of s) ms) = Some m"
    by (auto simp: next_at_def fwd_commit_result split: if_splits sum.splits prod.splits)
  from scan_deliver [OF sc] obtain h' at where d: "(h', m, Some at) \<in> set ms" "scan_hashes t ?c (seen_of s) ms \<noteq> []"
      "last (scan_hashes t ?c (seen_of s) ms) = h'" "fc_forwarding_since ?c \<le> at" "at \<le> sat_add64 t 300" "\<not> blacklisted ?c m"
    by blast
  have rec: "recorded up sha e s = scan_hashes t ?c (seen_of s) ms" using e g ms io by (simp add: recorded_def Let_def)
  have ready: "fw_ready up s" using assms(1) g(3) by (simp add: fw_ready_def)
  have "seen_of s1 = lastn max_seen (seen_of s @ scan_hashes t ?c (seen_of s) ms)"
    using recorded_step [OF ready, of sha e] rec e nx by simp
  then have "h = h'" using h d(2,3) by (simp add: last_lastn max_seen_def)
  then show ?thesis using ready rec d e g ms io by auto
qed

text \<open>
  C11: a message is forwarded once.  Across any calls and restarts, and from any content of the file: after \<open>next\<close> has
  handed out a message, no later call hands out one with the same fingerprint until more than 1024 fingerprints have
  been recorded, which is more than two full inboxes.  A crash after the hand-out changes nothing, since the
  fingerprint is in the file before the message leaves.
\<close>

theorem sms_forwarded_once:
  assumes "sha_ok sha"
    and "delivers sha e1 (fwd_run up sha before (fwd_load up f)) = Some (h, m1)"
    and "length (event_log (recorded up sha) (fwd_step up sha) (between @ [e2])
      (fwd_run up sha (before @ [e1]) (fwd_load up f))) \<le> 1024"
  shows "delivers sha e2 (fwd_run up sha (before @ e1 # between) (fwd_load up f)) \<noteq> Some (h, m2)"
proof
  assume again: "delivers sha e2 (fwd_run up sha (before @ e1 # between) (fwd_load up f)) = Some (h, m2)"
  let ?s = "fwd_run up sha before (fwd_load up f)"
  let ?s1 = "fwd_step up sha e1 ?s"
  let ?s2 = "fwd_run up sha between ?s1"
  let ?log = "event_log (recorded up sha) (fwd_step up sha)"
  have inv: "fw_inv up ?s" "fw_inv up ?s2"
    using fw_inv_run [OF assms(1) fw_inv_load, of up before f]
      fw_inv_run [OF assms(1) fw_inv_load, of up "before @ e1 # between" f] by simp_all
  obtain xs where xs: "recorded up sha e1 ?s = xs @ [h]"
    using delivers_recorded [OF inv(1) assms(2)] by (metis append_butlast_last_id)
  have "delivers sha e2 ?s2 = Some (h, m2)" using again by simp
  then obtain ys where ys: "recorded up sha e2 ?s2 = ys @ [h]"
    using delivers_recorded [OF inv(2)] by (metis append_butlast_last_id)
  have app: "?log (es @ [e2]) s = ?log es s @ recorded up sha e2 (fwd_run up sha es s)" for es s
    by (induction es arbitrary: s) simp_all
  have "?log (e1 # between @ [e2]) ?s = xs @ h # (?log between ?s1 @ ys) @ h # []" using app xs ys by simp
  from recorded_from_load [OF assms(1) inv(1) this] have "max_seen \<le> length (?log between ?s1 @ ys)" .
  then show False using app ys assms(3) by (simp add: max_seen_def)
qed

definition demo_inbox :: json where
  "demo_inbox = jobj [(''stale'', JBool False), (''truncated'', JBool False),
     (''list'', JArray [jobj [(''tag'', jint 1), (''id'', jint 7), (''num'', JString ''10010''), (''text'', JString ''hi''),
        (''date'', JString ''24-01-01''), (''received_at'', jint 1700000100)]])]"

definition demo_config :: fwd_config where
  "demo_config = fwd_config_default\<lparr>fc_enabled := True, fc_method := ''sms'', fc_sms_to_phone := [''+10086''],
     fc_fingerprint_version := 3, fc_forwarding_since := 1700000000\<rparr>"

definition demo_next :: fwd_event where
  "demo_next = ENext True (Some 1700000200) demo_inbox False"

lemma demo_delivers:
  "delivers demo_sha demo_next (fwd_load (\<lambda>_. None) (Holds demo_config))
   = Some (replicate 63 CHR ''0'' @ ''2'', \<lparr>ms_from = ''10010'', ms_text = ''hi'', ms_date = ''24-01-01'', ms_kind = KSms\<rparr>)"
  by code_simp

lemma sms_forwarded_once_witness:
  "\<forall>m. delivers demo_sha demo_next (fwd_run (\<lambda>_. None) demo_sha ([] @ demo_next # [ERestart])
      (fwd_load (\<lambda>_. None) (Holds demo_config)))
    \<noteq> Some (replicate 63 CHR ''0'' @ ''2'', m)"
proof
  fix m
  have "length (event_log (recorded (\<lambda>_. None) demo_sha) (fwd_step (\<lambda>_. None) demo_sha) ([ERestart] @ [demo_next])
      (fwd_run (\<lambda>_. None) demo_sha ([] @ [demo_next]) (fwd_load (\<lambda>_. None) (Holds demo_config)))) \<le> 1024"
    by code_simp
  moreover have "delivers demo_sha demo_next (fwd_run (\<lambda>_. None) demo_sha [] (fwd_load (\<lambda>_. None) (Holds demo_config)))
    = Some (replicate 63 CHR ''0'' @ ''2'', \<lparr>ms_from = ''10010'', ms_text = ''hi'', ms_date = ''24-01-01'', ms_kind = KSms\<rparr>)"
    using demo_delivers by simp
  ultimately show "delivers demo_sha demo_next (fwd_run (\<lambda>_. None) demo_sha ([] @ demo_next # [ERestart])
      (fwd_load (\<lambda>_. None) (Holds demo_config))) \<noteq> Some (replicate 63 CHR ''0'' @ ''2'', m)"
    by (intro sms_forwarded_once [OF demo_sha_ok])
qed



text \<open>
  The SIM allowance.  From any content of the file and across any calls, restarts and steps of the clock, the
  messages reserved for the SIM and charged to one day are at most sixty; the days charged never go back, and none is
  earlier than the date on the clock at its reservation.
\<close>

theorem sim_allowance:
  assumes "sha_ok sha"
  shows "let log = event_log granted (fwd_step up sha) es (fwd_load up f)
    in charged d log \<le> 60 \<and> sorted (map (fst \<circ> snd) log) \<and> (\<forall>(t, day, n)\<in>set log. t \<le> day)"
proof -
  have "charged d (event_log granted (fwd_step up sha) es (fwd_load up f)) \<le> 60"
    using allowance_run [OF assms fw_inv_load [of up f], where d = d and es = es] by (simp add: max_sms_daily_sends_def)
  then show ?thesis using days_run [OF assms fw_inv_load [of up f], where es = es] by (auto simp: Let_def)
qed

definition demo_clock :: clock where
  "demo_clock = \<lparr>ck_date = ''2024-05-01'', ck_time = ''08:00'', ck_offset = ''+0800''\<rparr>"

lemma sim_allowance_witness:
  "let log = event_log granted (fwd_step (\<lambda>_. None) demo_sha)
      (replicate 3 (EReserveScheduled True (Some demo_clock) False)) (fwd_load (\<lambda>_. None) Missing)
   in log = replicate 3 (''2024-05-01'', ''2024-05-01'', 1) \<and> charged ''2024-05-01'' log \<le> 60"
proof -
  have "event_log granted (fwd_step (\<lambda>_. None) demo_sha)
      (replicate 3 (EReserveScheduled True (Some demo_clock) False)) (fwd_load (\<lambda>_. None) Missing)
    = replicate 3 (''2024-05-01'', ''2024-05-01'', 1)" by code_simp
  then show ?thesis using sim_allowance [OF demo_sha_ok] by (metis (mono_tags, lifting))
qed



end
