(* ===== verification/Sms_Delivery.thy ===== *)
theory Sms_Delivery
  imports Sms_Ledger
begin

text \<open>
  What \<open>sms_forward.rs\<close> puts on the wire: the device details, the texts of the four methods and the delivery itself.
  The HTTP client, the resolver, HMAC, the date parser, the query editor of the URL type and \<open>sms::send\<close> are
  parameters; what leaves the device is the list of outbound actions a delivery returns with its result.
\<close>

section \<open>Device details\<close>

record device_info =
  di_model :: string
  di_nickname :: string
  di_firmware :: string
  di_daily_flow :: string
  di_monthly_flow :: string
  di_battery_level :: string
  di_battery_temp :: string
  di_cpu_temp :: string
  di_cpu_usage :: string
  di_mem_usage :: string
  di_uptime :: string
  di_datad_version :: string
  di_msisdn :: string

definition safe_info_text :: "json option \<Rightarrow> nat \<Rightarrow> string" where
  "safe_info_text value max_bytes =
     (case map_option trim (Option.bind value as_str) of
        Some v \<Rightarrow> if v \<noteq> [] \<and> length v \<le> max_bytes \<and> \<not> has_control v then v else []
      | None \<Rightarrow> [])"

text \<open>\<open>{value:.k}\<close>: the exact decimal expansion, rounded half to even at the last digit; a negative zero keeps its sign.\<close>

fun num_negative :: "json_number \<Rightarrow> bool" where
  "num_negative (NInt i) = (i < 0)"
| "num_negative (NFloat b) = (unat b \<ge> 2 ^ 63)"

definition pad_zeros :: "nat \<Rightarrow> string \<Rightarrow> string" where
  "pad_zeros k s = replicate (k - length s) CHR ''0'' @ s"

definition show_fixed :: "nat \<Rightarrow> bool \<Rightarrow> int \<Rightarrow> string" where
  "show_fixed k negative v =
     (let n = nat (half_even (\<bar>v\<bar> * 10 ^ k) f64_one)
      in (if negative then ''-'' else []) @ show_nat (n div 10 ^ k) @ ''.'' @ pad_zeros k (show_nat (n mod 10 ^ k)))"

definition measured :: "json option \<Rightarrow> int \<Rightarrow> int \<Rightarrow> string \<Rightarrow> string" where
  "measured value lo hi ending =
     (case value of
        Some (JNumber n) \<Rightarrow>
          let v = num_f64 n in
          if lo * f64_one \<le> v \<and> v \<le> hi * f64_one then show_fixed 1 (num_negative n) v @ ending else []
      | _ \<Rightarrow> [])"

fun scaled :: "(nat \<times> string) list \<Rightarrow> nat \<Rightarrow> string" where
  "scaled [] amount = show_nat amount @ '' B''"
| "scaled ((unit, name) # units) amount =
     (if amount \<ge> unit then show_fixed 2 False (f64_div (f64_of_int (int amount)) (int unit)) @ '' '' @ name
      else scaled units amount)"

definition total_bytes :: "json option \<Rightarrow> string \<Rightarrow> string \<Rightarrow> string" where
  "total_bytes value rx tx =
     (case value of
        None \<Rightarrow> []
      | Some v \<Rightarrow>
          (case (Option.bind (jget v rx) as_u64, Option.bind (jget v tx) as_u64) of
             (Some r, Some t) \<Rightarrow>
               (case checked_add64 r t of
                  Some amount \<Rightarrow>
                    if amount > 0
                    then scaled [(1099511627776, ''TB''), (1073741824, ''GB''), (1048576, ''MB''), (1024, ''KB'')] amount
                    else []
                | None \<Rightarrow> [])
           | _ \<Rightarrow> []))"

definition sub_field :: "json option \<Rightarrow> string \<Rightarrow> json option" where
  "sub_field v k = Option.bind v (\<lambda>j. jget j k)"

definition uptime_text :: "json option \<Rightarrow> string" where
  "uptime_text v =
     (case Option.bind v as_u64 of
        Some seconds \<Rightarrow>
          if seconds > 100 * 365 * 24 * 3600 then []
          else
            let days = seconds div 86400; hours = seconds div 3600 mod 24; minutes = seconds div 60 mod 60;
                tail = show_nat hours @ (ustr [0x5c0f, 0x65f6]) @ '' '' @ show_nat minutes @ (ustr [0x5206])
            in if days > 0 then show_nat days @ (ustr [0x5929]) @ '' '' @ tail else tail
      | None \<Rightarrow> [])"

definition from_snapshot :: "json_map \<Rightarrow> string \<Rightarrow> string \<Rightarrow> device_info" where
  "from_snapshot fs version nickname =
     (let device = map_of fs ''device''; system = map_of fs ''system''; battery = map_of fs ''battery'';
          thermal = map_of fs ''thermal''; traffic = map_of fs ''traffic''; sim = map_of fs ''sim'';
          market = safe_info_text (sub_field device ''market_name'') 80;
          model = (if market = [] then safe_info_text (sub_field device ''model_name'') 80 else market);
          msisdn = safe_info_text (sub_field sim ''msisdn'') 32
      in \<lparr>di_model = model, di_nickname = nickname,
          di_firmware = safe_info_text (sub_field system ''sw_version'') 128,
          di_daily_flow = total_bytes traffic ''day_rx_bytes'' ''day_tx_bytes'',
          di_monthly_flow = total_bytes traffic ''month_rx_bytes'' ''month_tx_bytes'',
          di_battery_level = (case Option.bind (sub_field battery ''percent'') as_u64 of
             Some p \<Rightarrow> if p \<le> 100 then show_nat p @ ''%'' else [] | None \<Rightarrow> []),
          di_battery_temp = measured (sub_field battery ''temp'') (- 40) 120 (ustr [0xb0, 0x43]),
          di_cpu_temp = measured (sub_field thermal ''cpu_celsius'') (- 40) 150 (ustr [0xb0, 0x43]),
          di_cpu_usage = measured (sub_field system ''cpu_usage'') 0 100 ''%'',
          di_mem_usage = measured (sub_field system ''mem_used_pct'') 0 100 ''%'',
          di_uptime = uptime_text (sub_field system ''uptime''),
          di_datad_version = version,
          di_msisdn = (if valid_phone msisdn then msisdn else [])\<rparr>)"

definition info_name :: "device_info \<Rightarrow> string" where
  "info_name d =
     (if di_model d \<noteq> [] \<and> di_nickname d \<noteq> [] \<and> di_model d \<noteq> di_nickname d
      then di_model d @ '' ('' @ di_nickname d @ '')''
      else if di_model d \<noteq> [] then di_model d
      else if di_nickname d \<noteq> [] then di_nickname d
      else [])"

definition line_feed :: string where "line_feed = [CHR 0x0A]"

definition info_details :: "device_info \<Rightarrow> string" where
  "info_details d =
     (let rows = [((ustr [0x8bbe, 0x5907, 0x540d, 0x79f0]), info_name d), ((ustr [0x56fa, 0x4ef6, 0x7248, 0x672c]), di_firmware d), ((ustr [0x5f53, 0x65e5, 0x7528, 0x91cf]), di_daily_flow d),
            ((ustr [0x672c, 0x6708, 0x7528, 0x91cf]), di_monthly_flow d), ((ustr [0x7535, 0x6c60, 0x7535, 0x91cf]), di_battery_level d), ((ustr [0x7535, 0x6c60, 0x6e29, 0x5ea6]), di_battery_temp d),
            ((ustr [0x43, 0x50, 0x55, 0x6e29, 0x5ea6]), di_cpu_temp d), ((ustr [0x43, 0x50, 0x55, 0x5360, 0x7528]), di_cpu_usage d), ((ustr [0x5185, 0x5b58, 0x5360, 0x7528]), di_mem_usage d),
            ((ustr [0x5f00, 0x673a, 0x65f6, 0x957f]), di_uptime d), ((ustr [0x64, 0x61, 0x74, 0x61, 0x64, 0x7248, 0x672c]), di_datad_version d)];
          filled = map (\<lambda>(label, v). label @ '': '' @ v) (filter (\<lambda>(label, v). v \<noteq> []) rows)
      in join line_feed (ustr [0x8bbe, 0x5907, 0x4fe1, 0x606f] # (if filled = [] then [(ustr [0x6682, 0x4e0d, 0x53ef, 0x7528])] else filled)))"

definition sms_line :: "device_info \<Rightarrow> string" where
  "sms_line d = join '' '' (filter (\<lambda>v. v \<noteq> []) [di_model d, di_battery_level d, di_msisdn d])"

section \<open>Destinations\<close>

record fwd_destination =
  ds_method :: string
  ds_webhook_url :: string
  ds_dingtalk_webhook :: string
  ds_dingtalk_secret :: string
  ds_sms_to_phone :: "string list"
  ds_smtp :: smtp_settings
  ds_include_device_info :: bool
  ds_nickname :: string
  ds_device_info :: "device_info option"

definition delivery :: "forwarder \<Rightarrow> fwd_destination" where
  "delivery s =
     (let c = fw_config s in
      \<lparr>ds_method = fc_method c, ds_webhook_url = fc_webhook_url c, ds_dingtalk_webhook = fc_dingtalk_webhook c,
       ds_dingtalk_secret = fc_dingtalk_secret c, ds_sms_to_phone = fc_sms_to_phone c, ds_smtp = fc_smtp c,
       ds_include_device_info =
         (if fc_method c = ''smtp'' then fc_smtp_forward_device_info c
          else if fc_method c = ''dingtalk'' then fc_dingtalk_forward_device_info c
          else if fc_method c = ''sms'' then fc_sms_forward_device_info c
          else False),
       ds_nickname = fc_nickname c, ds_device_info = None\<rparr>)"

definition attach_device_info :: "json_map \<Rightarrow> string \<Rightarrow> fwd_destination \<Rightarrow> fwd_destination" where
  "attach_device_info fs version d =
     (if ds_include_device_info d then d\<lparr>ds_device_info := Some (from_snapshot fs version (ds_nickname d))\<rparr> else d)"

definition force_device_info :: "json_map \<Rightarrow> string \<Rightarrow> fwd_destination \<Rightarrow> fwd_destination" where
  "force_device_info fs version d = attach_device_info fs version (d\<lparr>ds_include_device_info := True\<rparr>)"

definition test_message :: fwd_message where
  "test_message = \<lparr>ms_from = ''NMS'', ms_text = (ustr [0x7a, 0x77, 0x72, 0x74, 0x2d, 0x64, 0x61, 0x74, 0x61, 0x64, 0x20, 0x77ed, 0x4fe1, 0x8f6c, 0x53d1, 0x6d4b, 0x8bd5]), ms_date = [], ms_kind = KSms\<rparr>"

definition device_info_message :: fwd_message where
  "device_info_message = \<lparr>ms_from = ''DeviceInfo'', ms_text = [], ms_date = [], ms_kind = KDevice\<rparr>"

section \<open>Texts\<close>

definition with_device_info :: "string \<Rightarrow> device_info option \<Rightarrow> string" where
  "with_device_info body info =
     (case info of Some d \<Rightarrow> body @ line_feed @ line_feed @ info_details d | None \<Rightarrow> body)"

definition info_or_absent :: "device_info option \<Rightarrow> string" where
  "info_or_absent info = (case info of Some d \<Rightarrow> info_details d | None \<Rightarrow> (ustr [0x8bbe, 0x5907, 0x4fe1, 0x606f, 0x6682, 0x4e0d, 0x53ef, 0x7528]))"

definition smtp_content :: "fwd_message \<Rightarrow> device_info option \<Rightarrow> string \<times> string" where
  "smtp_content m info =
     (case ms_kind m of
        KDevice \<Rightarrow> ((ustr [0x8bbe, 0x5907, 0x4fe1, 0x606f]), info_or_absent info)
      | KPower \<Rightarrow> ((ustr [0x7535, 0x6e90, 0x72b6, 0x6001, 0x901a, 0x77e5]), with_device_info (ms_text m) info)
      | KSms \<Rightarrow> ((ustr [0x65b0, 0x77ed, 0x4fe1, 0x901a, 0x77e5]), with_device_info ((ustr [0x6765, 0x81ea, 0x20]) @ ms_from m @ '':'' @ line_feed @ ms_text m) info))"

definition dingtalk_content :: "fwd_message \<Rightarrow> device_info option \<Rightarrow> string" where
  "dingtalk_content m info =
     (case ms_kind m of
        KDevice \<Rightarrow> info_or_absent info
      | KPower \<Rightarrow> with_device_info ((ustr [0x7535, 0x6e90, 0x72b6, 0x6001, 0x901a, 0x77e5]) @ line_feed @ ms_text m) info
      | KSms \<Rightarrow> with_device_info ((ustr [0x77ed, 0x4fe1, 0x6765, 0x81ea, 0x20]) @ ms_from m @ line_feed @ ms_text m) info)"

definition max_sms_units :: nat where "max_sms_units = 280"

definition sms_body :: "fwd_message \<Rightarrow> device_info option \<Rightarrow> string + string" where
  "sms_body m info =
     (let line = (case info of Some d \<Rightarrow> sms_line d | None \<Rightarrow> []) in
      if ms_kind m = KDevice
      then (if line = [] then Inl ''source_unavailable'' else Inr ((ustr [0x8bbe, 0x5907, 0x4fe1, 0x606f]) @ '':'' @ line_feed @ line))
      else
        let body = (if ms_kind m = KPower then (ustr [0x7535, 0x6e90, 0x72b6, 0x6001, 0x901a, 0x77e5]) @ '':'' @ line_feed @ ms_text m
                    else (ustr [0x6765, 0x81ea, 0x20]) @ ms_from m @ '':'' @ line_feed @ ms_text m)
        in Inr (if line = [] then body else body @ line_feed @ line))"

definition sms_message_hex :: "fwd_message \<Rightarrow> device_info option \<Rightarrow> string + string" where
  "sms_message_hex m info =
     (case sms_body m info of
        Inl e \<Rightarrow> Inl e
      | Inr body \<Rightarrow>
          let units = encode_utf16 body in
          if units = [] \<or> length units > max_sms_units then Inl ''message_too_long''
          else Inr (concat (map hex4 units)))"

section \<open>Delivery\<close>

record post_response =
  hr_success :: bool
  hr_length :: "nat option"
  hr_date :: "string option"
  hr_chunks :: "bytes option list"

datatype outbound =
    HttpGet origin_url "(ip_addr \<times> nat) list"
  | HttpPost origin_url "(ip_addr \<times> nat) list" json
  | Mail smtp_wire
  | SimSend json bool

record delivery_env =
  dv_up :: url_parser
  dv_port :: "origin_url \<Rightarrow> nat option"
  dv_lookup :: "string \<Rightarrow> nat \<Rightarrow> (ip_addr \<times> nat) list option"
  dv_client :: bool
  dv_get :: "origin_url \<Rightarrow> post_response option"
  dv_post :: "origin_url \<Rightarrow> json \<Rightarrow> post_response option"
  dv_health :: "origin_url \<Rightarrow> origin_url"
  dv_http_date :: "string \<Rightarrow> nat option"
  dv_hmac :: "string \<Rightarrow> string \<Rightarrow> string"
  dv_query :: "origin_url \<Rightarrow> (string \<times> string) list \<Rightarrow> origin_url"
  dv_json :: "bytes \<Rightarrow> json option"
  dv_smtp :: smtp_env
  dv_clock :: "clock option"
  dv_sim :: "nat \<Rightarrow> json \<Rightarrow> bool"

text \<open>The addresses a client is pinned to: every answer of the resolver has to be public.\<close>

definition public_client :: "delivery_env \<Rightarrow> origin_url \<Rightarrow> string + (ip_addr \<times> nat) list" where
  "public_client e u =
     (case (url_host_str u, dv_port e u) of
        (Some host, Some port) \<Rightarrow>
          (case dv_lookup e host port of
             None \<Rightarrow> Inl ''destination_unavailable''
           | Some addresses \<Rightarrow>
               if addresses = [] \<or> list_ex (\<lambda>a. \<not> public_ip (fst a)) addresses then Inl ''invalid_destination''
               else if dv_client e then Inr addresses else Inl ''destination_unavailable'')
      | _ \<Rightarrow> Inl ''invalid_destination'')"

definition timestamp_from_http_date :: "delivery_env \<Rightarrow> string \<Rightarrow> string + string" where
  "timestamp_from_http_date e date =
     (case dv_http_date e date of Some ms \<Rightarrow> Inr (show_nat ms) | None \<Rightarrow> Inl ''clock_unavailable'')"

definition trusted_timestamp_ms :: "delivery_env \<Rightarrow> string \<Rightarrow> (string + string) \<times> outbound list" where
  "trusted_timestamp_ms e origin =
     (case destination (dv_up e) origin ''webhook'' of
        Inl _ \<Rightarrow> (Inl ''clock_unavailable'', [])
      | Inr u0 \<Rightarrow>
          let u = dv_health e u0 in
          (case public_client e u of
             Inl _ \<Rightarrow> (Inl ''clock_unavailable'', [])
           | Inr addresses \<Rightarrow>
               (case dv_get e u of
                  Some r \<Rightarrow>
                    (case (hr_success r, hr_date r) of
                       (True, Some date) \<Rightarrow> (timestamp_from_http_date e date, [HttpGet u addresses])
                     | _ \<Rightarrow> (Inl ''clock_unavailable'', [HttpGet u addresses]))
                | None \<Rightarrow> (Inl ''clock_unavailable'', [HttpGet u addresses]))))"

fun read_body :: "bytes \<Rightarrow> bytes option list \<Rightarrow> bytes option" where
  "read_body acc [] = Some acc"
| "read_body acc (None # _) = None"
| "read_body acc (Some chunk # rest) =
     (if length acc + length chunk > 4096 then None else read_body (acc @ chunk) rest)"

definition post_payload ::
  "delivery_env \<Rightarrow> origin_url \<Rightarrow> (ip_addr \<times> nat) list \<Rightarrow> json \<Rightarrow> string \<Rightarrow> (string + unit) \<times> outbound list" where
  "post_payload e u addresses body method =
     ((case dv_post e u body of
         None \<Rightarrow> Inl ''delivery_failed''
       | Some r \<Rightarrow>
           if \<not> hr_success r \<or> (case hr_length r of Some n \<Rightarrow> n > 4096 | None \<Rightarrow> False) then Inl ''delivery_failed''
           else (case read_body [] (hr_chunks r) of
                   None \<Rightarrow> Inl ''delivery_failed''
                 | Some bytes \<Rightarrow>
                     if method = ''dingtalk''
                        \<and> Option.bind (Option.bind (dv_json e bytes) (\<lambda>v. jget v ''errcode'')) as_i64 \<noteq> Some 0
                     then Inl ''delivery_failed'' else Inr ())),
      [HttpPost u addresses body])"

fun sim_sends :: "(nat \<Rightarrow> json \<Rightarrow> bool) \<Rightarrow> fwd_message \<Rightarrow> string \<Rightarrow> string \<Rightarrow> nat \<Rightarrow> string list
    \<Rightarrow> (string + unit) \<times> outbound list" where
  "sim_sends sim m hex time sent [] =
     (if sent = 0 then Inl ''self_forward_blocked'' else Inr (), [])"
| "sim_sends sim m hex time sent (phone # phones) =
     (if phone_matches phone (ms_from m) then sim_sends sim m hex time sent phones
      else
        let params = jobj [(''sender'', JString ''host''), (''number'', JString phone), (''message_hex'', JString hex),
              (''sms_time'', JString time)]
        in if \<not> sim sent params then (Inl ''delivery_failed'', [SimSend params False])
           else (case sim_sends sim m hex time (Suc sent) phones of
                   (r, out) \<Rightarrow> (r, SimSend params True # out)))"

definition sms_time :: "clock \<Rightarrow> string" where
  "sms_time k =
     slice (ck_date k) 2 4 @ '';'' @ slice (ck_date k) 5 7 @ '';'' @ slice (ck_date k) 8 10 @ '';''
     @ slice (ck_time k) 0 2 @ '';'' @ slice (ck_time k) 3 5 @ '';00;+;0''"

definition deliver_sms :: "delivery_env \<Rightarrow> fwd_destination \<Rightarrow> fwd_message \<Rightarrow> (string + unit) \<times> outbound list" where
  "deliver_sms e d m =
     (case sms_message_hex m (ds_device_info d) of
        Inl err \<Rightarrow> (Inl err, [])
      | Inr hex \<Rightarrow>
          (case dv_clock e of
             None \<Rightarrow> (Inl ''clock_unavailable'', [])
           | Some k \<Rightarrow> sim_sends (dv_sim e) m hex (sms_time k) 0 (ds_sms_to_phone d)))"

definition webhook_body :: "fwd_destination \<Rightarrow> fwd_message \<Rightarrow> string + json" where
  "webhook_body d m =
     (case ms_kind m of
        KDevice \<Rightarrow>
          (case ds_device_info d of
             None \<Rightarrow> Inl ''source_unavailable''
           | Some info \<Rightarrow> Inr (jobj [(''kind'', JString ''device''), (''text'', JString (info_details info)),
                 (''date'', JString (ms_date m))]))
      | KPower \<Rightarrow> Inr (jobj [(''kind'', JString ''power''), (''from'', JString (ms_from m)), (''text'', JString (ms_text m)),
            (''date'', JString (ms_date m))])
      | KSms \<Rightarrow> Inr (jobj [(''from'', JString (ms_from m)), (''text'', JString (ms_text m)), (''date'', JString (ms_date m))]))"

definition dingtalk_url ::
  "delivery_env \<Rightarrow> string \<Rightarrow> fwd_destination \<Rightarrow> origin_url \<Rightarrow> (string + origin_url) \<times> outbound list" where
  "dingtalk_url e time_origin d u =
     (if ds_dingtalk_secret d = [] then (Inr u, [])
      else
        (case trusted_timestamp_ms e time_origin of
           (Inl err, out) \<Rightarrow> (Inl err, out)
         | (Inr stamp, out) \<Rightarrow>
             (Inr (dv_query e u [(''timestamp'', stamp),
                (''sign'', dv_hmac e (ds_dingtalk_secret d) (stamp @ line_feed @ ds_dingtalk_secret d))]), out)))"

definition post_to ::
  "delivery_env \<Rightarrow> origin_url \<Rightarrow> json \<Rightarrow> string \<Rightarrow> outbound list \<Rightarrow> (string + unit) \<times> outbound list" where
  "post_to e u body method out =
     (case public_client e u of
        Inl err \<Rightarrow> (Inl err, out)
      | Inr addresses \<Rightarrow> (case post_payload e u addresses body method of (r, out1) \<Rightarrow> (r, out @ out1)))"

definition deliver_with_clock_gate ::
  "delivery_env \<Rightarrow> fwd_destination \<Rightarrow> string \<Rightarrow> fwd_message \<Rightarrow> bool \<Rightarrow> (string + unit) \<times> outbound list" where
  "deliver_with_clock_gate e d time_origin m changing =
     (if changing then (Inl ''clock_unavailable'', [])
      else if ds_method d = ''sms'' then deliver_sms e d m
      else if ds_method d = ''smtp''
      then (case smtp_content m (ds_device_info d) of
              (subject, body) \<Rightarrow>
                (case smtp_send (dv_smtp e) (ds_smtp d) subject body of (r, w) \<Rightarrow> (r, [Mail w])))
      else
        (case destination (dv_up e)
                (if ds_method d = ''dingtalk'' then ds_dingtalk_webhook d else ds_webhook_url d) (ds_method d) of
           Inl err \<Rightarrow> (Inl err, [])
         | Inr u \<Rightarrow>
             if ds_method d = ''dingtalk''
             then (case dingtalk_url e time_origin d u of
                     (Inl err, out) \<Rightarrow> (Inl err, out)
                   | (Inr u1, out) \<Rightarrow>
                       post_to e u1 (jobj [(''msgtype'', JString ''text''),
                          (''text'', jobj [(''content'', JString (dingtalk_content m (ds_device_info d)))])]) (ds_method d) out)
             else (case webhook_body d m of
                     Inl err \<Rightarrow> (Inl err, [])
                   | Inr body \<Rightarrow> post_to e u body (ds_method d) [])))"

section \<open>What leaves the device\<close>

lemma sim_sends_targets:
  assumes "sim_sends sim m hex time sent phones = (r, out)"
  shows "length out \<le> length (sms_targets phones m)
    \<and> (\<forall>a\<in>set out. \<exists>params ok. a = SimSend params ok
         \<and> (\<exists>phone\<in>set (sms_targets phones m). jget params ''number'' = Some (JString phone)))
    \<and> (r = Inr () \<longrightarrow> length out = length (sms_targets phones m))"
  using assms
proof (induction sim m hex time sent phones arbitrary: r out rule: sim_sends.induct)
  case (2 sim m hex time sent phone phones)
  show ?case
  proof (cases "phone_matches phone (ms_from m)")
    case True
    then show ?thesis using 2(1) [of r out] 2(3) by (simp add: sms_targets_def)
  next
    case False
    define params where "params = jobj [(''sender'', JString ''host''), (''number'', JString phone), (''message_hex'', JString hex),
              (''sms_time'', JString time)]"
    have num: "jget params ''number'' = Some (JString phone)" by (simp add: params_def jobj_def)
    have t: "sms_targets (phone # phones) m = phone # sms_targets phones m" using False by (simp add: sms_targets_def)
    show ?thesis
    proof (cases "sim sent params")
      case fail: False
      then have "r = Inl ''delivery_failed''" "out = [SimSend params False]" using 2(3) False by (simp_all add: params_def)
      then show ?thesis using t num by auto
    next
      case True
      obtain r1 out1 where rest: "sim_sends sim m hex time (Suc sent) phones = (r1, out1)" by fastforce
      then have "r = r1" "out = SimSend params True # out1" using 2(3) False True by (simp_all add: params_def)
      then show ?thesis using 2(2) [OF False refl _ rest] True t num by (auto simp: params_def)
    qed
  qed
qed (auto simp: sms_targets_def split: if_splits)

lemma deliver_sms_targets:
  assumes "deliver_sms e d m = (r, out)"
  shows "length out \<le> length (sms_targets (ds_sms_to_phone d) m)
    \<and> (\<forall>a\<in>set out. \<exists>params ok. a = SimSend params ok
         \<and> (\<exists>phone\<in>set (sms_targets (ds_sms_to_phone d) m). jget params ''number'' = Some (JString phone)))"
  using assms sim_sends_targets [of "dv_sim e" m _ _ 0 "ds_sms_to_phone d" r out]
  by (auto simp: deliver_sms_def split: sum.splits option.splits)

text \<open>A request: over HTTPS, to a host given by name, all of whose addresses are public.\<close>

definition https_name :: "origin_url \<Rightarrow> bool" where
  "https_name u \<longleftrightarrow> url_scheme u = ''https''
     \<and> (case url_host_str u of
          Some h \<Rightarrow> parse_ip h = None \<and> str_contains ''.'' h \<and> \<not> ends_with ''.local'' h \<and> \<not> ends_with ''.internal'' h
        | None \<Rightarrow> False)"

fun request_ok :: "string \<Rightarrow> outbound \<Rightarrow> bool" where
  "request_ok method (HttpGet u addresses) \<longleftrightarrow>
     https_name u \<and> addresses \<noteq> [] \<and> list_all (\<lambda>a. public_ip (fst a)) addresses"
| "request_ok method (HttpPost u addresses body) \<longleftrightarrow>
     https_name u \<and> addresses \<noteq> [] \<and> list_all (\<lambda>a. public_ip (fst a)) addresses
     \<and> (method = ''dingtalk'' \<longrightarrow> url_host_str u = Some ''oapi.dingtalk.com'' \<and> url_path u = ''/robot/send'')"
| "request_ok method (Mail w) = True"
| "request_ok method (SimSend p ok) \<longleftrightarrow> method = ''sms''"

definition same_target :: "origin_url \<Rightarrow> origin_url \<Rightarrow> bool" where
  "same_target u v \<longleftrightarrow> url_scheme u = url_scheme v \<and> url_host_str u = url_host_str v"

lemma destination_https:
  assumes "destination up raw method = Inr u"
  shows "https_name u \<and> (method = ''dingtalk'' \<longrightarrow> url_host_str u = Some ''oapi.dingtalk.com'' \<and> url_path u = ''/robot/send'')"
  using assms by (auto simp: destination_def https_name_def split: if_splits option.splits)

lemma public_client_addresses:
  "public_client e u = Inr addresses \<Longrightarrow> addresses \<noteq> [] \<and> list_all (\<lambda>a. public_ip (fst a)) addresses"
  by (auto simp: public_client_def list_ex_iff list_all_iff split: option.splits if_splits)

lemma timestamp_requests:
  assumes "\<And>u. same_target (dv_health e u) u" and "trusted_timestamp_ms e origin = (r, out)"
  shows "list_all (request_ok method) out"
proof (cases "destination (dv_up e) origin ''webhook''")
  case (Inr u)
  have "https_name (dv_health e u)"
    using destination_https [OF Inr] assms(1) [of u] by (simp add: same_target_def https_name_def)
  then show ?thesis
    using assms(2) Inr public_client_addresses [of e "dv_health e u"]
    by (auto simp: trusted_timestamp_ms_def Let_def split: sum.splits option.splits bool.splits)
qed (use assms(2) in \<open>auto simp: trusted_timestamp_ms_def\<close>)

lemma post_requests:
  assumes "https_name u" "list_all (request_ok method) out" "post_to e u body method out = (r, out1)"
    and "method = ''dingtalk'' \<longrightarrow> url_host_str u = Some ''oapi.dingtalk.com'' \<and> url_path u = ''/robot/send''"
  shows "list_all (request_ok method) out1"
  using assms public_client_addresses [of e u]
  by (auto simp: post_to_def post_payload_def split: sum.splits)

lemma sms_requests: "deliver_sms e d m = (r, out) \<Longrightarrow> list_all (request_ok ''sms'') out"
  using deliver_sms_targets [of e d m r out] by (fastforce simp: list_all_iff)

text \<open>
  C24: a delivery over HTTP reaches public hosts only.  When the query editor and the path editor of the URL type keep
  scheme and host (and the query editor the path), every request of a delivery, the one for the time included, goes
  over HTTPS to a host given by name outside the local domains, whose resolved addresses are all public, and with the
  DingTalk method to its one endpoint; a message through the SIM goes out with the SMS method only.
\<close>

theorem forward_requests_public:
  assumes "\<And>u. same_target (dv_health e u) u"
    and "\<And>u q. same_target (dv_query e u q) u \<and> url_path (dv_query e u q) = url_path u"
    and "deliver_with_clock_gate e d time_origin m changing = (r, out)"
  shows "list_all (request_ok (ds_method d)) out"
proof -
  consider "changing" | "\<not> changing" "ds_method d = ''sms''" | "\<not> changing" "ds_method d = ''smtp''"
    | "\<not> changing" "ds_method d \<noteq> ''sms''" "ds_method d \<noteq> ''smtp''" by blast
  then show ?thesis
  proof cases
    case 4
    let ?raw = "if ds_method d = ''dingtalk'' then ds_dingtalk_webhook d else ds_webhook_url d"
    show ?thesis
    proof (cases "destination (dv_up e) ?raw (ds_method d)")
      case (Inl err)
      then show ?thesis using assms(3) 4 by (simp add: deliver_with_clock_gate_def)
    next
      case (Inr u)
      note u = destination_https [OF Inr]
      show ?thesis
      proof (cases "ds_method d = ''dingtalk''")
        case True
        obtain q out0 where q: "dingtalk_url e time_origin d u = (q, out0)" by fastforce
        then have out0: "list_all (request_ok ''dingtalk'') out0"
          using timestamp_requests [OF assms(1)]
          by (auto simp: dingtalk_url_def split: if_splits prod.splits sum.splits)
        show ?thesis
        proof (cases q)
          case (Inl err)
          then show ?thesis using assms(3) 4 Inr True q out0 by (simp add: deliver_with_clock_gate_def)
        next
          case u1: (Inr u1)
          then have "u1 = u \<or> (\<exists>ps. u1 = dv_query e u ps)"
            using q by (auto simp: dingtalk_url_def split: if_splits prod.splits sum.splits)
          then have ok: "https_name u1" "url_host_str u1 = Some ''oapi.dingtalk.com'' \<and> url_path u1 = ''/robot/send''"
            using u True assms(2) [of u] by (auto simp: same_target_def https_name_def)
          from assms(3) 4 Inr True q u1 obtain body where "post_to e u1 body ''dingtalk'' out0 = (r, out)"
            by (auto simp: deliver_with_clock_gate_def)
          from post_requests [OF ok(1) out0 this] ok(2) True show ?thesis by simp
        qed
      next
        case False
        then show ?thesis
          using assms(3) 4 Inr u post_requests [of u "ds_method d" "[]" e _ r out]
          by (auto simp: deliver_with_clock_gate_def split: sum.splits)
      qed
    qed
  qed (use assms(3) sms_requests in \<open>auto simp: deliver_with_clock_gate_def split: prod.splits\<close>)
qed

definition demo_http :: delivery_env where
  "demo_http = \<lparr>
     dv_up = (\<lambda>raw. if raw = ''https://hook.example.com/x''
        then Some \<lparr>url_scheme = ''https'', url_username = [], url_password = None, url_query = None, url_fragment = None,
          url_port = None, url_host_str = Some ''hook.example.com'', url_path = ''/x'', url_origin = ''https://hook.example.com''\<rparr>
        else None),
     dv_port = (\<lambda>_. Some 443), dv_lookup = (\<lambda>h p. Some [(V4 [93, 184, 216, 34], p)]), dv_client = True,
     dv_get = (\<lambda>_. None),
     dv_post = (\<lambda>_ _. Some \<lparr>hr_success = True, hr_length = Some 0, hr_date = None, hr_chunks = []\<rparr>),
     dv_health = (\<lambda>u. u), dv_http_date = (\<lambda>_. None), dv_hmac = (\<lambda>_ _. []), dv_query = (\<lambda>u _. u),
     dv_json = (\<lambda>_. None), dv_smtp = demo_smtp_env, dv_clock = Some demo_clock, dv_sim = (\<lambda>_ _. True)\<rparr>"

definition demo_hook :: fwd_destination where
  "demo_hook = \<lparr>ds_method = ''webhook'', ds_webhook_url = ''https://hook.example.com/x'', ds_dingtalk_webhook = [],
     ds_dingtalk_secret = [], ds_sms_to_phone = [], ds_smtp = smtp_settings_default, ds_include_device_info = False,
     ds_nickname = [], ds_device_info = None\<rparr>"

lemma demo_hook_delivery:
  "let (r, out) = deliver_with_clock_gate demo_http demo_hook [] test_message False in r = Inr () \<and> length out = 1"
  by code_simp

lemma forward_requests_public_witness:
  "list_all (request_ok ''webhook'') (snd (deliver_with_clock_gate demo_http demo_hook [] test_message False))
   \<and> snd (deliver_with_clock_gate demo_http demo_hook [] test_message False) \<noteq> []"
proof -
  obtain r out where out: "deliver_with_clock_gate demo_http demo_hook [] test_message False = (r, out)" by fastforce
  have "list_all (request_ok (ds_method demo_hook)) out"
    by (rule forward_requests_public [OF _ _ out]) (simp_all add: demo_http_def same_target_def)
  then show ?thesis using out demo_hook_delivery by (auto simp: demo_hook_def)
qed

section \<open>The text of an SMS\<close>

fun unhex4 :: "string \<Rightarrow> nat list" where
  "unhex4 (a # b # c # d # r) = (4096 * hex_val a + 256 * hex_val b + 16 * hex_val c + hex_val d) # unhex4 r"
| "unhex4 _ = []"

lemma hex_upper_digit: "n < 16 \<Longrightarrow> hex_val (hex_upper n) = n \<and> is_ascii_hexdigit (hex_upper n)"
proof -
  assume "n < 16"
  then have "n \<in> set [0..<16]" by simp
  moreover have "list_all (\<lambda>n. hex_val (hex_upper n) = n \<and> is_ascii_hexdigit (hex_upper n)) [0..<16]"
    by code_simp
  ultimately show ?thesis by (simp add: list_all_iff del: upt.simps upt_conv_Cons_Cons)
qed

lemma unhex4_hex4: "u < 65536 \<Longrightarrow> unhex4 (hex4 u @ r) = u # unhex4 r"
proof -
  assume u: "u < 65536"
  have "u = 4096 * (u div 4096) + 256 * (u div 256 mod 16) + 16 * (u div 16 mod 16) + u mod 16"
  proof -
    have a: "u = 16 * (u div 16) + u mod 16" by simp
    have b: "u div 16 = 16 * (u div 256) + u div 16 mod 16" using div_mult2_eq [of u 16 16] by (metis mult_div_mod_eq numeral_times_numeral semiring_norm(12,13))
    have c: "u div 256 = 16 * (u div 4096) + u div 256 mod 16" using div_mult2_eq [of u 256 16] by simp
    show ?thesis using a b c by linarith
  qed
  moreover have "u div 4096 mod 16 = u div 4096" using u by (simp add: less_mult_imp_div_less)
  moreover have "unhex4 (hex4 u @ r)
      = (4096 * (u div 4096 mod 16) + 256 * (u div 256 mod 16) + 16 * (u div 16 mod 16) + u mod 16) # unhex4 r"
    by (simp add: hex4_def hex_upper_digit)
  ultimately show ?thesis by metis
qed

lemma unhex4_units: "list_all (\<lambda>u. u < 65536) us \<Longrightarrow> unhex4 (concat (map hex4 us)) = us"
  by (induction us) (simp_all add: unhex4_hex4)

lemma code_point_bound: "code_point p < 6000000"
proof (induction p rule: code_point.induct)
  case (4 a b c d)
  then show ?case using cval_less [of a] cval_less [of b] cval_less [of c] cval_less [of d] by simp
next
  case (3 a b c)
  then show ?case using cval_less [of a] cval_less [of b] cval_less [of c] by simp
next
  case (2 a b)
  then show ?case using cval_less [of a] cval_less [of b] by simp
next
  case (1 a)
  then show ?case using cval_less [of a] by simp
qed auto

lemma utf16_units: "list_all (\<lambda>u. u < 65536) (encode_utf16 s)"
proof -
  have "list_all (\<lambda>u. u < 65536) (cp_utf16 n)" if "n < 6000000" for n
    using that by (auto simp: cp_utf16_def)
  then show ?thesis using code_point_bound by (auto simp: encode_utf16_def list_all_iff)
qed

text \<open>
  The text handed to the SIM reads back.  When a message can be sent by SMS, the hexadecimal text is a whole number of
  four-digit groups, at most 280, which are the UTF-16 code units of the body; a body that is empty or longer is refused.
\<close>

theorem sms_hex_roundtrip:
  assumes "sms_body m info = Inr body"
  shows "sms_message_hex m info =
      (if encode_utf16 body = [] \<or> 280 < length (encode_utf16 body) then Inl ''message_too_long''
       else Inr (concat (map hex4 (encode_utf16 body))))
    \<and> unhex4 (concat (map hex4 (encode_utf16 body))) = encode_utf16 body
    \<and> length (concat (map hex4 (encode_utf16 body))) = 4 * length (encode_utf16 body)
    \<and> list_all is_ascii_hexdigit (concat (map hex4 (encode_utf16 body)))"
proof -
  have "list_all is_ascii_hexdigit (hex4 u)" for u by (simp add: hex4_def hex_upper_digit)
  then have "list_all is_ascii_hexdigit (concat (map hex4 us))" for us by (induction us) auto
  moreover have "length (concat (map hex4 us)) = 4 * length us" for us by (induction us) (auto simp: hex4_def)
  ultimately show ?thesis
    using assms unhex4_units [OF utf16_units] by (simp add: sms_message_hex_def max_sms_units_def Let_def)
qed

lemma sms_hex_roundtrip_witness:
  "sms_message_hex \<lparr>ms_from = ''1'', ms_text = ''A'', ms_date = [], ms_kind = KSms\<rparr> None = Inr ''676581EA00200031003A000A0041''
   \<and> unhex4 ''676581EA00200031003A000A0041'' = [0x6765, 0x81EA, 0x20, 0x31, 0x3A, 0x0A, 0x41]"
proof -
  let ?m = "\<lparr>ms_from = ''1'', ms_text = ''A'', ms_date = [], ms_kind = KSms\<rparr>"
  have b: "sms_body ?m None = Inr (ustr [0x6765, 0x81EA, 0x20, 0x31, 0x3A, 0x0A, 0x41])" by code_simp
  have u: "encode_utf16 (ustr [0x6765, 0x81EA, 0x20, 0x31, 0x3A, 0x0A, 0x41]) = [0x6765, 0x81EA, 0x20, 0x31, 0x3A, 0x0A, 0x41]"
    by code_simp
  have h: "concat (map hex4 [0x6765, 0x81EA, 0x20, 0x31, 0x3A, 0x0A, 0x41]) = ''676581EA00200031003A000A0041''" by code_simp
  show ?thesis using sms_hex_roundtrip [OF b] unfolding u h by simp
qed

end
