(* ===== verification/Sms_App.thy ===== *)
theory Sms_App
  imports Sms_Delivery Task_Schedule
begin

text \<open>
  The parts of \<open>server.rs\<close> that drive the forwarder: the forwarding loop, the panel's update and test, the scheduled
  device report and the scheduled message.  Each runs with the forwarder locked, so that its calls form one step; the
  outcomes of file writes, the readings of the clock and the delivery environment of every call are inputs of the step.
\<close>

section \<open>Reserving and delivering\<close>

record send_in =
  si_io :: bool
  si_clk :: "clock option"
  si_changing :: bool
  si_env :: delivery_env
  si_deliver_changing :: bool
  si_fields :: json_map
  si_version :: string
  si_origin :: string

text \<open>
  What a step leaves: the results entered in the activity journal, and what went out, each with the day its
  reservation was charged to.
\<close>

record app_out =
  ao_records :: "(string \<times> (string + unit)) list"
  ao_sent :: "(string \<times> outbound) list"

definition no_out :: app_out where
  "no_out = \<lparr>ao_records = [], ao_sent = []\<rparr>"

definition reserve_and_deliver ::
  "send_in \<Rightarrow> fwd_destination \<Rightarrow> fwd_message \<Rightarrow> forwarder \<Rightarrow> (string + unit) \<times> (string \<times> outbound) list \<times> forwarder" where
  "reserve_and_deliver i d m s =
     (case reserve_sms (si_io i) m (si_clk i) (si_changing i) s of
        (Inl e, s1) \<Rightarrow> (Inl e, [], s1)
      | (Inr _, s1) \<Rightarrow>
          (case deliver_with_clock_gate (si_env i) d (si_origin i) m (si_deliver_changing i) of
             (r, out) \<Rightarrow> (r, map (Pair (fc_sms_quota_date (fw_config s1))) out, s1)))"

definition details_of :: "send_in \<Rightarrow> forwarder \<Rightarrow> fwd_destination" where
  "details_of i s = attach_device_info (si_fields i) (si_version i) (delivery s)"

section \<open>The forwarding loop\<close>

text \<open>The battery part of a tick; \<open>None\<close> is a lease that is refused while the clock is being changed.\<close>

definition power_tick :: "bool \<Rightarrow> clock option \<Rightarrow> bool \<Rightarrow> send_in \<Rightarrow> forwarder \<Rightarrow> app_out \<times> forwarder" where
  "power_tick io clk changing i s =
     (case observe_power io (map_of (si_fields i) ''battery'') clk changing s of
        (Inr (Some m), s1) \<Rightarrow>
          (case reserve_and_deliver i (details_of i s1) m s1 of
             (r, out, s2) \<Rightarrow> (\<lparr>ao_records = [(''power'', r)], ao_sent = out\<rparr>, mark_power_delivery r s2))
      | (Inr None, s1) \<Rightarrow> (no_out, s1)
      | (Inl e, s1) \<Rightarrow> (\<lparr>ao_records = [(''power'', Inl e)], ao_sent = []\<rparr>, mark_power_delivery (Inl e) s1))"

record next_in =
  ni_io :: bool
  ni_now :: "nat option"
  ni_changing :: bool
  ni_send :: send_in

definition add_out :: "app_out \<Rightarrow> app_out \<Rightarrow> app_out" where
  "add_out a b = \<lparr>ao_records = ao_records a @ ao_records b, ao_sent = ao_sent a @ ao_sent b\<rparr>"

fun forward_loop :: "(bytes \<Rightarrow> string) \<Rightarrow> json \<Rightarrow> next_in option list \<Rightarrow> forwarder \<Rightarrow> app_out \<times> forwarder" where
  "forward_loop sha snapshot [] s = (no_out, s)"
| "forward_loop sha snapshot (None # _) s = (no_out, s)"
| "forward_loop sha snapshot (Some n # ns) s =
     (case next_with_clock_gate sha (ni_io n) (ni_now n) snapshot (ni_changing n) s of
        (Inr None, s1) \<Rightarrow> (no_out, s1)
      | (Inl e, s1) \<Rightarrow>
          (no_out, if e = ''forward_storage_failed'' then mark_storage_failed s1 else mark_source_unavailable s1)
      | (Inr (Some m), s1) \<Rightarrow>
          let i = ni_send n; d = details_of i s1 in
          (case reserve_sms (si_io i) m (si_clk i) (si_changing i) s1 of
             (Inl e, s2) \<Rightarrow> (\<lparr>ao_records = [(''sms'', Inl e)], ao_sent = []\<rparr>, mark_delivery (Inl e) s2)
           | (Inr _, s2) \<Rightarrow>
               (case deliver_with_clock_gate (si_env i) d (si_origin i) m (si_deliver_changing i) of
                  (r, out) \<Rightarrow>
                    (case forward_loop sha snapshot ns (mark_delivery r s2) of
                       (out1, s3) \<Rightarrow>
                         (add_out \<lparr>ao_records = [(''sms'', r)], ao_sent = map (Pair (fc_sms_quota_date (fw_config s2))) out\<rparr> out1,
                          s3)))))"

text \<open>One round of the loop: the battery, then at most four messages of the inbox.\<close>

record tick_in =
  ti_power :: "(bool \<times> clock option \<times> bool \<times> send_in) option"
  ti_inbox :: "json option"
  ti_next :: "next_in option list"

definition forward_tick :: "(bytes \<Rightarrow> string) \<Rightarrow> tick_in \<Rightarrow> forwarder \<Rightarrow> app_out \<times> forwarder" where
  "forward_tick sha t s =
     (case ti_power t of
        None \<Rightarrow> (no_out, s)
      | Some (io, clk, changing, i) \<Rightarrow>
          (case power_tick io clk changing i s of
             (out, s1) \<Rightarrow>
               if \<not> fc_enabled (fw_config s1) then (out, s1)
               else
                 (case ti_inbox t of
                    None \<Rightarrow>
                      (add_out out \<lparr>ao_records = [(''sms'', Inl ''source_unavailable'')], ao_sent = []\<rparr>,
                       mark_source_unavailable s1)
                  | Some snapshot \<Rightarrow>
                      (case forward_loop sha snapshot (take 4 (ti_next t)) s1 of
                         (out1, s2) \<Rightarrow> (add_out out out1, s2)))))"

section \<open>Panel and tasks\<close>

text \<open>\<open>lease\<close> is whether the clock lease was given; \<open>inbox\<close> is what a fresh reading of the inbox returns.\<close>

definition with_power_support :: "json_map \<Rightarrow> json \<Rightarrow> json" where
  "with_power_support fs status =
     (case status of
        JObject m \<Rightarrow>
          JObject (map_insert ''power_supported'' (JBool (power_state (map_of fs ''battery'') \<noteq> None)) m)
      | v \<Rightarrow> v)"

definition panel_sms_forward_status :: "json_map \<Rightarrow> bool \<Rightarrow> clock option \<Rightarrow> forwarder \<Rightarrow> json" where
  "panel_sms_forward_status fs changing clk s = with_power_support fs (fwd_status changing clk s)"

definition panel_sms_forward_update ::
  "url_parser \<Rightarrow> (bytes \<Rightarrow> string) \<Rightarrow> bool \<Rightarrow> json_map \<Rightarrow> json option \<Rightarrow> bool \<Rightarrow> nat option \<Rightarrow> bool \<Rightarrow> clock option
   \<Rightarrow> fwd_update \<Rightarrow> forwarder \<Rightarrow> (string + json) \<times> forwarder" where
  "panel_sms_forward_update up sha lease fs inbox io now changing clk i s =
     (if \<not> lease then (Inl ''clock_change_in_progress'', s)
      else
        let battery = map_of fs ''battery'';
            update = (\<lambda>snap. case fwd_update_with up sha io now changing clk i snap battery s of
                        (r, s1) \<Rightarrow> (map_sum id (with_power_support fs) r, s1))
        in if requires_baseline i s
        then (case inbox of
                None \<Rightarrow> (Inl unavailable, s)
              | Some snap \<Rightarrow> update (Some snap))
        else update None)"

definition panel_sms_forward_test ::
  "bool \<Rightarrow> send_in \<Rightarrow> bool \<Rightarrow> clock option \<Rightarrow> forwarder \<Rightarrow> (string + json) \<times> app_out \<times> forwarder" where
  "panel_sms_forward_test lease i changing clk s =
     (if \<not> lease then (Inl ''clock_change_in_progress'', no_out, s)
      else
        (case reserve_and_deliver i (details_of i s) test_message s of
           (r, out, s1) \<Rightarrow>
             let s2 = mark_delivery r s1 in
             (map_sum id (\<lambda>_. panel_sms_forward_status (si_fields i) changing clk s2) r,
              \<lparr>ao_records = [(''test'', r)], ao_sent = out\<rparr>, s2)))"

definition scheduled_device_info_forward :: "send_in \<Rightarrow> forwarder \<Rightarrow> (string + unit) \<times> app_out \<times> forwarder" where
  "scheduled_device_info_forward i s =
     (if \<not> fc_enabled (fw_config s) then (Inl ''forward_disabled'', no_out, s)
      else
        (case reserve_and_deliver i (force_device_info (si_fields i) (si_version i) (delivery s)) device_info_message s of
           (r, out, s1) \<Rightarrow> (r, \<lparr>ao_records = [(''device_info'', r)], ao_sent = out\<rparr>, mark_delivery r s1)))"

text \<open>\<open>sent\<close> is the outcome of \<open>sms::send\<close>; \<open>None\<close> is the task's time limit.\<close>

definition send_scheduled_sms ::
  "bool \<Rightarrow> clock option \<Rightarrow> bool \<Rightarrow> bool option \<Rightarrow> task_input \<Rightarrow> clock \<Rightarrow> forwarder \<Rightarrow> (string + unit) \<times> app_out \<times> forwarder" where
  "send_scheduled_sms io clk changing sent input due s =
     (case scheduled_sms_params input due of
        None \<Rightarrow> (Inl ''invalid_parameters'', no_out, s)
      | Some params \<Rightarrow>
          (case reserve_scheduled_sms io clk changing s of
             (Inl _, s1) \<Rightarrow> (Inl ''rate_limited'', no_out, s1)
           | (Inr _, s1) \<Rightarrow>
               ((case sent of
                   Some True \<Rightarrow> Inr () | Some False \<Rightarrow> Inl ''execution_failed'' | None \<Rightarrow> Inl ''execution_timeout''),
                \<lparr>ao_records = [], ao_sent = [(fc_sms_quota_date (fw_config s1), SimSend params (sent = Some True))]\<rparr>, s1)))"

section \<open>Steps of the application\<close>

datatype app_event =
    ATick tick_in
  | AUpdate bool json_map "json option" bool "nat option" bool "clock option" fwd_update
  | ATest bool send_in bool "clock option"
  | ADeviceInfo send_in
  | AScheduled bool "clock option" bool "bool option" task_input clock
  | ARestart

fun app_step :: "url_parser \<Rightarrow> (bytes \<Rightarrow> string) \<Rightarrow> app_event \<Rightarrow> forwarder \<Rightarrow> forwarder" where
  "app_step up sha (ATick t) s = snd (forward_tick sha t s)"
| "app_step up sha (AUpdate lease fs inbox io now changing clk i) s =
     snd (panel_sms_forward_update up sha lease fs inbox io now changing clk i s)"
| "app_step up sha (ATest lease i changing clk) s = snd (snd (panel_sms_forward_test lease i changing clk s))"
| "app_step up sha (ADeviceInfo i) s = snd (snd (scheduled_device_info_forward i s))"
| "app_step up sha (AScheduled io clk changing sent input due) s =
     snd (snd (send_scheduled_sms io clk changing sent input due s))"
| "app_step up sha ARestart s = fwd_load up (fw_flash s)"

fun app_sent :: "(bytes \<Rightarrow> string) \<Rightarrow> app_event \<Rightarrow> forwarder \<Rightarrow> (string \<times> outbound) list" where
  "app_sent sha (ATick t) s = ao_sent (fst (forward_tick sha t s))"
| "app_sent sha (ATest lease i changing clk) s = ao_sent (fst (snd (panel_sms_forward_test lease i changing clk s)))"
| "app_sent sha (ADeviceInfo i) s = ao_sent (fst (snd (scheduled_device_info_forward i s)))"
| "app_sent sha (AScheduled io clk changing sent input due) s =
     ao_sent (fst (snd (send_scheduled_sms io clk changing sent input due s)))"
| "app_sent sha _ s = []"

text \<open>The messages handed to the SIM on account of a day.\<close>

fun is_sim :: "outbound \<Rightarrow> bool" where
  "is_sim (SimSend p ok) = True"
| "is_sim _ = False"

definition sims :: "string \<Rightarrow> (string \<times> outbound) list \<Rightarrow> nat" where
  "sims d out = length (filter (\<lambda>(day, a). day = d \<and> is_sim a) out)"

lemma sims_append [simp]: "sims d (a @ b) = sims d a + sims d b"
  by (simp add: sims_def)

lemma sims_Nil [simp]: "sims d [] = 0"
  by (simp add: sims_def)

text \<open>A step of the application as calls of the forwarder that reserve at least what it sends.\<close>

definition accounts ::
  "url_parser \<Rightarrow> (bytes \<Rightarrow> string) \<Rightarrow> forwarder \<Rightarrow> forwarder \<Rightarrow> (string \<times> outbound) list \<Rightarrow> bool" where
  "accounts up sha s s1 out \<longleftrightarrow>
     (\<exists>es. s1 = fwd_run up sha es s \<and> (\<forall>d. sims d out \<le> charged d (event_log granted (fwd_step up sha) es s)))"

lemma event_log_append: "event_log l st (a @ b) s = event_log l st a s @ event_log l st b (fold st a s)"
  by (induction a arbitrary: s) simp_all

lemma accounts_trans: "accounts up sha s s1 a \<Longrightarrow> accounts up sha s1 s2 b \<Longrightarrow> accounts up sha s s2 (a @ b)"
  unfolding accounts_def
proof (elim exE conjE)
  fix es fs
  assume "s1 = fwd_run up sha es s" "\<forall>d. sims d a \<le> charged d (event_log granted (fwd_step up sha) es s)"
    "s2 = fwd_run up sha fs s1" "\<forall>d. sims d b \<le> charged d (event_log granted (fwd_step up sha) fs s1)"
  then show "\<exists>es. s2 = fwd_run up sha es s \<and> (\<forall>d. sims d (a @ b) \<le> charged d (event_log granted (fwd_step up sha) es s))"
    by (intro exI [of _ "es @ fs"]) (simp add: event_log_append add_mono)
qed

lemma accounts_step: "s1 = fwd_step up sha e s \<Longrightarrow> accounts up sha s s1 []"
  unfolding accounts_def by (intro exI [of _ "[e]"]) simp

lemma accounts_refl: "accounts up sha s s []"
  unfolding accounts_def by (intro exI [of _ "[]"]) simp

lemma delivery_parts [simp]:
  "ds_method (delivery s) = fc_method (fw_config s)" "ds_sms_to_phone (delivery s) = fc_sms_to_phone (fw_config s)"
  "ds_method (attach_device_info fs v d) = ds_method d" "ds_sms_to_phone (attach_device_info fs v d) = ds_sms_to_phone d"
  "ds_method (force_device_info fs v d) = ds_method d" "ds_sms_to_phone (force_device_info fs v d) = ds_sms_to_phone d"
  by (simp_all add: delivery_def attach_device_info_def force_device_info_def Let_def)

lemma http_no_sim:
  "trusted_timestamp_ms e origin = (q, out) \<Longrightarrow> filter is_sim out = []"
  "dingtalk_url e origin d u = (q', out) \<Longrightarrow> filter is_sim out = []"
  "filter is_sim out = [] \<Longrightarrow> post_to e u body method out = (r, out1) \<Longrightarrow> filter is_sim out1 = []"
proof -
  have t: "trusted_timestamp_ms e origin = (q, out) \<Longrightarrow> filter is_sim out = []" for q out
    by (auto simp: trusted_timestamp_ms_def Let_def split: sum.splits option.splits bool.splits)
  then show "trusted_timestamp_ms e origin = (q, out) \<Longrightarrow> filter is_sim out = []" .
  show "dingtalk_url e origin d u = (q', out) \<Longrightarrow> filter is_sim out = []"
    using t by (auto simp: dingtalk_url_def split: if_splits prod.splits sum.splits)
  show "filter is_sim out = [] \<Longrightarrow> post_to e u body method out = (r, out1) \<Longrightarrow> filter is_sim out1 = []"
    by (auto simp: post_to_def post_payload_def split: sum.splits)
qed

lemma deliver_sims:
  assumes "deliver_with_clock_gate e d origin m changing = (r, out)"
  shows "length (filter is_sim out) \<le> (if ds_method d = ''sms'' then length (sms_targets (ds_sms_to_phone d) m) else 0)"
proof (cases "ds_method d = ''sms''")
  case True
  then have "changing \<and> out = [] \<or> deliver_sms e d m = (r, out)"
    using assms by (auto simp: deliver_with_clock_gate_def split: if_splits)
  then have "length out \<le> length (sms_targets (ds_sms_to_phone d) m)" using deliver_sms_targets by auto
  then show ?thesis using True le_trans [OF length_filter_le [of is_sim out]] by simp
next
  case False
  have "filter is_sim out = []"
  proof (cases "changing \<or> ds_method d = ''smtp''")
    case True
    then show ?thesis using assms False by (auto simp: deliver_with_clock_gate_def split: if_splits prod.splits)
  next
    case http: False
    let ?raw = "if ds_method d = ''dingtalk'' then ds_dingtalk_webhook d else ds_webhook_url d"
    consider err where "destination (dv_up e) ?raw (ds_method d) = Inl err"
      | u where "destination (dv_up e) ?raw (ds_method d) = Inr u" by (metis sum.exhaust)
    then show ?thesis
    proof cases
      case 1
      then show ?thesis using assms False http by (simp add: deliver_with_clock_gate_def)
    next
      case (2 u)
      obtain q o0 where q: "dingtalk_url e origin d u = (q, o0)" by fastforce
      show ?thesis
        using assms False http 2 q http_no_sim(2) [OF q] http_no_sim(3) [of o0 e _ _ _ r out] http_no_sim(3) [of "[]" e _ _ _ r out]
        by (auto simp: deliver_with_clock_gate_def split: if_splits sum.splits)
    qed
  qed
  then show ?thesis by simp
qed

lemma sims_day: "sims d (map (Pair day) out) = (if day = d then length (filter is_sim out) else 0)"
  by (induction out) (auto simp: sims_def)

lemma reserve_accounts:
  assumes "reserve_sms io m clk changing s = (Inr u, s1)"
    and "deliver_with_clock_gate e d origin m ch = (r, out)"
    and "ds_method d = fc_method (fw_config s)" "ds_sms_to_phone d = fc_sms_to_phone (fw_config s)"
  shows "accounts up sha s s1 (map (Pair (fc_sms_quota_date (fw_config s1))) out)"
proof -
  let ?e = "EReserve io m clk changing"
  have s1: "s1 = fwd_step up sha ?e s" using assms(1) by simp
  have "sims d' (map (Pair (fc_sms_quota_date (fw_config s1))) out) \<le> charged d' (granted ?e s)" for d'
    using deliver_sims [OF assms(2)] assms(1,3,4)
    by (auto simp: sims_day granted_def charged_def)
  then show ?thesis unfolding accounts_def using s1 by (intro exI [of _ "[?e]"]) simp
qed

lemma reserve_and_deliver_accounts:
  assumes "reserve_and_deliver i d m s = (r, out, s1)"
    and "ds_method d = fc_method (fw_config s)" "ds_sms_to_phone d = fc_sms_to_phone (fw_config s)"
  shows "accounts up sha s s1 out"
proof -
  obtain q s2 where q: "reserve_sms (si_io i) m (si_clk i) (si_changing i) s = (q, s2)" by fastforce
  show ?thesis
  proof (cases q)
    case (Inl e)
    then show ?thesis using assms(1) q
      by (auto simp: reserve_and_deliver_def intro!: accounts_step [of _ _ _ "EReserve (si_io i) m (si_clk i) (si_changing i)"])
  next
    case (Inr u)
    obtain r1 o1 where dl: "deliver_with_clock_gate (si_env i) d (si_origin i) m (si_deliver_changing i) = (r1, o1)" by fastforce
    then show ?thesis using assms(1) q Inr reserve_accounts [OF q [unfolded Inr] dl assms(2,3)]
      by (auto simp: reserve_and_deliver_def)
  qed
qed

lemma accounts_then_mark: "accounts up sha s s1 out \<Longrightarrow> s2 = fwd_step up sha e s1 \<Longrightarrow> accounts up sha s s2 out"
  using accounts_trans [OF _ accounts_step, of up sha s s1 out s2 e] by simp

lemma details_parts [simp]:
  "ds_method (details_of i s) = fc_method (fw_config s)" "ds_sms_to_phone (details_of i s) = fc_sms_to_phone (fw_config s)"
  by (simp_all add: details_of_def)

lemma power_tick_accounts: "power_tick io clk changing i s = (out, s1) \<Longrightarrow> accounts up sha s s1 (ao_sent out)"
proof -
  assume tick: "power_tick io clk changing i s = (out, s1)"
  let ?e = "EPower io (map_of (si_fields i) ''battery'') clk changing"
  obtain q s2 where q: "observe_power io (map_of (si_fields i) ''battery'') clk changing s = (q, s2)" by fastforce
  then have step: "accounts up sha s s2 []" by (intro accounts_step [of _ _ _ ?e]) simp
  consider e where "q = Inl e" | "q = Inr None" | m where "q = Inr (Some m)" by (metis sum.exhaust option.exhaust)
  then show ?thesis
  proof cases
    case (1 e)
    then have out: "ao_sent out = []" "s1 = fwd_step up sha (EMarkPower (Inl e)) s2" using tick q by (auto simp: power_tick_def)
    then show ?thesis using accounts_then_mark [OF step out(2)] by simp
  next
    case 2
    then show ?thesis using tick q step by (auto simp: power_tick_def no_out_def)
  next
    case 3
    obtain r o1 s3 where rd: "reserve_and_deliver i (details_of i s2) m s2 = (r, o1, s3)" by (cases "reserve_and_deliver i (details_of i s2) m s2") auto
    then have out: "ao_sent out = o1" "s1 = fwd_step up sha (EMarkPower r) s3"
      using tick q 3 by (auto simp: power_tick_def)
    have "accounts up sha s s3 ([] @ o1)"
      by (rule accounts_trans [OF step reserve_and_deliver_accounts [OF rd]]) simp_all
    then have "accounts up sha s s3 o1" by simp
    then show ?thesis using out(1) accounts_then_mark [OF _ out(2)] by simp
  qed
qed

lemma loop_accounts: "forward_loop sha snapshot ns s = (out, s1) \<Longrightarrow> accounts up sha s s1 (ao_sent out)"
proof (induction sha snapshot ns s arbitrary: out s1 rule: forward_loop.induct)
  case (3 sha snapshot n ns s)
  let ?e = "ENext (ni_io n) (ni_now n) snapshot (ni_changing n)"
  obtain q s2 where q: "next_with_clock_gate sha (ni_io n) (ni_now n) snapshot (ni_changing n) s = (q, s2)" by fastforce
  then have step: "accounts up sha s s2 []" by (intro accounts_step [of _ _ _ ?e]) simp
  consider e where "q = Inl e" | "q = Inr None" | m where "q = Inr (Some m)" by (metis sum.exhaust option.exhaust)
  then show ?case
  proof cases
    case (1 e)
    then have out: "ao_sent out = []" "s1 = fwd_step up sha (if e = ''forward_storage_failed'' then EMarkStorage else EMarkSource) s2"
      using 3(2) q by (auto simp: no_out_def)
    then show ?thesis using accounts_then_mark [OF step out(2)] by simp
  next
    case 2
    then show ?thesis using 3(2) q step by (auto simp: no_out_def)
  next
    case m: (3 m)
    let ?i = "ni_send n"
    obtain r s3 where r: "reserve_sms (si_io ?i) m (si_clk ?i) (si_changing ?i) s2 = (r, s3)" by fastforce
    show ?thesis
    proof (cases r)
      case (Inl e)
      then have "s3 = fwd_step up sha (EReserve (si_io ?i) m (si_clk ?i) (si_changing ?i)) s2" using r by simp
      then have s3: "accounts up sha s s3 []" using accounts_then_mark [OF step] by blast
      have out: "ao_sent out = []" "s1 = fwd_step up sha (EMark (Inl e)) s3"
        using 3(2) q m r Inl by (auto simp: Let_def)
      show ?thesis using accounts_then_mark [OF s3 out(2)] out(1) by simp
    next
      case (Inr u)
      obtain r1 o1 where dl: "deliver_with_clock_gate (si_env ?i) (details_of ?i s2) (si_origin ?i) m (si_deliver_changing ?i) = (r1, o1)"
        by fastforce
      obtain o2 s4 where rest: "forward_loop sha snapshot ns (mark_delivery r1 s3) = (o2, s4)" by fastforce
      have "accounts up sha s s3 ([] @ map (Pair (fc_sms_quota_date (fw_config s3))) o1)"
        by (rule accounts_trans [OF step reserve_accounts [OF r [unfolded Inr] dl]]) simp_all
      then have "accounts up sha s (mark_delivery r1 s3) (map (Pair (fc_sms_quota_date (fw_config s3))) o1)"
        using accounts_then_mark [of up sha s s3 _ _ "EMark r1"] by simp
      moreover have "accounts up sha (mark_delivery r1 s3) s4 (ao_sent o2)"
        using 3(1) q m r Inr dl rest by auto
      moreover have "ao_sent out = map (Pair (fc_sms_quota_date (fw_config s3))) o1 @ ao_sent o2" "s1 = s4"
        using 3(2) q m r Inr dl rest by (auto simp: Let_def add_out_def)
      ultimately show ?thesis using accounts_trans by simp
    qed
  qed
qed (auto simp: no_out_def accounts_refl)

lemma tick_accounts: "accounts up sha s (snd (forward_tick sha t s)) (ao_sent (fst (forward_tick sha t s)))"
proof (cases "ti_power t")
  case None
  then show ?thesis by (simp add: forward_tick_def no_out_def accounts_refl)
next
  case (Some p)
  obtain io clk changing i where p: "p = (io, clk, changing, i)" by (cases p)
  obtain out s1 where tick: "power_tick io clk changing i s = (out, s1)" by fastforce
  note power = power_tick_accounts [OF tick, of up sha]
  show ?thesis
  proof (cases "fc_enabled (fw_config s1)")
    case False
    then show ?thesis using Some p tick power by (simp add: forward_tick_def)
  next
    case True
    show ?thesis
    proof (cases "ti_inbox t")
      case None
      then show ?thesis
        using Some p tick True accounts_then_mark [OF power, of _ EMarkSource] by (simp add: forward_tick_def add_out_def)
    next
      case (Some snap)
      obtain out1 s2 where loop: "forward_loop sha snap (take 4 (ti_next t)) s1 = (out1, s2)" by fastforce
      show ?thesis
        using \<open>ti_power t = Some p\<close> p tick True Some loop accounts_trans [OF power loop_accounts [OF loop]]
        by (simp add: forward_tick_def add_out_def)
    qed
  qed
qed

lemma test_accounts: "accounts up sha s (snd (snd (panel_sms_forward_test lease i changing clk s))) (ao_sent (fst (snd (panel_sms_forward_test lease i changing clk s))))"
proof (cases lease)
  case True
  obtain r out s1 where rd: "reserve_and_deliver i (details_of i s) test_message s = (r, out, s1)"
    by (cases "reserve_and_deliver i (details_of i s) test_message s") auto
  have "accounts up sha s s1 out" by (rule reserve_and_deliver_accounts [OF rd]) simp_all
  from accounts_then_mark [OF this, of _ "EMark r"] show ?thesis using True rd by (simp add: panel_sms_forward_test_def Let_def)
qed (simp add: panel_sms_forward_test_def no_out_def accounts_refl)

lemma device_info_accounts:
  "accounts up sha s (snd (snd (scheduled_device_info_forward i s))) (ao_sent (fst (snd (scheduled_device_info_forward i s))))"
proof (cases "fc_enabled (fw_config s)")
  case True
  let ?d = "force_device_info (si_fields i) (si_version i) (delivery s)"
  obtain r out s1 where rd: "reserve_and_deliver i ?d device_info_message s = (r, out, s1)"
    by (cases "reserve_and_deliver i ?d device_info_message s") auto
  have "accounts up sha s s1 out" by (rule reserve_and_deliver_accounts [OF rd]) simp_all
  from accounts_then_mark [OF this, of _ "EMark r"] show ?thesis using True rd by (simp add: scheduled_device_info_forward_def)
qed (simp add: scheduled_device_info_forward_def no_out_def accounts_refl)

lemma scheduled_accounts:
  "accounts up sha s (snd (snd (send_scheduled_sms io clk changing sent input due s)))
     (ao_sent (fst (snd (send_scheduled_sms io clk changing sent input due s))))"
proof (cases "scheduled_sms_params input due")
  case (Some params)
  let ?e = "EReserveScheduled io clk changing"
  obtain r s1 where r: "reserve_scheduled_sms io clk changing s = (r, s1)" by fastforce
  then have s1: "s1 = fwd_step up sha ?e s" by simp
  show ?thesis
  proof (cases r)
    case (Inl err)
    then show ?thesis using Some r accounts_step [OF s1] by (simp add: send_scheduled_sms_def no_out_def)
  next
    case (Inr u)
    have "sims d [(fc_sms_quota_date (fw_config s1), SimSend params (sent = Some True))] \<le> charged d (granted ?e s)" for d
      using r Inr by (simp add: sims_def granted_def charged_def)
    then have "accounts up sha s s1 [(fc_sms_quota_date (fw_config s1), SimSend params (sent = Some True))]"
      unfolding accounts_def using s1 by (intro exI [of _ "[?e]"]) simp
    then show ?thesis using Some r Inr by (simp add: send_scheduled_sms_def)
  qed
qed (simp add: send_scheduled_sms_def no_out_def accounts_refl)

lemma update_accounts:
  "accounts up sha s (snd (panel_sms_forward_update up sha lease fs inbox io now changing clk i s)) []"
proof -
  have "accounts up sha s (snd (fwd_update_with up sha io now changing clk i snap battery s)) []" for snap battery
    by (rule accounts_step [of _ _ _ "EUpdate io now changing clk i snap battery"]) simp
  then show ?thesis
    using accounts_refl by (simp add: panel_sms_forward_update_def Let_def split: option.split prod.split) (metis snd_conv)
qed

lemma app_accounts: "accounts up sha s (app_step up sha e s) (app_sent sha e s)"
proof (cases e)
  case ARestart
  then show ?thesis using accounts_step [of "fwd_load up (fw_flash s)" up sha ERestart s] by simp
qed (simp_all add: tick_accounts test_accounts device_info_accounts scheduled_accounts update_accounts)

lemma run_accounts: "accounts up sha s (fold (app_step up sha) es s) (event_log (app_sent sha) (app_step up sha) es s)"
  by (induction es arbitrary: s) (auto simp: accounts_refl intro: accounts_trans [OF app_accounts])

text \<open>
  C10: at most sixty messages a day leave through the SIM.  Over any sequence of forwarding rounds, panel updates, panel
  tests, scheduled reports, scheduled messages and restarts, from any content of the ledger's file and with any
  outcomes of file writes, deliveries and readings of the clock, the messages handed to the SIM on account of one day
  are at most sixty.
\<close>

theorem sim_sends_bounded:
  assumes "sha_ok sha"
  shows "sims d (event_log (app_sent sha) (app_step up sha) es (fwd_load up f)) \<le> 60"
proof -
  obtain fs where "sims d (event_log (app_sent sha) (app_step up sha) es (fwd_load up f))
      \<le> charged d (event_log granted (fwd_step up sha) fs (fwd_load up f))"
    using run_accounts [of up sha "fwd_load up f" es] by (auto simp: accounts_def)
  also have "\<dots> \<le> 60"
    using allowance_run [OF assms fw_inv_load [of up f], where d = d and es = fs] by (simp add: max_sms_daily_sends_def)
  finally show ?thesis .
qed

definition demo_send_in :: send_in where
  "demo_send_in = \<lparr>si_io = True, si_clk = Some demo_clock, si_changing = False, si_env = demo_http, si_deliver_changing = False,
     si_fields = [], si_version = ''1.0'', si_origin = []\<rparr>"

lemma sim_sends_bounded_witness:
  "let sent = event_log (app_sent demo_sha) (app_step (\<lambda>_. None) demo_sha) [ATest True demo_send_in False (Some demo_clock)]
       (fwd_load (\<lambda>_. None) (Holds demo_config))
   in length sent = 1 \<and> sims ''2024-05-01'' sent = 1 \<and> sims ''2024-05-01'' sent \<le> 60"
proof -
  let ?sent = "event_log (app_sent demo_sha) (app_step (\<lambda>_. None) demo_sha) [ATest True demo_send_in False (Some demo_clock)]
       (fwd_load (\<lambda>_. None) (Holds demo_config))"
  have "length ?sent = 1 \<and> sims ''2024-05-01'' ?sent = 1" by code_simp
  then show ?thesis using sim_sends_bounded [OF demo_sha_ok] by (simp add: Let_def)
qed

text \<open>
  The guard of the scheduled message against an unreadable ledger is lost after a test: from a file that cannot be
  read, a scheduled message is refused, but once the panel's test has failed for want of a destination the next one is
  accepted and the file replaced by the defaults.
\<close>

lemma unreadable_ledger_replaced:
  assumes "si_changing i = False" "si_deliver_changing i = False" "dv_up (si_env i) [] = None" "valid_date (ck_date k)"
  shows "fst (reserve_scheduled_sms True (Some k) False (fwd_load up Corrupt)) = Inl ''invalid_config''"
    and "fst (reserve_scheduled_sms True (Some k) False (snd (snd (panel_sms_forward_test True i False None (fwd_load up Corrupt))))) = Inr ()"
    and "fw_flash (snd (reserve_scheduled_sms True (Some k) False (snd (snd (panel_sms_forward_test True i False None (fwd_load up Corrupt))))))
      = Holds (fwd_config_default\<lparr>fc_sms_quota_date := ck_date k, fc_sms_quota_used := 1\<rparr>)"
proof -
  have t: "snd (snd (panel_sms_forward_test True i False None (fwd_load up Corrupt)))
      = (fwd_load up Corrupt)\<lparr>fw_last_result := ''delivery_failed''\<rparr>"
    using assms(1-3)
    by (simp add: panel_sms_forward_test_def reserve_and_deliver_def reserve_sms_def fwd_load_def details_of_def
        attach_device_info_def delivery_def fwd_config_default_def deliver_with_clock_gate_def destination_def
        mark_delivery_def delivery_result_code_def Let_def)
  show "fst (reserve_scheduled_sms True (Some k) False (fwd_load up Corrupt)) = Inl ''invalid_config''"
    by (simp add: reserve_scheduled_sms_def fwd_load_def Let_def)
  show "fst (reserve_scheduled_sms True (Some k) False (snd (snd (panel_sms_forward_test True i False None (fwd_load up Corrupt))))) = Inr ()"
    "fw_flash (snd (reserve_scheduled_sms True (Some k) False (snd (snd (panel_sms_forward_test True i False None (fwd_load up Corrupt))))))
      = Holds (fwd_config_default\<lparr>fc_sms_quota_date := ck_date k, fc_sms_quota_used := 1\<rparr>)"
    using assms(4) unfolding t
    by (simp_all add: reserve_scheduled_sms_def reserve_sim_quota_def reserve_sim_quota_with_clock_def fwd_load_def
        fwd_config_default_def quota_day_def valid_quota_state_def fwd_commit_result written_def max_sms_daily_sends_def Let_def)
qed

end
