(* ===== verification/Sms_Text.thy ===== *)
theory Sms_Text
  imports Sms_Delivery
begin

text \<open>
  The texts and times of the vendor's message list (\<open>sms.rs\<close>): a body is UTF-16 code units in hexadecimal, a time is the
  service centre's stamp with its zone in quarter hours.  Decoding inverts what the delivery encodes, and the instant a stamp
  denotes agrees with a count of days by years and months.
\<close>

section \<open>UTF-16 in hexadecimal\<close>

text \<open>\<open>String::from_utf16_lossy\<close>: an unpaired surrogate becomes U+FFFD.\<close>

fun decode_utf16 :: "nat list \<Rightarrow> nat list" where
  "decode_utf16 [] = []"
| "decode_utf16 (u # us) =
     (if u < 55296 \<or> 57343 < u then u # decode_utf16 us
      else case us of
        [] \<Rightarrow> [65533]
      | v # vs \<Rightarrow>
          if u < 56320 \<and> 56320 \<le> v \<and> v \<le> 57343 then (65536 + (u - 55296) * 1024 + (v - 56320)) # decode_utf16 vs
          else 65533 # decode_utf16 us)"

definition from_utf16_lossy :: "nat list \<Rightarrow> string" where
  "from_utf16_lossy us = ustr (decode_utf16 us)"

definition utf16be_hex :: "string \<Rightarrow> string" where
  "utf16be_hex v = from_utf16_lossy (unhex4 (filter is_ascii_hexdigit v))"

lemma decode_cp_utf16:
  "n < 55296 \<or> (57343 < n \<and> n < 1114112) \<Longrightarrow> decode_utf16 (cp_utf16 n @ us) = n # decode_utf16 us"
proof (cases "n < 65536")
  case False
  assume n: "n < 55296 \<or> (57343 < n \<and> n < 1114112)"
  define m where "m = n - 65536"
  have m: "n = 65536 + m" "m < 1048576" using n False by (auto simp: m_def)
  then have "m div 1024 < 1024" by (simp add: less_mult_imp_div_less)
  moreover have "m mod 1024 \<le> 1023" using mod_less_divisor [of 1024 m] by linarith
  moreover have "m div 1024 * 1024 + m mod 1024 = m" by simp
  ultimately show ?thesis using m by (simp add: cp_utf16_def)
qed (simp add: cp_utf16_def)

text \<open>A well-formed piece is the encoding of its scalar value.\<close>

definition utf8_scalar :: "string \<Rightarrow> bool" where
  "utf8_scalar p \<longleftrightarrow> (\<exists>c cs. p = c # cs \<and> utf8_head c cs = (True, length p))"

lemma sextets:
  fixes x y z :: nat
  assumes "z < 64" "y < 64"
  shows "(x * 4096 + y * 64 + z) div 4096 = x" "(x * 4096 + y * 64 + z) div 64 mod 64 = y" "(x * 4096 + y * 64 + z) mod 64 = z"
proof -
  define q where "q = x * 64 + y"
  have n: "x * 4096 + y * 64 + z = q * 64 + z" by (simp add: q_def algebra_simps)
  then have d: "(x * 4096 + y * 64 + z) div 64 = q" using assms by simp
  then show "(x * 4096 + y * 64 + z) div 64 mod 64 = y" using assms by (simp add: q_def)
  show "(x * 4096 + y * 64 + z) mod 64 = z" using n assms by simp
  have "(x * 4096 + y * 64 + z) div 4096 = (x * 4096 + y * 64 + z) div 64 div 64" by (simp add: div_mult2_eq [symmetric])
  then show "(x * 4096 + y * 64 + z) div 4096 = x" using d assms by (simp add: q_def)
qed

lemma char_eq: "char_of (cval c) = c"
  by (simp add: cval_def)

lemma two_byte_scalar:
  assumes "194 \<le> cval c" "cval c \<le> 223" "byte_in [d] 0 128 191"
  shows "utf8_encode (code_point [c, d]) = [c, d] \<and> code_point [c, d] < 55296"
proof -
  define x y where "x = cval c - 192" and "y = cval d - 128"
  have e: "cval c = 192 + x" "cval d = 128 + y" "2 \<le> x" "x < 32" "y < 64"
    using assms by (auto simp: x_def y_def byte_in_def)
  then have "char_of (192 + x) = c" "char_of (128 + y) = d" by (metis char_eq)+
  then show ?thesis using e by (simp add: utf8_encode_def)
qed

lemma three_byte_scalar:
  assumes "224 \<le> cval c" "cval c \<le> 239"
    "byte_in [d, f] 0 (if cval c = 224 then 160 else 128) (if cval c = 237 then 159 else 191)" "byte_in [d, f] 1 128 191"
  shows "utf8_encode (code_point [c, d, f]) = [c, d, f]
    \<and> (code_point [c, d, f] < 55296 \<or> (57343 < code_point [c, d, f] \<and> code_point [c, d, f] < 1114112))"
proof -
  define x y z where "x = cval c - 224" and "y = cval d - 128" and "z = cval f - 128"
  have e: "cval c = 224 + x" "cval d = 128 + y" "cval f = 128 + z" "x < 16" "y < 64" "z < 64"
    "x = 0 \<longrightarrow> 32 \<le> y" "x = 13 \<longrightarrow> y < 32"
    using assms by (auto simp: x_def y_def z_def byte_in_def split: if_splits)
  then have "char_of (224 + x) = c" "char_of (128 + y) = d" "char_of (128 + z) = f" by (metis char_eq)+
  moreover have "code_point [c, d, f] = x * 4096 + y * 64 + z" using e by simp
  moreover have "2048 \<le> x * 4096 + y * 64 + z" "x * 4096 + y * 64 + z < 65536" using e by (cases "x = 0"; simp)+
  moreover have "x * 4096 + y * 64 + z < 55296 \<or> 57343 < x * 4096 + y * 64 + z"
    using e by (cases "x < 13"; cases "x = 13") simp_all
  moreover note sextets [OF e(6) e(5), of x]
  ultimately show ?thesis by (simp add: utf8_encode_def)
qed

lemma four_byte_scalar:
  assumes "240 \<le> cval c" "cval c \<le> 244"
    "byte_in [d, f, g] 0 (if cval c = 240 then 144 else 128) (if cval c = 244 then 143 else 191)"
    "byte_in [d, f, g] 1 128 191" "byte_in [d, f, g] 2 128 191"
  shows "utf8_encode (code_point [c, d, f, g]) = [c, d, f, g]
    \<and> 57343 < code_point [c, d, f, g] \<and> code_point [c, d, f, g] < 1114112"
proof -
  define x y z w where "x = cval c - 240" and "y = cval d - 128" and "z = cval f - 128" and "w = cval g - 128"
  have e: "cval c = 240 + x" "cval d = 128 + y" "cval f = 128 + z" "cval g = 128 + w" "x < 5" "y < 64" "z < 64" "w < 64"
    "x = 0 \<longrightarrow> 16 \<le> y" "x = 4 \<longrightarrow> y < 16"
    using assms by (auto simp: x_def y_def z_def w_def byte_in_def numeral_eq_Suc split: if_splits)
  define n where "n = (x * 64 + y) * 4096 + z * 64 + w"
  have "char_of (240 + x) = c" "char_of (128 + y) = d" "char_of (128 + z) = f" "char_of (128 + w) = g"
    using e by (metis char_eq)+
  moreover have cp: "code_point [c, d, f, g] = n" using e by (simp add: n_def)
  moreover have b: "65536 \<le> n" "n < 1114112"
  proof -
    show "65536 \<le> n" using e by (cases "x = 0") (simp_all add: n_def)
    show "n < 1114112" using e by (cases "x = 4") (simp_all add: n_def)
  qed
  moreover have q: "n div 4096 = x * 64 + y" "n div 64 mod 64 = z" "n mod 64 = w"
    using sextets [OF e(8) e(7), of "x * 64 + y"] by (simp_all add: n_def)
  moreover have "n div 262144 = n div 4096 div 64" by (simp add: div_mult2_eq [symmetric])
  then have "n div 262144 = x" using q(1) e by simp
  moreover have "n div 4096 mod 64 = y" using q(1) e by simp
  ultimately show ?thesis by (simp add: utf8_encode_def del: code_point.simps)
qed

lemma scalar_code_point:
  assumes "utf8_scalar p"
  shows "utf8_encode (code_point p) = p \<and> (code_point p < 55296 \<or> (57343 < code_point p \<and> code_point p < 1114112))"
proof -
  obtain c cs where p: "p = c # cs" and h: "utf8_head c cs = (True, length p)" using assms by (auto simp: utf8_scalar_def)
  consider "cval c < 128" "length cs = 0"
    | "194 \<le> cval c" "cval c \<le> 223" "byte_in cs 0 128 191" "length cs = 1"
    | "224 \<le> cval c" "cval c \<le> 239" "byte_in cs 0 (if cval c = 224 then 160 else 128) (if cval c = 237 then 159 else 191)"
      "byte_in cs 1 128 191" "length cs = 2"
    | "240 \<le> cval c" "cval c \<le> 244" "byte_in cs 0 (if cval c = 240 then 144 else 128) (if cval c = 244 then 143 else 191)"
      "byte_in cs 1 128 191" "byte_in cs 2 128 191" "length cs = 3"
    using h p by (auto simp: utf8_head_def Let_def split: if_splits)
  then show ?thesis
  proof cases
    case 1
    then show ?thesis using p by (simp add: utf8_encode_def char_eq)
  next
    case 2
    then obtain d where "cs = [d]" by (auto simp: length_Suc_conv numeral_eq_Suc)
    then show ?thesis using p 2 two_byte_scalar by blast
  next
    case 3
    then obtain d f where "cs = [d, f]" by (auto simp: length_Suc_conv numeral_eq_Suc)
    then show ?thesis using p 3 three_byte_scalar by blast
  next
    case 4
    then obtain d f g where "cs = [d, f, g]" by (auto simp: length_Suc_conv numeral_eq_Suc)
    then show ?thesis using p 4 four_byte_scalar by blast
  qed
qed

lemma byte_in_take: "byte_in (take k cs) i lo hi \<longleftrightarrow> i < k \<and> byte_in cs i lo hi"
  by (auto simp: byte_in_def)

lemma utf8_head_take: "utf8_head c cs = (True, n) \<Longrightarrow> n \<le> Suc (length cs) \<and> utf8_scalar (take n (c # cs))"
proof -
  assume h: "utf8_head c cs = (True, n)"
  then have n: "0 < n" "n \<le> Suc (length cs)" using utf8_head_pos [of c cs]
    by (auto simp: utf8_head_def Let_def byte_in_def Suc_le_eq split: if_splits)
  then have "utf8_head c (take (n - 1) cs) = (True, n)"
    using h unfolding utf8_head_def Let_def byte_in_take by (simp split: if_splits)
  then show ?thesis using n by (cases n) (auto simp: utf8_scalar_def)
qed

lemma utf8_pieces_scalar: "(True, p) \<in> set (utf8_pieces s) \<Longrightarrow> utf8_scalar p"
proof (induction s rule: utf8_pieces.induct)
  case (2 c cs)
  obtain ok n where h: "utf8_head c cs = (ok, n)" by force
  then show ?case using 2 utf8_head_take [of c cs n] by auto
qed simp

lemma decode_encode_utf16: "utf8_valid s \<Longrightarrow> from_utf16_lossy (encode_utf16 s) = s"
proof -
  assume v: "utf8_valid s"
  have "ustr (decode_utf16 (concat (map (\<lambda>p. cp_utf16 (code_point p)) ps))) = concat ps" if "\<forall>p\<in>set ps. utf8_scalar p" for ps
    using that by (induction ps) (simp_all add: ustr_def decode_cp_utf16 scalar_code_point)
  moreover have "\<forall>p\<in>set (utf8_chars s). utf8_scalar p"
    using v utf8_pieces_scalar by (fastforce simp: utf8_chars_def utf8_valid_def list_all_iff)
  ultimately show ?thesis using concat_utf8_chars [of s] by (simp add: from_utf16_lossy_def encode_utf16_def)
qed

text \<open>
  C26: a text sent by SMS reads back.  The hexadecimal text that the delivery gives the SIM for a body, decoded the way the
  message list is, is that body character for character, and it has four digits per UTF-16 unit, at most 280 units.
\<close>

theorem sms_text_roundtrip:
  assumes "sms_message_hex m info = Inr h" "sms_body m info = Inr body" "utf8_valid body"
  shows "utf16be_hex h = body \<and> length h = 4 * length (encode_utf16 body) \<and> length (encode_utf16 body) \<le> 280"
proof -
  have x: "list_all is_ascii_hexdigit (concat (map hex4 us))" "length (concat (map hex4 us)) = 4 * length us" for us
    by (induction us) (simp_all add: hex4_def hex_upper_digit)
  have h: "h = concat (map hex4 (encode_utf16 body))" "length (encode_utf16 body) \<le> 280"
    using assms by (auto simp: sms_message_hex_def max_sms_units_def Let_def split: if_splits)
  then have "filter is_ascii_hexdigit h = h" using x(1) by (simp add: list_all_iff filter_id_conv)
  then show ?thesis using h x(2) assms(3)
    by (simp add: utf16be_hex_def unhex4_units [OF utf16_units] decode_encode_utf16)
qed

lemma test_message_hex:
  "case (sms_body test_message None, sms_message_hex test_message None) of
     (Inr body, Inr h) \<Rightarrow> utf8_valid body \<and> body \<noteq> [] | _ \<Rightarrow> False"
  by code_simp

theorem sms_text_roundtrip_witness:
  "\<exists>h body. sms_message_hex test_message None = Inr h \<and> utf16be_hex h = body \<and> body \<noteq> []
     \<and> length (encode_utf16 body) \<le> 280"
proof -
  obtain h body where b: "sms_message_hex test_message None = Inr h" "sms_body test_message None = Inr body" "utf8_valid body" "body \<noteq> []"
    using test_message_hex by (auto split: sum.splits)
  then show ?thesis using sms_text_roundtrip [OF b(1-3)] by auto
qed

section \<open>The time of a message\<close>

definition int_at :: "string list \<Rightarrow> nat \<Rightarrow> int option" where
  "int_at f i = parse_i64 (f ! i)"

definition scts_offset :: "string list \<Rightarrow> int option" where
  "scts_offset f =
     (if length f = 8 then
        Option.bind (if f ! 6 = ''+'' then Some 1 else if f ! 6 = ''-'' then Some (- 1) else None) (\<lambda>sign.
        Option.bind (int_at f 7) (\<lambda>quarters. if quarters < 0 then None else Some (sign * quarters)))
      else int_at f 6)"

definition days_from_civil :: "int \<Rightarrow> int \<Rightarrow> int \<Rightarrow> int" where
  "days_from_civil year month day =
     (let y = year - (if month \<le> 2 then 1 else 0);
          era = tdiv y 400;
          yoe = y - era * 400;
          mp = month + (if month > 2 then - 3 else 9);
          doy = tdiv (153 * mp + 2) 5 + day - 1
      in era * 146097 + yoe * 365 + tdiv yoe 4 - tdiv yoe 100 + doy - 719468)"

definition days_in :: "int \<Rightarrow> int \<Rightarrow> int" where
  "days_in year month =
     (if month = 2 then if year mod 4 = 0 \<and> (year mod 100 \<noteq> 0 \<or> year mod 400 = 0) then 29 else 28
      else if month \<in> {4, 6, 9, 11} then 30 else 31)"

definition sms_received_at :: "string \<Rightarrow> nat option" where
  "sms_received_at v =
     (let f = split_on (CHR '','') v in
      if length f \<noteq> 7 \<and> length f \<noteq> 8 then None
      else
        Option.bind (int_at f 0) (\<lambda>year0.
        let year = (if 0 \<le> year0 \<and> year0 \<le> 99 then year0 + 2000 else year0) in
        Option.bind (int_at f 1) (\<lambda>month.
        Option.bind (int_at f 2) (\<lambda>day.
        Option.bind (int_at f 3) (\<lambda>hour.
        Option.bind (int_at f 4) (\<lambda>minute.
        Option.bind (int_at f 5) (\<lambda>second.
        if \<not> (2000 \<le> year \<and> year \<le> 2099) \<or> \<not> (1 \<le> month \<and> month \<le> 12) \<or> \<not> (0 \<le> hour \<and> hour \<le> 23)
           \<or> \<not> (0 \<le> minute \<and> minute \<le> 59) \<or> \<not> (0 \<le> second \<and> second \<le> 59) then None
        else if \<not> (1 \<le> day \<and> day \<le> days_in year month) then None
        else
            Option.bind (scts_offset f) (\<lambda>offset.
            if \<not> (- 48 \<le> offset \<and> offset \<le> 56) then None
            else
              let t = days_from_civil year month day * 86400 + hour * 3600 + minute * 60 + second - offset * 900
              in if 0 \<le> t \<and> t \<le> int u64_max then Some (nat t) else None))))))))"

definition fmt02 :: "int \<Rightarrow> string" where
  "fmt02 i = (if 0 \<le> i \<and> i < 10 then CHR ''0'' # show_int i else show_int i)"

definition sms_date :: "string \<Rightarrow> string" where
  "sms_date v =
     (let f = split_on (CHR '','') v in
      if 6 \<le> length f then
        (case (int_at f 1, int_at f 2, int_at f 3, int_at f 4) of
           (Some a, Some b, Some c, Some d) \<Rightarrow> fmt02 a @ ''-'' @ fmt02 b @ '' '' @ fmt02 c @ '':'' @ fmt02 d
         | _ \<Rightarrow> [])
      else [])"

subsection \<open>The civil calendar\<close>

text \<open>The days from 1970-01-01 to a date, counted year by year and month by month.\<close>

definition year_length :: "nat \<Rightarrow> nat" where
  "year_length y = (if is_leap y then 366 else 365)"

definition epoch_days :: "nat \<Rightarrow> nat \<Rightarrow> nat \<Rightarrow> nat" where
  "epoch_days y m d = sum_list (map year_length [1970..<y]) + sum_list (take (m - 1) (month_days (is_leap y))) + (d - 1)"

text \<open>What a stamp says: its fields, the year in two or four digits, the zone in one field or two.\<close>

definition stamp_fields :: "string \<Rightarrow> nat \<times> nat \<times> nat \<Rightarrow> nat \<times> nat \<times> nat \<Rightarrow> int \<Rightarrow> bool" where
  "stamp_fields v date time q =
     (case (date, time) of ((y, m, d), (h, mi, s)) \<Rightarrow>
        let f = split_on (CHR '','') v in
        length f \<in> {7, 8}
        \<and> (int_at f 0 = Some (int y) \<or> (int_at f 0 = Some (int y - 2000) \<and> y < 2100))
        \<and> map (int_at f) [1, 2, 3, 4, 5] = [Some (int m), Some (int d), Some (int h), Some (int mi), Some (int s)]
        \<and> scts_offset f = Some q)"

definition stamp_valid :: "nat \<times> nat \<times> nat \<Rightarrow> nat \<times> nat \<times> nat \<Rightarrow> int \<Rightarrow> bool" where
  "stamp_valid date time q =
     (case (date, time) of ((y, m, d), (h, mi, s)) \<Rightarrow>
        2000 \<le> y \<and> y \<le> 2099 \<and> 1 \<le> m \<and> m \<le> 12 \<and> 1 \<le> d \<and> d \<le> month_days (is_leap y) ! (m - 1)
        \<and> h < 24 \<and> mi < 60 \<and> s < 60 \<and> - 48 \<le> q \<and> q \<le> 56)"

definition stamp_instant :: "nat \<times> nat \<times> nat \<Rightarrow> nat \<times> nat \<times> nat \<Rightarrow> int \<Rightarrow> int" where
  "stamp_instant date time q =
     (case (date, time) of ((y, m, d), (h, mi, s)) \<Rightarrow>
        int (epoch_days y m d) * 86400 + int h * 3600 + int mi * 60 + int s - q * 900)"

text \<open>Days from the first of March of year 0 to the first of March of a year.\<close>

definition march_days :: "int \<Rightarrow> int" where
  "march_days y = tdiv y 400 * 146097 + (y - tdiv y 400 * 400) * 365 + tdiv (y - tdiv y 400 * 400) 4 - tdiv (y - tdiv y 400 * 400) 100"

lemma leap_this_century: "k < 100 \<Longrightarrow> is_leap (2000 + k) \<longleftrightarrow> k mod 4 = 0"
  unfolding is_leap_def by presburger

lemma years_count: "k \<le> 100 \<Longrightarrow> sum_list (map year_length [1970..<2000 + k]) = 10957 + k * 365 + (k + 3) div 4"
proof (induction k)
  case 0
  have "sum_list (map year_length [1970..<2000]) = 10957" by code_simp
  then show ?case by simp
next
  case (Suc k)
  have "[1970..<2000 + Suc k] = [1970..<2000 + k] @ [2000 + k]" using upt_Suc [of 1970 "2000 + k"] by simp
  then have "sum_list (map year_length [1970..<2000 + Suc k]) = 10957 + k * 365 + (k + 3) div 4 + year_length (2000 + k)"
    using Suc by (simp del: upt_Suc)
  moreover have "(Suc k + 3) div 4 = (k + 3) div 4 + (if k mod 4 = 0 then 1 else 0)" by presburger
  moreover have "year_length (2000 + k) = (if k mod 4 = 0 then 366 else 365)"
    using Suc.prems leap_this_century [of k] by (simp add: year_length_def)
  ultimately show ?case by (simp del: upt_Suc)
qed

lemma march_days_count:
  assumes "1999 \<le> y" "y \<le> 2099"
  shows "march_days (int y) = 719468 + int (sum_list (map year_length [1970..<y])) + (if is_leap y then 60 else 59)"
proof (cases "y = 1999")
  case True
  have "sum_list (map year_length [1970..<1999]) = 10592" by code_simp
  then show ?thesis using True by (simp add: march_days_def tdiv_def is_leap_def)
next
  case False
  define k where "k = y - 2000"
  have k: "y = 2000 + k" "k < 100" using assms False by (auto simp: k_def)
  have q: "tdiv (int y) 400 = 5" using k by (simp add: tdiv_nonneg)
  then have "march_days (int y) = 730485 + int k * 365 + int k div 4"
    using k by (simp add: march_days_def tdiv_nonneg)
  moreover have "int ((k + 3) div 4) + (if k mod 4 = 0 then 60 else 59) = int k div 4 + 60"
    by (simp add: zdiv_int) presburger
  ultimately show ?thesis using k years_count [of k] leap_this_century [of k] by (simp del: upt_conv_Cons_Cons split: if_splits)
qed

lemma days_from_civil_march:
  "days_from_civil y m d =
     march_days (y - (if m \<le> 2 then 1 else 0)) + tdiv (153 * (m + (if m > 2 then - 3 else 9)) + 2) 5 + d - 1 - 719468"
  by (simp add: days_from_civil_def march_days_def Let_def)

lemma days_from_civil_count:
  assumes "2000 \<le> y" "y \<le> 2099" "1 \<le> m" "m \<le> 12" "1 \<le> d"
  shows "days_from_civil (int y) (int m) (int d) = int (epoch_days y m d)"
proof -
  have prev: "march_days (int y - 1) = 719468 + int (sum_list (map year_length [1970..<y])) - 306"
  proof -
    have "[1970..<y] = [1970..<y - 1] @ [y - 1]" using assms by (cases y) simp_all
    then have "sum_list (map year_length [1970..<y]) = sum_list (map year_length [1970..<y - 1]) + year_length (y - 1)"
      by (simp only: map_append sum_list_append) simp
    then show ?thesis using march_days_count [of "y - 1"] assms by (simp add: year_length_def of_nat_diff split: if_splits)
  qed
  note this_year = march_days_count [of y]
  have "m \<in> {1, 2, 3, 4, 5, 6, 7, 8, 9, 10, 11, 12}" using assms(3,4) by simp presburger
  then show ?thesis using assms prev this_year unfolding days_from_civil_march epoch_days_def
    by (elim insertE emptyE) (simp_all add: month_days_def tdiv_nonneg of_nat_diff numeral_eq_Suc [of "num.One"] split: if_splits)
qed

lemma stamp_days:
  assumes "1 \<le> m" "m \<le> 12"
  shows "days_in (int y) (int m) = int (month_days (is_leap y) ! (m - 1))"
proof -
  have leap: "is_leap y \<longleftrightarrow> int y mod 4 = 0 \<and> (int y mod 100 \<noteq> 0 \<or> int y mod 400 = 0)"
    unfolding is_leap_def by presburger
  have "m \<in> {1, 2, 3, 4, 5, 6, 7, 8, 9, 10, 11, 12}" using assms by simp presburger
  then show ?thesis unfolding leap days_in_def by (elim insertE emptyE) (simp_all add: month_days_def)
qed

text \<open>The ranges the fields must have.\<close>

definition stamp_ranges :: "int \<Rightarrow> int \<Rightarrow> int \<Rightarrow> int \<Rightarrow> int \<Rightarrow> int \<Rightarrow> int \<Rightarrow> bool" where
  "stamp_ranges y m d h mi s q \<longleftrightarrow>
     2000 \<le> y \<and> y \<le> 2099 \<and> 1 \<le> m \<and> m \<le> 12 \<and> 0 \<le> h \<and> h \<le> 23 \<and> 0 \<le> mi \<and> mi \<le> 59 \<and> 0 \<le> s \<and> s \<le> 59
     \<and> 1 \<le> d \<and> d \<le> days_in y m \<and> - 48 \<le> q \<and> q \<le> 56"

lemma received_at_parses:
  assumes "sms_received_at v = Some t" "f = split_on (CHR '','') v"
  shows "length f \<in> {7, 8}" "int_at f 0 \<noteq> None" "int_at f 1 \<noteq> None" "int_at f 2 \<noteq> None" "int_at f 3 \<noteq> None"
    "int_at f 4 \<noteq> None" "int_at f 5 \<noteq> None" "scts_offset f \<noteq> None"
  using assms by - (rule ccontr, simp add: sms_received_at_def Let_def cong: if_cong)+

lemma received_at_value:
  assumes "f = split_on (CHR '','') v" "length f \<in> {7, 8}" "int_at f 0 = Some y0" "y = (if 0 \<le> y0 \<and> y0 \<le> 99 then y0 + 2000 else y0)"
    "map (int_at f) [1, 2, 3, 4, 5] = [Some m, Some d, Some h, Some mi, Some s]" "scts_offset f = Some q"
    "i = days_from_civil y m d * 86400 + h * 3600 + mi * 60 + s - q * 900"
  shows "sms_received_at v = (if stamp_ranges y m d h mi s q \<and> 0 \<le> i \<and> i \<le> int u64_max then Some (nat i) else None)"
proof -
  note r = assms(1) [symmetric] and g = assms(4,7) [symmetric]
  show ?thesis using assms(2,3,5,6) unfolding sms_received_at_def Let_def r
    by (simp only: list.map list.inject Option.bind.bind_lunit g) (auto simp: g stamp_ranges_def days_in_def)
qed

lemma epoch_days_bound:
  assumes "2000 \<le> y" "y \<le> 2099" "d \<le> 31"
  shows "epoch_days y m d \<le> 100000"
proof -
  have "sum_list (map year_length [1970..<y]) \<le> 47200" using years_count [of "y - 2000"] assms by (simp del: upt_conv_Cons_Cons)
  moreover have "sum_list (take k xs) \<le> sum_list xs" for k and xs :: "nat list"
    by (metis append_take_drop_id le_add1 sum_list_append)
  then have "sum_list (take (m - 1) (month_days (is_leap y))) \<le> sum_list (month_days (is_leap y))" by blast
  moreover have "sum_list (month_days (is_leap y)) \<le> 366" by (simp add: month_days_def)
  ultimately show ?thesis using assms by (simp add: epoch_days_def)
qed

lemma stamp_accepted:
  assumes f: "stamp_fields v (y, m, d) (h, mi, s) q" and g: "stamp_valid (y, m, d) (h, mi, s) q"
    and t: "int t = stamp_instant (y, m, d) (h, mi, s) q"
  shows "sms_received_at v = Some t"
proof -
  have r: "2000 \<le> y" "y \<le> 2099" "1 \<le> m" "m \<le> 12" "1 \<le> d" "d \<le> month_days (is_leap y) ! (m - 1)" "h < 24" "mi < 60" "s < 60"
      "- 48 \<le> q" "q \<le> 56" using g by (simp_all add: stamp_valid_def)
  have l: "int d \<le> days_in (int y) (int m)" using stamp_days [OF r(3,4), of y] r(6) by simp
  then have "d \<le> 31" by (auto simp: days_in_def split: if_splits)
  then have "int (epoch_days y m d) \<le> 100000" using epoch_days_bound [of y d m] r by simp
  then have u: "int t \<le> int u64_max" using t r by (simp add: stamp_instant_def u64_max_def)
  have i: "int t = days_from_civil (int y) (int m) (int d) * 86400 + int h * 3600 + int mi * 60 + int s - q * 900"
    using t days_from_civil_count [of y m d] r by (simp add: stamp_instant_def)
  obtain y0 where y0: "int_at (split_on (CHR '','') v) 0 = Some y0" "int y = (if 0 \<le> y0 \<and> y0 \<le> 99 then y0 + 2000 else y0)"
  proof -
    have "int_at (split_on (CHR '','') v) 0 = Some (int y) \<or> int_at (split_on (CHR '','') v) 0 = Some (int y - 2000)"
      using f by (auto simp: stamp_fields_def Let_def)
    then show thesis using that [of "int y"] that [of "int y - 2000"] r by fastforce
  qed
  have w: "stamp_ranges (int y) (int m) (int d) (int h) (int mi) (int s) q" using r l by (simp add: stamp_ranges_def)
  have s: "length (split_on (CHR '','') v) \<in> {7, 8}" "scts_offset (split_on (CHR '','') v) = Some q"
      "map (int_at (split_on (CHR '','') v)) [1, 2, 3, 4, 5] = [Some (int m), Some (int d), Some (int h), Some (int mi), Some (int s)]"
    using f by (simp_all add: stamp_fields_def Let_def)
  show ?thesis using u w received_at_value [OF refl s(1) y0 s(3,2) i] by simp
qed

text \<open>
  C25: the instant of a message.  A service centre stamp is accepted exactly when its fields are a date of the years 2000 to
  2099, a time of day and a zone between -12 and +14 hours, and its instant is the number of seconds from 1970-01-01 UTC,
  with the days counted year by year and month by month.
\<close>

theorem sms_received_at_civil:
  "sms_received_at v = Some t \<longleftrightarrow>
     (\<exists>date time q. stamp_fields v date time q \<and> stamp_valid date time q \<and> int t = stamp_instant date time q)"
proof
  assume t: "sms_received_at v = Some t"
  define f where "f = split_on (CHR '','') v"
  obtain y0 m d h mi s q where g: "int_at f 0 = Some y0" "scts_offset f = Some q"
      "map (int_at f) [1, 2, 3, 4, 5] = [Some m, Some d, Some h, Some mi, Some s]"
    using received_at_parses [OF t f_def] by auto
  define y where "y = (if 0 \<le> y0 \<and> y0 \<le> 99 then y0 + 2000 else y0)"
  have r: "stamp_ranges y m d h mi s q" and i: "int t = days_from_civil y m d * 86400 + h * 3600 + mi * 60 + s - q * 900"
    using received_at_value [OF f_def received_at_parses(1) [OF t f_def] g(1) y_def g(3,2) refl] t by (auto split: if_splits)
  note r = r [unfolded stamp_ranges_def]
  have n: "int (nat y) = y" "int (nat m) = m" "int (nat d) = d" "int (nat h) = h" "int (nat mi) = mi" "int (nat s) = s" using r by auto
  have e: "days_from_civil y m d = int (epoch_days (nat y) (nat m) (nat d))"
    using days_from_civil_count [of "nat y" "nat m" "nat d"] n r by (auto simp: nat_le_iff)
  have l: "days_in y m = int (month_days (is_leap (nat y)) ! (nat m - 1))"
    using stamp_days [of "nat m" "nat y"] n(1,2) r by (auto simp: nat_le_iff)
  have "stamp_fields v (nat y, nat m, nat d) (nat h, nat mi, nat s) q"
    using g n received_at_parses(1) [OF t f_def] by (auto simp: stamp_fields_def Let_def f_def y_def split: if_splits)
  moreover have "stamp_valid (nat y, nat m, nat d) (nat h, nat mi, nat s) q" using r l by (auto simp: stamp_valid_def nat_le_iff)
  moreover have "int t = stamp_instant (nat y, nat m, nat d) (nat h, nat mi, nat s) q" using i e n by (simp add: stamp_instant_def)
  ultimately show "\<exists>date time q. stamp_fields v date time q \<and> stamp_valid date time q \<and> int t = stamp_instant date time q" by blast
next
  assume "\<exists>date time q. stamp_fields v date time q \<and> stamp_valid date time q \<and> int t = stamp_instant date time q"
  then obtain y m d h mi s q where f: "stamp_fields v (y, m, d) (h, mi, s) q" and g: "stamp_valid (y, m, d) (h, mi, s) q"
    and t: "int t = stamp_instant (y, m, d) (h, mi, s) q" by auto
  then show "sms_received_at v = Some t" by (rule stamp_accepted)
qed

end
