(* ===== verification/Sms.thy ===== *)
theory Sms
  imports Sms_Text Uci
begin

text \<open>
  Reading and sending messages through the vendor's bus (\<open>sms.rs\<close>): the registered session key, the pages of the two stores,
  the cached list, the sealed envelopes, the SIM slot and the one send of a request.  The bus answers as it likes: its reply is
  a function of all the calls made so far.  RSA, AES-GCM, base64 and the random source are parameters.  An invalidation during a
  snapshot is one after it, as the snapshot reads the revision once, at its start.
\<close>

section \<open>The vendor's services\<close>

type_synonym bus_call = "string \<times> string \<times> json"

record 'rsa sms_env =
  se_answer :: "bus_call list \<Rightarrow> string + json"
  se_uci :: uci_env
  se_random :: "nat \<Rightarrow> nat \<Rightarrow> bytes"
  se_spki :: "bytes \<Rightarrow> 'rsa option"
  se_pkcs1 :: "bytes \<Rightarrow> 'rsa option"
  se_wrap :: "nat \<Rightarrow> 'rsa \<Rightarrow> bytes \<Rightarrow> bytes option"
  se_encode :: "bytes \<Rightarrow> string"
  se_decode :: "string \<Rightarrow> bytes option"
  se_seal :: "bytes \<Rightarrow> bytes \<Rightarrow> bytes \<Rightarrow> bytes option"
  se_open :: "bytes \<Rightarrow> bytes \<Rightarrow> bytes \<Rightarrow> bytes option"

text \<open>What the module keeps and does: the calls made, the random draws, the session key and the time slept.\<close>

record sms_link =
  sl_calls :: "bus_call list"
  sl_draws :: nat
  sl_key :: "bytes option"
  sl_slept :: nat

definition page_size :: nat where "page_size = 64"
definition max_pages :: nat where "max_pages = 4"
definition max_messages :: nat where "max_messages = page_size * max_pages * 2"

definition bus_ask :: "'rsa sms_env \<Rightarrow> string \<Rightarrow> string \<Rightarrow> json \<Rightarrow> sms_link \<Rightarrow> (string + json) \<times> sms_link" where
  "bus_ask e service verb args w =
     (let calls = sl_calls w @ [(service, verb, args)] in (se_answer e calls, w\<lparr>sl_calls := calls\<rparr>))"

definition draw :: "'rsa sms_env \<Rightarrow> nat \<Rightarrow> sms_link \<Rightarrow> bytes \<times> sms_link" where
  "draw e n w = (se_random e (sl_draws w) n, w\<lparr>sl_draws := Suc (sl_draws w)\<rparr>)"

definition sleep_ms :: "nat \<Rightarrow> sms_link \<Rightarrow> sms_link" where
  "sleep_ms n w = w\<lparr>sl_slept := sl_slept w + n\<rparr>"

section \<open>The session key\<close>

definition key_digit :: "nat \<Rightarrow> char" where
  "key_digit n = (if n < 10 then char_of (48 + n) else char_of (87 + n))"

definition hex_text :: "bytes \<Rightarrow> string" where
  "hex_text bs = concat (map (\<lambda>b. [key_digit (unat b div 16), key_digit (unat b mod 16)]) bs)"

definition key_with_label :: "'rsa sms_env \<Rightarrow> string \<Rightarrow> string \<Rightarrow> 'rsa option" where
  "key_with_label e pem label =
     Option.bind (strip_prefix (''-----BEGIN '' @ label @ ''-----'') (trim pem)) (\<lambda>rest.
     Option.bind (strip_suffix (''-----END '' @ label @ ''-----'') rest) (\<lambda>body.
     Option.bind (se_decode e (filter (\<lambda>c. \<not> is_ascii_whitespace c) body)) (\<lambda>der.
     if label = ''PUBLIC KEY'' then se_spki e der else se_pkcs1 e der)))"

definition public_key :: "'rsa sms_env \<Rightarrow> string \<Rightarrow> string + 'rsa" where
  "public_key e pem =
     (case (if length pem \<le> 16384
            then (case key_with_label e pem ''PUBLIC KEY'' of Some k \<Rightarrow> Some k | None \<Rightarrow> key_with_label e pem ''RSA PUBLIC KEY'')
            else None) of
        Some k \<Rightarrow> Inr k | None \<Rightarrow> Inl ''invalid vendor RSA public key'')"

definition reset_crypto_session :: "sms_link \<Rightarrow> sms_link" where
  "reset_crypto_session w = w\<lparr>sl_key := None\<rparr>"

definition registration_rejected :: "json \<Rightarrow> bool" where
  "registration_rejected reply =
     (case jget reply ''result'' of
        None \<Rightarrow> False
      | Some v \<Rightarrow> as_str v \<notin> {Some ''success'', Some ''0''} \<and> as_i64 v \<noteq> Some 0 \<and> as_bool v \<noteq> Some True)"

definition ensure_crypto_session :: "'rsa sms_env \<Rightarrow> sms_link \<Rightarrow> (string + bytes) \<times> sms_link" where
  "ensure_crypto_session e w =
     (case sl_key w of
        Some key \<Rightarrow> (Inr key, w)
      | None \<Rightarrow>
          (case bus_ask e ''zwrt_web'' ''web_crt_get'' (JObject []) w of
             (Inl err, w1) \<Rightarrow> (Inl err, w1)
           | (Inr reply, w1) \<Rightarrow>
               (case Option.bind (jget reply ''result'') as_str of
                  None \<Rightarrow> (Inl ''vendor RSA certificate unavailable'', w1)
                | Some pem \<Rightarrow>
                    (case public_key e pem of
                       Inl err \<Rightarrow> (Inl err, w1)
                     | Inr public \<Rightarrow>
                         let (key, w2) = draw e 32 w1;
                             w3 = w2\<lparr>sl_draws := Suc (sl_draws w2)\<rparr>
                         in (case se_wrap e (sl_draws w2) public (str_bytes (hex_text key)) of
                               None \<Rightarrow> (Inl ''vendor RSA key registration failed'', w3)
                             | Some wrapped \<Rightarrow>
                                 (case bus_ask e ''zwrt_web'' ''web_http_enstr_set''
                                         (jobj [(''web_enstr'', JString (se_encode e wrapped))]) w3 of
                                    (Inl err, w4) \<Rightarrow> (Inl err, w4)
                                  | (Inr registration, w4) \<Rightarrow>
                                      if registration_rejected registration
                                      then (Inl ''vendor RSA key registration rejected'', w4)
                                      else (Inr key, w4\<lparr>sl_key := Some key\<rparr>)))))))"

section \<open>Envelopes\<close>

definition encrypt :: "'rsa sms_env \<Rightarrow> bytes \<Rightarrow> string \<Rightarrow> sms_link \<Rightarrow> (string + string) \<times> sms_link" where
  "encrypt e key plaintext w =
     (let (nonce, w1) = draw e 12 w in
      (case se_seal e key nonce (str_bytes plaintext) of
         None \<Rightarrow> Inl ''SMS envelope encryption failed''
       | Some sealed \<Rightarrow>
           if length sealed < 16 then Inl ''SMS envelope encryption failed''
           else
             let tag = drop (length sealed - 16) sealed; body = take (length sealed - 16) sealed
             in Inr (se_encode e (nonce @ tag @ body)), w1))"

definition decrypt :: "'rsa sms_env \<Rightarrow> string \<Rightarrow> bytes option \<Rightarrow> string + string option" where
  "decrypt e v key =
     (if length v < 40 \<or> even (length v) \<and> list_all is_ascii_hexdigit v then Inr None
      else case se_decode e v of
        None \<Rightarrow> Inr None
      | Some raw \<Rightarrow>
          if length raw \<le> 28 then Inr None
          else case key of
            None \<Rightarrow> Inl ''vendor SMS crypto session unavailable''
          | Some k \<Rightarrow>
              (case se_open e k (take 12 raw) (drop 28 raw @ take 16 (drop 12 raw)) of
                 Some plain \<Rightarrow> Inr (Some (from_utf8_lossy (bytes_str plain)))
               | None \<Rightarrow> Inl ''SMS envelope authentication failed''))"

section \<open>The message list\<close>

definition json_int :: "json \<Rightarrow> int option" where
  "json_int v = (case as_i64 v of Some i \<Rightarrow> Some i | None \<Rightarrow> Option.bind (as_str v) parse_i64)"

definition json_nat :: "json \<Rightarrow> nat option" where
  "json_nat v = (case as_u64 v of Some n \<Rightarrow> Some n | None \<Rightarrow> Option.bind (as_str v) (parse_unsigned u64_max))"

definition message_id :: "json \<Rightarrow> int option" where
  "message_id item = Option.bind (jget item ''id'') json_int"

definition either_field :: "json \<Rightarrow> string \<Rightarrow> string \<Rightarrow> json option" where
  "either_field v a b = (case jget v a of Some x \<Rightarrow> Some x | None \<Rightarrow> jget v b)"

definition rows_of :: "json \<Rightarrow> json list option" where
  "rows_of reply = Option.bind (either_field reply ''list'' ''messages'') as_array"

definition text_field :: "json option \<Rightarrow> string" where
  "text_field v = (case Option.bind v as_str of Some s \<Rightarrow> s | None \<Rightarrow> [])"

definition message_row :: "'rsa sms_env \<Rightarrow> bytes option \<Rightarrow> json \<Rightarrow> int \<Rightarrow> string + json" where
  "message_row e key item i =
     (let number_raw = text_field (either_field item ''num'' ''number'');
          text_raw = text_field (either_field item ''text'' ''content'')
      in case decrypt e number_raw key of
           Inl err \<Rightarrow> Inl err
         | Inr number \<Rightarrow>
             (case decrypt e text_raw key of
                Inl err \<Rightarrow> Inl err
              | Inr content \<Rightarrow>
                  let tag = Option.bind (jget item ''tag'') json_int;
                      date = text_field (jget item ''date'')
                  in Inr (jobj
                       [(''id'', jint i),
                        (''num'', JString (case number of Some v \<Rightarrow> utf16be_hex v | None \<Rightarrow> number_raw)),
                        (''date'', JString (sms_date date)),
                        (''received_at'', jopt (\<lambda>t. jint (int t)) (sms_received_at date)),
                        (''unread'', jint (if tag = Some 1 then 1 else 0)),
                        (''tag'', jopt jint tag),
                        (''text'', JString (utf16be_hex (case content of Some v \<Rightarrow> v | None \<Rightarrow> text_raw)))])))"

fun normalize_rows :: "'rsa sms_env \<Rightarrow> bytes option \<Rightarrow> json list \<Rightarrow> int list \<Rightarrow> json list \<Rightarrow> string + json list" where
  "normalize_rows e key [] ids output = Inr output"
| "normalize_rows e key (item # items) ids output =
     (if length output \<ge> max_messages then Inr output
      else case message_id item of
        None \<Rightarrow> Inl ''invalid vendor SMS id''
      | Some i \<Rightarrow>
          if i \<in> set ids then normalize_rows e key items ids output
          else case message_row e key item i of
            Inl err \<Rightarrow> Inl err
          | Inr row \<Rightarrow> normalize_rows e key items (i # ids) (output @ [row]))"

definition normalize_lists :: "'rsa sms_env \<Rightarrow> json list \<Rightarrow> bytes option \<Rightarrow> string + json list" where
  "normalize_lists e replies key =
     normalize_rows e key
       (concat (map (\<lambda>reply. case rows_of reply of Some rows \<Rightarrow> rows | None \<Rightarrow> []) replies)) [] []"

text \<open>The identifiers of a page, and how many the store had not shown yet.\<close>

fun new_ids :: "json list \<Rightarrow> int list \<Rightarrow> nat \<Rightarrow> (int list \<times> nat) option" where
  "new_ids [] seen n = Some (seen, n)"
| "new_ids (row # rows) seen n =
     (case message_id row of
        None \<Rightarrow> None
      | Some i \<Rightarrow> if i \<in> set seen then new_ids rows seen n else new_ids rows (i # seen) (Suc n))"

definition page_args :: "nat \<Rightarrow> nat \<Rightarrow> json" where
  "page_args page store = jobj
     [(''page'', jint (int page)), (''data_per_page'', jint (int page_size)), (''mem_store'', jint (int store)),
      (''tags'', jint 10), (''order_by'', JString ''order by id desc'')]"

function read_store ::
  "'rsa sms_env \<Rightarrow> nat \<Rightarrow> nat \<Rightarrow> int list \<Rightarrow> json list \<Rightarrow> sms_link \<Rightarrow> (string + json list \<times> bool) \<times> sms_link" where
  "read_store e store page seen replies w =
     (if page \<ge> max_pages then (Inr (replies, False), w)
      else case bus_ask e ''zwrt_wms'' ''zte_libwms_get_sms_data'' (page_args page store) w of
        (Inl err, w1) \<Rightarrow> (Inl err, w1)
      | (Inr reply, w1) \<Rightarrow>
          (case rows_of reply of
             None \<Rightarrow> (Inl ''invalid vendor SMS list'', w1)
           | Some rows \<Rightarrow>
               if length rows > page_size then (Inl ''vendor SMS page exceeds limit'', w1)
               else case new_ids rows seen 0 of
                 None \<Rightarrow> (Inl ''invalid vendor SMS id'', w1)
               | Some (seen', fresh) \<Rightarrow>
                   if length rows < page_size then (Inr (replies @ [reply], False), w1)
                   else if fresh = 0 \<or> page + 1 = max_pages then (Inr (replies @ [reply], True), w1)
                   else read_store e store (page + 1) seen' (replies @ [reply]) w1))"
  by pat_completeness auto
termination
  by (relation "measure (\<lambda>(e, store, page, seen, replies, w). max_pages - page)") auto

declare read_store.simps [simp del]

definition read_pages :: "'rsa sms_env \<Rightarrow> sms_link \<Rightarrow> (string + json list \<times> bool) \<times> sms_link" where
  "read_pages e w =
     (case read_store e 1 0 [] [] w of
        (Inl err, w1) \<Rightarrow> (Inl err, w1)
      | (Inr (replies, part1), w1) \<Rightarrow>
          (case read_store e 0 0 [] replies w1 of
             (Inl err, w2) \<Rightarrow> (Inl err, w2)
           | (Inr (replies', part2), w2) \<Rightarrow> (Inr (replies', part1 \<or> part2), w2)))"

definition listed :: "'rsa sms_env \<Rightarrow> bytes option \<Rightarrow> string + json list \<times> bool \<Rightarrow> string + json list \<times> bool" where
  "listed e key pages =
     (case pages of
        Inl err \<Rightarrow> Inl err
      | Inr (replies, truncated) \<Rightarrow>
          (case normalize_lists e replies key of Inl err \<Rightarrow> Inl err | Inr rows \<Rightarrow> Inr (rows, truncated)))"

definition load_messages :: "'rsa sms_env \<Rightarrow> sms_link \<Rightarrow> (string + json list \<times> bool) \<times> sms_link" where
  "load_messages e w =
     (let (key, w1) = ensure_crypto_session e w in
      case read_pages e w1 of
        (Inl err, w2) \<Rightarrow> (Inl err, w2)
      | (Inr pages, w2) \<Rightarrow>
          (case listed e (case key of Inr k \<Rightarrow> Some k | Inl _ \<Rightarrow> None) (Inr pages) of
             Inr result \<Rightarrow> (Inr result, w2)
           | Inl _ \<Rightarrow>
               (case ensure_crypto_session e (reset_crypto_session w2) of
                  (Inl err, w3) \<Rightarrow> (Inl err, w3)
                | (Inr k, w3) \<Rightarrow>
                    let (pages', w4) = read_pages e w3; result = listed e (Some k) pages'
                    in (result, if isl result then reset_crypto_session w4 else w4))))"

section \<open>The cached list\<close>

record read_cache =
  rc_checked :: "nat option"
  rc_refreshed :: "nat option"
  rc_revision :: nat
  rc_capacity :: "json option"
  rc_list :: "json list"
  rc_error :: "string option"
  rc_truncated :: bool

definition read_cache_default :: read_cache where
  "read_cache_default = \<lparr>rc_checked = None, rc_refreshed = None, rc_revision = 0, rc_capacity = None, rc_list = [],
     rc_error = None, rc_truncated = False\<rparr>"

definition capacity_number :: "json \<Rightarrow> string \<Rightarrow> int" where
  "capacity_number capacity name = (case Option.bind (jget capacity name) json_int of Some i \<Rightarrow> i | None \<Rightarrow> 0)"

definition unread_count :: "json \<Rightarrow> json list \<Rightarrow> int" where
  "unread_count capacity rows =
     (if jget capacity ''sms_dev_unread_num'' \<noteq> None \<or> jget capacity ''sms_sim_unread_num'' \<noteq> None
      then wrap_i64 (capacity_number capacity ''sms_dev_unread_num'' + capacity_number capacity ''sms_sim_unread_num'')
      else int (length (filter (\<lambda>row. Option.bind (jget row ''tag'') as_i64 = Some 1) rows)))"

definition cache_value :: "read_cache \<Rightarrow> json option" where
  "cache_value c = map_option (\<lambda>capacity. jobj
     ([(''unread'', jint (unread_count capacity (rc_list c))), (''list'', JArray (rc_list c)),
       (''stale'', JBool (rc_error c \<noteq> None)), (''truncated'', JBool (rc_truncated c))]
      @ (case rc_error c of Some err \<Rightarrow> [(''error'', JString err)] | None \<Rightarrow> []))) (rc_capacity c)"

definition list_count_matches :: "json option \<Rightarrow> nat \<Rightarrow> bool" where
  "list_count_matches capacity n =
     (case Option.bind capacity (\<lambda>c.
             Option.bind (Option.bind (jget c ''sms_nv_num_total'') json_nat) (\<lambda>a.
             Option.bind (Option.bind (jget c ''sms_sim_num_total'') json_nat) (\<lambda>b. checked_add64 a b))) of
        None \<Rightarrow> True | Some expected \<Rightarrow> expected = n)"

text \<open>The clock readings of one snapshot, in milliseconds and in the order they are taken.\<close>

record snap_clock =
  sc_start :: nat
  sc_mark :: nat
  sc_age :: nat
  sc_end :: nat

definition sms_snapshot ::
  "'rsa sms_env \<Rightarrow> snap_clock \<Rightarrow> nat \<Rightarrow> read_cache \<Rightarrow> sms_link \<Rightarrow> json option \<times> read_cache \<times> sms_link" where
  "sms_snapshot e ck revision c w =
     (if rc_revision c = revision \<and> (case rc_checked c of Some t \<Rightarrow> sc_start ck - t < 5000 | None \<Rightarrow> False)
      then (cache_value c, c, w)
      else
        let c1 = c\<lparr>rc_checked := Some (sc_mark ck)\<rparr> in
        case bus_ask e ''zwrt_wms'' ''zwrt_wms_get_wms_capacity'' (JObject []) w of
          (Inl _, w1) \<Rightarrow>
            let c2 = c1\<lparr>rc_error := Some ''vendor SMS capacity unavailable''\<rparr> in (cache_value c2, c2, w1)
        | (Inr capacity, w1) \<Rightarrow>
            let refresh = (rc_revision c1 \<noteq> revision \<or> rc_capacity c1 \<noteq> Some capacity \<or> rc_error c1 \<noteq> None
                  \<or> (case rc_refreshed c1 of Some t \<Rightarrow> sc_age ck - t \<ge> 30000 | None \<Rightarrow> True));
                c2 = c1\<lparr>rc_capacity := Some capacity, rc_revision := revision\<rparr>
            in if \<not> refresh then (cache_value c2, c2, w1)
               else
                 let (loaded, w2) = load_messages e w1;
                     c3 = (case loaded of
                         Inr (rows, truncated) \<Rightarrow>
                           if truncated \<or> list_count_matches (rc_capacity c2) (length rows)
                           then c2\<lparr>rc_list := rows, rc_truncated := truncated, rc_error := None, rc_refreshed := Some (sc_end ck)\<rparr>
                           else c2\<lparr>rc_error := Some ''vendor SMS list does not match capacity''\<rparr>
                       | Inl err \<Rightarrow> c2\<lparr>rc_error := Some err\<rparr>)
                 in (cache_value c3, c3, w2))"

section \<open>Sending\<close>

definition sms_valid :: "string \<Rightarrow> string \<Rightarrow> string \<Rightarrow> bool" where
  "sms_valid number message stamp \<longleftrightarrow>
     number \<noteq> [] \<and> length number \<le> 32
     \<and> list_all (\<lambda>(i, b). is_ascii_digit b \<or> (i = 0 \<and> b = CHR ''+'')) (enumerate 0 number)
     \<and> message \<noteq> [] \<and> length message \<le> 4096 \<and> even (length message) \<and> list_all is_ascii_hexdigit message
     \<and> stamp \<noteq> [] \<and> length stamp \<le> 64
     \<and> list_all (\<lambda>b. is_ascii_digit b \<or> b = CHR '';'' \<or> b = CHR ''+'' \<or> b = CHR ''-'') stamp"

definition canonical_sender :: "string \<Rightarrow> string" where
  "canonical_sender sender =
     (let s = to_ascii_lowercase sender in
      if s = ''5g'' \<or> s = ''x75'' then ''host''
      else if s = ''4g1'' \<or> s = ''v3e2'' then ''4G1''
      else if s = ''4g2'' \<or> s = ''v3e1'' then ''4G2''
      else sender)"

definition requested_sender :: "json_map \<Rightarrow> string" where
  "requested_sender params =
     canonical_sender (case Option.bind (map_of params ''sender'') as_str of Some s \<Rightarrow> s | None \<Rightarrow> ''host'')"

definition current_slot :: "'rsa sms_env \<Rightarrow> sms_link \<Rightarrow> int \<times> sms_link" where
  "current_slot e w =
     (case bus_ask e ''zwrt_zte_mdm.api'' ''get_sim_info'' (JObject []) w of
        (Inl _, w1) \<Rightarrow> (0, w1)
      | (Inr v, w1) \<Rightarrow>
          ((case Option.bind (either_field v ''current_sim_slot'' ''sim_slot'') as_i64 of Some i \<Rightarrow> i | None \<Rightarrow> 0), w1))"

fun await_slot :: "'rsa sms_env \<Rightarrow> int \<Rightarrow> nat \<Rightarrow> sms_link \<Rightarrow> bool \<times> sms_link" where
  "await_slot e slot n w =
     (if n = 0 then (False, w)
      else let (now, w1) = current_slot e w in
           if now = slot then (True, w1) else await_slot e slot (n - 1) (sleep_ms 500 w1))"

declare await_slot.simps [simp del]

definition provision_args :: "int \<Rightarrow> int \<Rightarrow> json" where
  "provision_args slot flag = jobj [(''active_slot'', jint slot), (''active_flag'', jint flag)]"

definition select_slot :: "'rsa sms_env \<Rightarrow> int \<Rightarrow> sms_link \<Rightarrow> (string + unit) \<times> sms_link" where
  "select_slot e slot w =
     (let old = (if slot = 2 then 1 else 2);
          (_, w1) = bus_ask e ''zwrt_zte_mdm.api'' ''zwrt_mdm_change_provision_session'' (provision_args old 0) w
      in case bus_ask e ''zwrt_zte_mdm.api'' ''zwrt_mdm_change_provision_session'' (provision_args slot 1) w1 of
           (Inl err, w2) \<Rightarrow> (Inl err, w2)
         | (Inr _, w2) \<Rightarrow>
             let (active, w3) = await_slot e slot 30 w2
             in (if active then Inr () else Inl (''SIM slot '' @ show_int slot @ '' did not become active''), w3))"

definition send_needs_encryption :: "'rsa sms_env \<Rightarrow> bool" where
  "send_needs_encryption e \<longleftrightarrow> uci_read (se_uci e) ''zwrt_wms.config.sms_no_need_encryption_flag'' = ''0''"

definition send_args :: "string \<Rightarrow> string \<Rightarrow> string \<Rightarrow> json" where
  "send_args number message stamp = jobj
     [(''number'', JString number), (''message_body'', JString message), (''sms_time'', JString stamp),
      (''encode_type'', JString ''UNICODE''), (''id'', JString ''-1'')]"

definition prepare_args ::
  "'rsa sms_env \<Rightarrow> string \<Rightarrow> string \<Rightarrow> string \<Rightarrow> sms_link \<Rightarrow> (string + json) \<times> sms_link" where
  "prepare_args e number message stamp w =
     (if send_needs_encryption e then
        (case ensure_crypto_session e (reset_crypto_session w) of
           (Inl err, w1) \<Rightarrow> (Inl err, w1)
         | (Inr key, w1) \<Rightarrow>
             (case encrypt e key number w1 of
                (Inl err, w2) \<Rightarrow> (Inl err, w2)
              | (Inr encrypted_number, w2) \<Rightarrow>
                  (case encrypt e key message w2 of
                     (Inl err, w3) \<Rightarrow> (Inl err, w3)
                   | (Inr encrypted_message, w3) \<Rightarrow> (Inr (send_args encrypted_number encrypted_message stamp), w3))))
      else (Inr (send_args number message stamp), w))"

fun await_sent :: "'rsa sms_env \<Rightarrow> nat \<Rightarrow> sms_link \<Rightarrow> (string + json) \<times> sms_link" where
  "await_sent e n w =
     (if n = 0 then (Inl ''zwrt_wms SMS command timed out'', w)
      else case bus_ask e ''zwrt_wms'' ''zwrt_wms_get_cmd_status'' (jobj [(''sms_cmd'', jint 4)]) (sleep_ms 500 w) of
        (Inl _, w1) \<Rightarrow> await_sent e (n - 1) w1
      | (Inr reply, w1) \<Rightarrow>
          let status = Option.bind (jget reply ''sms_cmd_status_result'') as_i64 in
          if status = Some 3 then (Inr (jobj [(''sender'', JString ''host''), (''status'', jint 3)]), w1)
          else if status = Some 2 then (Inl ''zwrt_wms SMS command failed'', w1)
          else await_sent e (n - 1) w1)"

declare await_sent.simps [simp del]

definition send_host ::
  "'rsa sms_env \<Rightarrow> string \<Rightarrow> string \<Rightarrow> string \<Rightarrow> sms_link \<Rightarrow> (string + json) \<times> sms_link" where
  "send_host e number message stamp w =
     (case prepare_args e number message stamp w of
        (Inl err, w1) \<Rightarrow> (Inl err, w1)
      | (Inr args, w1) \<Rightarrow>
          (case bus_ask e ''zwrt_wms'' ''zte_libwms_send_sms'' args w1 of
             (Inl err, w2) \<Rightarrow> (Inl err, w2)
           | (Inr _, w2) \<Rightarrow> await_sent e 20 w2))"

definition ready_slot :: "'rsa sms_env \<Rightarrow> string \<Rightarrow> sms_link \<Rightarrow> (string + unit) \<times> sms_link" where
  "ready_slot e sender w =
     (if sender = ''host'' then (Inr (), w)
      else
        let slot = (if sender = ''sim1'' then 1 else 2); (now, w1) = current_slot e w
        in if now \<noteq> slot then select_slot e slot w1 else (Inr (), w1))"

text \<open>\<open>send\<close> on the validated parameter object; the error says whether the request was at fault, the number is the revision.\<close>

definition sms_send ::
  "'rsa sms_env \<Rightarrow> json_map \<Rightarrow> nat \<Rightarrow> sms_link \<Rightarrow> ((bool \<times> string) + json) \<times> nat \<times> sms_link" where
  "sms_send e params revision w =
     (let arg = (\<lambda>name. Option.bind (map_of params name) as_str);
          sender = requested_sender params
      in case (arg ''number'', arg ''message_hex'', arg ''sms_time'') of
           (Some number, Some message, Some stamp) \<Rightarrow>
             if \<not> sms_valid number message stamp then (Inl (True, ''invalid SMS parameters''), revision, w)
             else if sender = ''4G1'' \<or> sender = ''4G2''
             then (Inl (True, sender @ '' SMS sending is not supported''), revision, w)
             else if sender = ''host'' \<or> sender = ''sim1'' \<or> sender = ''sim2''
             then
               (case ready_slot e sender w of
                  (Inl err, w1) \<Rightarrow> (Inl (False, err), revision, w1)
                | (Inr _, w1) \<Rightarrow>
                    let (result, w2) = send_host e number message stamp w1
                    in ((case result of Inl err \<Rightarrow> Inl (False, err) | Inr v \<Rightarrow> Inr v), wadd64 revision 1, w2))
             else (Inl (True, ''invalid SMS sender''), revision, w)
         | _ \<Rightarrow> (Inl (True, ''missing SMS parameters''), revision, w))"

end
