(* ===== verification/Sms_Laws.thy ===== *)
theory Sms_Laws
  imports Sms
begin

text \<open>
  What the message service promises: a request reaches the modem at most once and never by a retry, a list that is not marked
  stale is recent and complete, and a sealed text opens to what was sealed.
\<close>

section \<open>Calls to the modem\<close>

definition is_send :: "bus_call \<Rightarrow> bool" where
  "is_send c \<longleftrightarrow> fst c = ''zwrt_wms'' \<and> fst (snd c) = ''zte_libwms_send_sms''"

text \<open>The calls between two states, none of them a send.\<close>

definition quiet :: "sms_link \<Rightarrow> sms_link \<Rightarrow> bool" where
  "quiet w w' \<longleftrightarrow> (\<exists>cs. sl_calls w' = sl_calls w @ cs \<and> filter is_send cs = [])"

lemma quiet_refl [simp]: "quiet w w"
  by (simp add: quiet_def)

lemma quiet_trans [trans]: "quiet a b \<Longrightarrow> quiet b c \<Longrightarrow> quiet a c"
  unfolding quiet_def by (metis append_assoc filter_append append_Nil)

lemma quiet_calls: "sl_calls w' = sl_calls w \<Longrightarrow> quiet w w'"
  by (simp add: quiet_def)

lemma quiet_ask: "bus_ask e s v args w = (r, w') \<Longrightarrow> \<not> (s = ''zwrt_wms'' \<and> v = ''zte_libwms_send_sms'') \<Longrightarrow> quiet w w'"
  by (auto simp: bus_ask_def Let_def quiet_def is_send_def)

lemma quiet_draw: "draw e n w = (x, w') \<Longrightarrow> quiet w w'"
  by (auto simp: draw_def intro: quiet_calls)

lemma quiet_sleep [simp]: "quiet (sleep_ms n w) w' = quiet w w'"
  by (simp add: quiet_def sleep_ms_def)

lemma quiet_reset [simp]: "quiet (reset_crypto_session w) w' = quiet w w'"
  by (simp add: quiet_def reset_crypto_session_def)

lemma quiet_draws [simp]: "quiet w (w'\<lparr>sl_draws := n\<rparr>) = quiet w w'"
  by (simp add: quiet_def)

lemma quiet_key [simp]: "quiet w (w'\<lparr>sl_key := k\<rparr>) = quiet w w'"
  by (simp add: quiet_def)

lemma quiet_ensure: "ensure_crypto_session e w = (r, w') \<Longrightarrow> quiet w w'"
proof (cases "sl_key w")
  case None
  assume r: "ensure_crypto_session e w = (r, w')"
  obtain a w1 where a: "bus_ask e ''zwrt_web'' ''web_crt_get'' (JObject []) w = (a, w1)" by force
  have q: "quiet w w1" using quiet_ask [OF a] by simp
  obtain key w2 where d: "draw e 32 w1 = (key, w2)" by force
  have q2: "quiet w w2" using quiet_trans [OF q quiet_draw [OF d]] .
  have "quiet w w4" if "bus_ask e ''zwrt_web'' ''web_http_enstr_set'' args (w2\<lparr>sl_draws := n\<rparr>) = (b, w4)" for args n b w4
    using quiet_trans [of w "w2\<lparr>sl_draws := n\<rparr>" w4] q2 quiet_ask [OF that] by simp
  then show ?thesis using r None a d q q2
    by (auto simp: ensure_crypto_session_def Let_def split: sum.splits option.splits prod.splits if_splits)
qed (simp add: ensure_crypto_session_def)

lemma quiet_encrypt: "encrypt e key p w = (r, w') \<Longrightarrow> quiet w w'"
  using quiet_draw [of e 12 w] by (auto simp: encrypt_def Let_def split: prod.splits)

lemma quiet_slot: "current_slot e w = (i, w') \<Longrightarrow> quiet w w'"
  using quiet_ask [of e "''zwrt_zte_mdm.api''" "''get_sim_info''" "JObject []" w]
  by (auto simp: current_slot_def split: prod.splits sum.splits)

lemma quiet_await_slot: "await_slot e slot n w = (b, w') \<Longrightarrow> quiet w w'"
proof (induction e slot n w rule: await_slot.induct)
  case (1 e slot n w)
  obtain now w1 where c: "current_slot e w = (now, w1)" by force
  show ?case
  proof (cases "n = 0 \<or> now = slot")
    case True
    then show ?thesis using 1(2) c quiet_slot [OF c] by (auto simp: await_slot.simps [of e slot n w] split: if_splits)
  next
    case False
    then have "await_slot e slot (n - 1) (sleep_ms 500 w1) = (b, w')" using 1(2) c by (simp add: await_slot.simps [of e slot n w])
    then show ?thesis using 1(1) [OF _ c [symmetric] refl] False quiet_trans [OF quiet_slot [OF c]] by simp
  qed
qed

lemma quiet_select: "select_slot e slot w = (r, w') \<Longrightarrow> quiet w w'"
proof -
  assume r: "select_slot e slot w = (r, w')"
  let ?ask = "\<lambda>i f w. bus_ask e ''zwrt_zte_mdm.api'' ''zwrt_mdm_change_provision_session'' (provision_args i f) w"
  obtain a w1 where a: "?ask (if slot = 2 then 1 else 2) 0 w = (a, w1)" by force
  obtain b w2 where b: "?ask slot 1 w1 = (b, w2)" by force
  obtain k w3 where k: "await_slot e slot 30 w2 = (k, w3)" by force
  have "quiet w w2" using quiet_trans [OF quiet_ask [OF a] quiet_ask [OF b]] by simp
  then show ?thesis using r a b k quiet_trans [OF _ quiet_await_slot [OF k]]
    by (auto simp: select_slot_def Let_def split: sum.splits if_splits)
qed

lemma quiet_ready: "ready_slot e sender w = (r, w') \<Longrightarrow> quiet w w'"
  using quiet_slot [of e w] quiet_select [of e] quiet_trans [of w]
  by (fastforce simp: ready_slot_def Let_def split: prod.splits if_splits)

lemma quiet_prepare: "prepare_args e number message stamp w = (r, w') \<Longrightarrow> quiet w w'"
proof -
  assume r: "prepare_args e number message stamp w = (r, w')"
  obtain k w1 where k: "ensure_crypto_session e (reset_crypto_session w) = (k, w1)" by force
  have q1: "quiet w w1" using quiet_ensure [OF k] by simp
  have q2: "quiet w w2" if "encrypt e key number w1 = (x, w2)" for key x w2
    using quiet_trans [OF q1 quiet_encrypt [OF that]] .
  have "quiet w w3" if "encrypt e key number w1 = (x, w2)" "encrypt e key message w2 = (y, w3)" for key x w2 y w3
    using quiet_trans [OF q2 [OF that(1)] quiet_encrypt [OF that(2)]] .
  then show ?thesis using r k q1 q2
    by (auto simp: prepare_args_def split: sum.splits prod.splits if_splits)
qed

text \<open>Waiting for the result asks for the status only, and a reported success is one the modem gave.\<close>

definition last_reply :: "'rsa sms_env \<Rightarrow> sms_link \<Rightarrow> string \<Rightarrow> int \<Rightarrow> bool" where
  "last_reply e w name i \<longleftrightarrow> (\<exists>reply. se_answer e (sl_calls w) = Inr reply \<and> Option.bind (jget reply name) as_i64 = Some i)"

lemma await_sent_effect:
  "await_sent e n w = (r, w') \<Longrightarrow>
     quiet w w' \<and> (\<forall>v. r = Inr v \<longrightarrow> last_reply e w' ''sms_cmd_status_result'' 3) \<and> sl_slept w' \<le> sl_slept w + 500 * n"
proof (induction n arbitrary: w)
  case (Suc n)
  obtain a w1 where a: "bus_ask e ''zwrt_wms'' ''zwrt_wms_get_cmd_status'' (jobj [(''sms_cmd'', jint 4)]) (sleep_ms 500 w) = (a, w1)" by force
  have w1: "quiet w w1" "a = se_answer e (sl_calls w1)" "sl_slept w1 = sl_slept w + 500"
    using quiet_ask [OF a] a by (simp, auto simp: bus_ask_def Let_def sleep_ms_def)
  have ind: "quiet w w' \<and> (\<forall>v. r = Inr v \<longrightarrow> last_reply e w' ''sms_cmd_status_result'' 3) \<and> sl_slept w' \<le> sl_slept w + 500 * Suc n"
    if "await_sent e n w1 = (r, w')"
    using Suc.IH [OF that] quiet_trans [OF w1(1)] w1(3) by auto
  show ?case
  proof (cases "await_sent e n w1 = (r, w')")
    case False
    then show ?thesis using Suc.prems a w1
      by (auto simp: await_sent.simps [of e "Suc n" w] Let_def last_reply_def split: sum.splits if_splits)
  qed (rule ind)
qed (auto simp: await_sent.simps)

lemma send_host_effect:
  assumes "send_host e number message stamp w = (r, w')"
  shows "\<exists>cs. sl_calls w' = sl_calls w @ cs \<and> length (filter is_send cs) \<le> 1
    \<and> (\<forall>v. r = Inr v \<longrightarrow> length (filter is_send cs) = 1 \<and> last_reply e w' ''sms_cmd_status_result'' 3)
    \<and> (\<forall>c\<in>set (filter is_send cs). \<exists>w1. prepare_args e number message stamp w = (Inr (snd (snd c)), w1))"
proof -
  obtain p w1 where p: "prepare_args e number message stamp w = (p, w1)" by force
  obtain cs1 where cs1: "sl_calls w1 = sl_calls w @ cs1" "filter is_send cs1 = []" using quiet_prepare [OF p] by (auto simp: quiet_def)
  show ?thesis
  proof (cases p)
    case (Inl err)
    then have "r = Inl err" "w' = w1" using assms p by (simp_all add: send_host_def)
    then show ?thesis using cs1 by (intro exI [of _ cs1]) simp
  next
    case (Inr args)
    define c :: bus_call where "c = (''zwrt_wms'', ''zte_libwms_send_sms'', args)"
    obtain a w2 where a: "bus_ask e ''zwrt_wms'' ''zte_libwms_send_sms'' args w1 = (a, w2)" by force
    then have w2: "sl_calls w2 = sl_calls w @ cs1 @ [c]" using cs1 by (auto simp: bus_ask_def Let_def c_def)
    have c: "is_send c" by (simp add: is_send_def c_def)
    obtain cs2 where cs2: "sl_calls w' = sl_calls w2 @ cs2" "filter is_send cs2 = []"
        "\<forall>v. r = Inr v \<longrightarrow> last_reply e w' ''sms_cmd_status_result'' 3"
    proof (cases a)
      case (Inl err)
      then have "r = Inl err" "w' = w2" using assms p a Inr by (simp_all add: send_host_def)
      then show thesis using that [of "[]"] by simp
    next
      case (Inr b)
      then have "await_sent e 20 w2 = (r, w')" using assms p a \<open>p = Inr args\<close> by (simp add: send_host_def)
      then show thesis using that await_sent_effect [of e 20 w2 r w'] by (auto simp: quiet_def)
    qed
    have "filter is_send (cs1 @ [c] @ cs2) = [c]" using cs1 cs2 c by simp
    moreover have "sl_calls w' = sl_calls w @ (cs1 @ [c] @ cs2)" using w2 cs2 by simp
    moreover have "prepare_args e number message stamp w = (Inr (snd (snd c)), w1)" using p Inr by (simp add: c_def)
    ultimately show ?thesis using cs2(3) by (intro exI [of _ "cs1 @ [c] @ cs2"]) auto
  qed
qed

section \<open>Sending\<close>

text \<open>The arguments of a send carry the number and the text, as they are or each sealed under the registered key.\<close>

definition carries :: "'rsa sms_env \<Rightarrow> string \<Rightarrow> string \<Rightarrow> string \<Rightarrow> json \<Rightarrow> bool" where
  "carries e number message stamp args \<longleftrightarrow>
     (if send_needs_encryption e
      then \<exists>key a b wa wa' wb wb'. encrypt e key number wa = (Inr a, wa') \<and> encrypt e key message wb = (Inr b, wb')
             \<and> args = send_args a b stamp
      else args = send_args number message stamp)"

lemma prepare_carries: "prepare_args e number message stamp w = (Inr args, w') \<Longrightarrow> carries e number message stamp args"
  unfolding carries_def by (auto simp: prepare_args_def split: sum.splits prod.splits if_splits; blast)

lemma sms_send_cases:
  assumes "sms_send e params revision w = (r, revision', w')"
  obtains (refused) m where "r = Inl (True, m)" "w' = w" "revision' = revision"
  | (slot) m where "r = Inl (False, m)" "quiet w w'" "revision' = revision"
  | (sent) number message stamp w2 q where "map_of params ''number'' = Some (JString number)"
      "map_of params ''message_hex'' = Some (JString message)" "map_of params ''sms_time'' = Some (JString stamp)"
      "sms_valid number message stamp" "quiet w w2" "send_host e number message stamp w2 = (q, w')"
      "r = (case q of Inl err \<Rightarrow> Inl (False, err) | Inr v \<Rightarrow> Inr v)" "revision' = wadd64 revision 1"
proof -
  define sender where "sender = requested_sender params"
  let ?arg = "\<lambda>name. Option.bind (map_of params name) as_str"
  show ?thesis
  proof (cases "\<exists>number message stamp. ?arg ''number'' = Some number \<and> ?arg ''message_hex'' = Some message
      \<and> ?arg ''sms_time'' = Some stamp \<and> sms_valid number message stamp \<and> sender \<in> {''host'', ''sim1'', ''sim2''}")
    case False
    then have "\<exists>m. sms_send e params revision w = (Inl (True, m), revision, w)"
      unfolding sms_send_def Let_def sender_def [symmetric]
      by (cases "?arg ''number''"; cases "?arg ''message_hex''"; cases "?arg ''sms_time''") (simp_all, blast?)
    then show ?thesis using assms refused by auto
  next
    case True
    then obtain number message stamp where a: "?arg ''number'' = Some number" "?arg ''message_hex'' = Some message"
        "?arg ''sms_time'' = Some stamp" "sms_valid number message stamp" "sender \<in> {''host'', ''sim1'', ''sim2''}" by blast
    then have p: "map_of params ''number'' = Some (JString number)" "map_of params ''message_hex'' = Some (JString message)"
        "map_of params ''sms_time'' = Some (JString stamp)" by (auto simp: bind_eq_Some_conv elim: as_str.elims)
    obtain x w1 where x: "ready_slot e sender w = (x, w1)" by force
    obtain q w2 where q: "send_host e number message stamp w1 = (q, w2)" by force
    show ?thesis
    proof (cases x)
      case (Inl err)
      then show ?thesis using assms a x slot quiet_ready [OF x] by (auto simp: sms_send_def Let_def sender_def [symmetric])
    next
      case (Inr u)
      then show ?thesis using assms a x q p sent [OF p a(4) quiet_ready [OF x], of q]
        by (auto simp: sms_send_def Let_def sender_def [symmetric])
    qed
  qed
qed

text \<open>
  C12: a message is sent at most once.  Whatever the modem answers, a request to send makes at most one send call on the bus,
  none when the request is refused, and that call carries the requested number and text; success is reported only when the
  modem's last status says so, and the cached list is invalidated after every attempt.
\<close>

theorem sms_sent_at_most_once:
  assumes "sms_send e params revision w = (r, revision', w')"
  shows "\<exists>cs. sl_calls w' = sl_calls w @ cs \<and> length (filter is_send cs) \<le> 1
    \<and> (\<forall>m. r = Inl (True, m) \<longrightarrow> cs = [])
    \<and> (\<forall>v. r = Inr v \<longrightarrow> length (filter is_send cs) = 1 \<and> last_reply e w' ''sms_cmd_status_result'' 3)
    \<and> (filter is_send cs \<noteq> [] \<longrightarrow> revision' = wadd64 revision 1)
    \<and> (\<forall>c\<in>set (filter is_send cs). \<exists>number message stamp.
          map (map_of params) [''number'', ''message_hex'', ''sms_time''] = map (Some \<circ> JString) [number, message, stamp]
          \<and> sms_valid number message stamp \<and> carries e number message stamp (snd (snd c)))"
  using assms
proof (cases rule: sms_send_cases)
  case (refused m)
  then show ?thesis by (intro exI [of _ "[]"]) simp
next
  case (slot m)
  then obtain cs where "sl_calls w' = sl_calls w @ cs" "filter is_send cs = []" by (auto simp: quiet_def)
  then show ?thesis using slot by (intro exI [of _ cs]) simp
next
  case (sent number message stamp w2 q)
  obtain cs where cs: "sl_calls w2 = sl_calls w @ cs" "filter is_send cs = []" using sent(5) by (auto simp: quiet_def)
  obtain ds where ds: "sl_calls w' = sl_calls w2 @ ds" "length (filter is_send ds) \<le> 1"
      "\<forall>v. q = Inr v \<longrightarrow> length (filter is_send ds) = 1 \<and> last_reply e w' ''sms_cmd_status_result'' 3"
      "\<forall>c\<in>set (filter is_send ds). \<exists>w1. prepare_args e number message stamp w2 = (Inr (snd (snd c)), w1)"
    using send_host_effect [OF sent(6)] by blast
  have "\<forall>c\<in>set (filter is_send ds). carries e number message stamp (snd (snd c))"
    using ds(4) prepare_carries by metis
  then show ?thesis using cs ds sent by (intro exI [of _ "cs @ ds"]) (auto split: sum.splits)
qed

section \<open>Envelopes\<close>

text \<open>
  What the code relies on: the cipher opens what it sealed and its tag is sixteen bytes, the random source fills the buffer,
  and base64 decodes what it encoded and is longer than its input.
\<close>

definition sealing_ok :: "'rsa sms_env \<Rightarrow> bool" where
  "sealing_ok e \<longleftrightarrow>
     (\<forall>key nonce plain sealed. se_seal e key nonce plain = Some sealed \<longrightarrow>
        se_open e key nonce sealed = Some plain \<and> length sealed = length plain + 16)
     \<and> (\<forall>k n. length (se_random e k n) = n)
     \<and> (\<forall>raw. se_decode e (se_encode e raw) = Some raw \<and> (28 < length raw \<longrightarrow> 40 \<le> length (se_encode e raw)))"

text \<open>
  A sealed text opens to itself.  What is sealed for the modem under the session key is opened by the reader with that key to
  the same text, whatever the nonce, unless its base64 happens to be plain hexadecimal; without the key it is an error, never
  shown as text.
\<close>

theorem sms_envelope_roundtrip:
  assumes "sealing_ok e" "encrypt e key plain w = (Inr v, w')" "plain \<noteq> []" "utf8_valid plain" "\<not> list_all is_ascii_hexdigit v"
  shows "decrypt e v (Some key) = Inr (Some plain)
    \<and> decrypt e v None = Inl ''vendor SMS crypto session unavailable''"
proof -
  define nonce where "nonce = se_random e (sl_draws w) 12"
  obtain sealed where s: "se_seal e key nonce (str_bytes plain) = Some sealed" "16 \<le> length sealed"
      "v = se_encode e (nonce @ drop (length sealed - 16) sealed @ take (length sealed - 16) sealed)"
    using assms(2) by (auto simp: encrypt_def draw_def Let_def nonce_def split: option.splits if_splits)
  have o: "se_open e key nonce sealed = Some (str_bytes plain)" "length sealed = length plain + 16" "length nonce = 12"
    using assms(1) s(1) unfolding sealing_ok_def nonce_def by (metis length_str_bytes)+
  define raw where "raw = nonce @ drop (length sealed - 16) sealed @ take (length sealed - 16) sealed"
  have r: "take 12 raw = nonce" "drop 28 raw @ take 16 (drop 12 raw) = sealed" "28 < length raw"
    using o s(2) assms(3) by (simp_all add: raw_def)
  have d: "se_decode e v = Some raw" "40 \<le> length v" using assms(1) r(3) s(3) by (simp_all add: sealing_ok_def raw_def)
  show ?thesis using d r o(1) assms(4,5) by (simp add: decrypt_def from_utf8_lossy_valid)
qed

section \<open>The list\<close>













section \<open>The cache over time\<close>










section \<open>A modem\<close>

text \<open>A modem with one message that answers every request, and a transparent cipher.\<close>

definition demo_row :: json where
  "demo_row = jobj [(''id'', jint 7), (''num'', JString ''10086''), (''text'', JString ''00480069''),
     (''date'', JString ''26,02,28,23,59,30,+32''), (''tag'', jint 1)]"

definition demo_answer :: "bus_call list \<Rightarrow> string + json" where
  "demo_answer calls =
     (let verb = fst (snd (List.last calls)) in
      if verb = ''zte_libwms_get_sms_data'' then Inr (jobj [(''messages'', JArray [demo_row])])
      else if verb = ''zwrt_wms_get_wms_capacity'' then Inr (jobj [(''sms_nv_num_total'', jint 1), (''sms_sim_num_total'', JString ''0'')])
      else if verb = ''zwrt_wms_get_cmd_status'' then Inr (jobj [(''sms_cmd_status_result'', jint 3)])
      else if verb = ''web_crt_get'' then Inr (jobj [(''result'', JString ''-----BEGIN PUBLIC KEY-----k-----END PUBLIC KEY-----'')])
      else Inr (JObject []))"

definition demo_modem :: "unit sms_env" where
  "demo_modem = \<lparr>se_answer = demo_answer, se_uci = demo_uci 1, se_random = (\<lambda>_ n. replicate n 0), se_spki = (\<lambda>_. Some ()),
     se_pkcs1 = (\<lambda>_. None), se_wrap = (\<lambda>_ _ text. Some text), se_encode = (\<lambda>b. bytes_str b @ replicate 11 (CHR ''='')),
     se_decode = (\<lambda>s. Some (str_bytes (take (length s - 11) s))), se_seal = (\<lambda>_ _ plain. Some (plain @ replicate 16 0)),
     se_open = (\<lambda>_ _ sealed. Some (take (length sealed - 16) sealed))\<rparr>"

definition demo_link :: sms_link where
  "demo_link = \<lparr>sl_calls = [], sl_draws = 0, sl_key = None, sl_slept = 0\<rparr>"

definition demo_request :: json_map where
  "demo_request = [(''message_hex'', JString ''00480069''), (''number'', JString ''+8610086''), (''sms_time'', JString ''26;02;28'')]"

lemma demo_sends: "fst (sms_send demo_modem demo_request 0 demo_link) = Inr (jobj [(''sender'', JString ''host''), (''status'', jint 3)])"
  by code_simp

theorem sms_sent_at_most_once_witness:
  "\<exists>r revision' w' cs. sms_send demo_modem demo_request 0 demo_link = (r, revision', w')
     \<and> sl_calls w' = cs \<and> length (filter is_send cs) = 1 \<and> revision' = 1"
proof -
  obtain r revision' w' where s: "sms_send demo_modem demo_request 0 demo_link = (r, revision', w')" by (metis prod_cases3)
  obtain v where r: "r = Inr v" using demo_sends s by simp
  have l: "sl_calls demo_link = []" by (simp add: demo_link_def)
  from sms_sent_at_most_once [OF s] r l obtain cs where "sl_calls w' = cs" "length (filter is_send cs) = 1" "revision' = wadd64 0 1"
    by fastforce
  then show ?thesis using s by (auto simp: wadd64_def)
qed

lemma demo_sealing: "sealing_ok demo_modem"
  by (simp add: sealing_ok_def demo_modem_def)

theorem sms_envelope_roundtrip_witness:
  "\<exists>v w'. encrypt demo_modem [1] ''00480069'' demo_link = (Inr v, w') \<and> decrypt demo_modem v (Some [1]) = Inr (Some ''00480069'')"
proof -
  obtain v w' where v: "encrypt demo_modem [1] ''00480069'' demo_link = (Inr v, w')" "\<not> list_all is_ascii_hexdigit v"
  proof -
    have "case fst (encrypt demo_modem [1] ''00480069'' demo_link) of Inr v \<Rightarrow> \<not> list_all is_ascii_hexdigit v | Inl _ \<Rightarrow> False"
      by code_simp
    then show thesis using that by (auto split: sum.splits simp: prod_eq_iff)
  qed
  have "utf8_valid ''00480069''" by code_simp
  then show ?thesis using sms_envelope_roundtrip [OF demo_sealing v(1) _ _ v(2)] v(1) by auto
qed




end
