(* ===== verification/Spec2Isabelle.thy ===== *)
theory Spec2Isabelle
  imports
    Network_Recovery Reboot_Schedule Task_Schedule Traffic_History Activity Update_Status
    Auth Device_Session Ubus_Blob Ubus_Client State_Bus Uci Clock_Domain
    Ntp Stun Mesh_Frame Cooling Charge_Protection Ota_App Nat_Watch Cloud_Assign
    Sms_App Sms_Laws
begin

text \<open>
  Verification of zwrt-datad, the data daemon of a cellular router.

  \<^bold>\<open>The program.\<close>  The daemon (\<open>src/rust/src\<close>) samples the state of the device over the
  system bus, serves it to panels, and runs a number of controllers of its own: network
  recovery, a daily reboot, a task list, traffic history, an activity journal, fan and pump
  cooling, long-charge protection, time calibration, the update of itself.  The controllers share three patterns: a
  small record kept in a file that is replaced before memory changes, a rate limit on what they
  do to the device, and the rule that a change of the wall clock must neither grant nor lose
  anything.  This development models the controllers, the sign-in sessions and the byte
  formats, and proves what makes them safe to leave running.

  \<^bold>\<open>Conventions.\<close>  A Rust \<open>str\<close> is a \<open>string\<close> of its UTF-8 bytes, a byte slice a list of
  8-bit words; \<open>u16\<close>, \<open>u32\<close> and \<open>u64\<close> values that are handled bitwise are words, other unsigned
  integers are \<open>nat\<close> with the wrap-around or saturation of the source written out (the release
  profile has no overflow checks), \<open>i64\<close> is \<open>int\<close> within its bounds.  \<open>Result\<close> is a sum whose
  left side is the error.  A file is a field of the state, and what the operating system did with
  it an argument.  Instants of the monotonic clock, the wall clock, the output of a program,
  the reads of a socket and the random bytes are arguments as well.  Third-party code is a
  parameter: the URL parser, SHA-256, the JSON text codec, the length of an encoded record.

  \<^bold>\<open>The theories.\<close>
  \<^item> \<open>Datad_Prelude\<close>, \<open>Rust_Str\<close>, \<open>Rust_Net\<close>, \<open>Json_Value\<close>: integers and bytes, the string and address
    functions of the Rust library, JSON values with sorted objects, and the snapshot of \<open>model.rs\<close>.
  \<^item> \<open>Interfaces\<close>: the shared contracts as locales (\<open>durable\<close>, \<open>recoverable\<close>, \<open>window_limiter\<close>,
    \<open>bounded_log\<close>, \<open>dedup_log\<close>, \<open>prefix_codec\<close>, \<open>revisioned\<close>), each interpreted on the components that implement it.
  \<^item> \<open>Calendar\<close>, \<open>Reboot_Schedule\<close>, \<open>Task_Schedule\<close> (\<open>reboot_schedule.rs\<close>, \<open>task_schedule.rs\<close>): dates and
    times of the device clock, the daily reboot and the task list.  Shown: the accepted clock strings
    are exactly the calendar's, text order is calendar order; at most one reboot per calendar day and
    at most one attempt of a task per day through restarts and failed writes; every due task of a
    minute is started.
  \<^item> \<open>Network_Recovery\<close> (\<open>network_recovery.rs\<close>): configuration, budget, planning.  Shown: at most five
    actions in any hour, the budget is on flash before an action, a reboot only after its redials
    and not twice in six hours, nothing is lost by a restart, and a plan made before a manual
    action is refused.
  \<^item> \<open>Traffic_History\<close> (\<open>traffic_history.rs\<close>): the daily totals.  Shown: the stored history stays
    well-formed and loadable, a reading is never counted twice, the total of a day is the sum of the
    increments of its counter.
  \<^item> \<open>Activity\<close>, \<open>Update_Status\<close> (\<open>activity.rs\<close>, \<open>update_status.rs\<close>): bounded logs.  Shown: the journal
    survives a restart, its pages cover it without gap or repetition, only documented codes are
    shown and the status block keeps its size.
  \<^item> \<open>Auth\<close>, \<open>Device_Session\<close> (\<open>auth.rs\<close>, \<open>device_session.rs\<close>): sign-in sessions and the vendor session.
    Shown: a session is only accepted within its sliding lifetime, the number of sessions is
    bounded, at most three vendor logins per minute, an ended session stays ended until a login.
  \<^item> \<open>Ubus_Blob\<close>, \<open>Ubus_Client\<close> (\<open>ubus_socket.rs\<close>), \<open>State_Bus\<close> and \<open>Uci\<close> (\<open>state.rs\<close>, \<open>command.rs\<close>): the wire
    format of the bus, the client and executor with fallback, and the two ways to the bus and the
    configuration store.  Shown: arguments and frames round-trip, decoding is depth-bounded, no
    object id is invoked twice by one call, a request is not carried out again by the fallback,
    cooldowns are respected, sequence numbers are not reused; quoted options read back and
    the configuration cache is never stale.
  \<^item> \<open>Clock_Domain\<close> (\<open>time_control.rs\<close>): the lock between clock-sensitive work and a clock change as
    a step relation over its atomic operations.  Shown: under every interleaving a lease excludes a
    change.  The components above take the result of this lock as arguments.
  \<^item> \<open>Ntp\<close> (\<open>time_control/ntp.rs\<close>), \<open>Stun\<close> (\<open>stun.rs\<close>), \<open>Mesh_Frame\<close> (\<open>mesh/frame.rs\<close>): packets.  Shown: time stamps,
    addresses and frames round-trip with what a server or peer writes, and an accepted time lies
    within bounds.
  \<^item> \<open>Cooling\<close>, \<open>Charge_Protection\<close> (\<open>cooling.rs\<close>, \<open>charge_protection.rs\<close>): device control.  Shown: the fan
    curve is monotone and within the register, the fan is at full speed when hot, a failed policy is
    handed back to the kernel, the configuration file round-trips; a charging switch is only
    reported when it was read back.
  \<^item> \<open>Rust_F64\<close>, \<open>Ota\<close>, \<open>Ota_Laws\<close>, \<open>Cloud_Update\<close>, \<open>Ota_App\<close> (\<open>ota.rs\<close>, \<open>cloud_update.rs\<close>, the update handlers of
    \<open>server.rs\<close>): the self-update.  Values of \<open>f64\<close> are integers in units of the smallest one.  Shown: whatever
    requests, tasks, rounds and cloud commands interleave, only an installer named by a signed, newer
    manifest is started; a requested update is carried out from the first source that offers one;
    failures are followed by the documented pauses, also across restarts; an automatic
    installation needs two observed minutes of idleness; a cloud command starts only the version and binary it names
    and is carried out once.
  \<^item> \<open>Nat_Probe\<close>, \<open>Nat_World\<close>, \<open>Nat_Watch\<close> (\<open>nat.rs\<close>): the detection of the NAT type over a network with a state of its own, a
    network with a known NAT and firewall, and the watcher.  Shown: the reported type is the classic name of
    the NAT that is there; automatic detections wait for stable addresses, are at most four per set of
    addresses and keep their pauses; the telemetry keeps its documented values.
  \<^item> \<open>Cloud_Assign\<close> (\<open>cloud_route.rs\<close>, \<open>cloud_nodes.rs\<close>): the MQTT route and the relay nodes the platform assigns, both
    instances of the contract \<open>revisioned\<close>.  Shown: the newest revision wins in whatever order commands arrive and
    across restarts; a trusted node is a domain name the configured platform named while the owner's switch is on.
  \<^item> \<open>Smtp_Forward\<close>, \<open>Sms_Forward\<close>, \<open>Sms_Ledger\<close>, \<open>Sms_Delivery\<close>, \<open>Sms_App\<close> (\<open>smtp_forward.rs\<close>, \<open>sms_forward.rs\<close>, the forwarding loop
    and handlers of \<open>server.rs\<close>): message forwarding.  A mail session is a state of bytes to read and pieces written; the
    ledger is the record of seen messages and of the SIM allowance in its file; a delivery returns what left the
    device.  Shown: the ledger survives restarts; a message is handed out once and it is the first the rules let
    through; at most sixty messages a day leave through the SIM, whatever loops, tests and tasks
    interleave; a level that wobbles around a reported point is reported once; requests go to public hosts by name over
    HTTPS only; mail and credentials only travel inside TLS and no text can be taken for a command; the text of an
    SMS reads back.
  \<^item> This theory: properties that span the bus and its users.
  \<^item> \<open>Sms_Text\<close>, \<open>Sms\<close>, \<open>Sms_Laws\<close> (\<open>sms.rs\<close>): the message store.  The texts and stamps of the vendor's list, the
    registered key, the pages of both stores, the cached list and the send.  The bus is a function of all the calls made so
    far, so every theorem holds whatever it answers.  The lemmas show that a request is sent at most once, that a list not marked
    stale is recent and complete, that texts and envelopes read back, and that the instant of a stamp is the civil one.

  \<^bold>\<open>Loops.\<close>  Every loop is a terminating recursion.  The reads of a bus reply are the finite list of frames
  that arrive before the deadline, whose end is the timeout; the second round of a client call is bounded by
  its \<open>relooked\<close> flag; the ten attempts of \<open>settle\<close> are a counter.  The retry loop of the clock lock is a cycle
  of the step relation.

  \<^bold>\<open>Not modelled.\<close>  The HTTP server, the cloud client, the collection of \<open>state.rs\<close> and the action
  table of \<open>control.rs\<close>, host tables, Wi-Fi, files and shells: I/O and
  vendor interfaces around the parts above.  Of the bus executor the statistics and the waiting of the queue
  (only its bound is), of \<open>time_control.rs\<close> the work queue and the platform layer.  Process-wide
  pointers to a component (\<open>install\<close>, \<open>active\<close>) are replaced by the component's state.  Real time, crashes within
  one file replacement and the memory model of non-atomic data are outside the model.
\<close>

section \<open>A vendor session over both ways to the bus\<close>

lemma session_names: "valid_name ''session'' \<and> valid_name ''list''"
  by code_simp

lemma session_error:
  assumes "n < 256" "\<And>i. ubus ''session'' ''list'' (jobj [(''ubus_rpc_session'', JString i)]) =
    Inl (''/bin/ubus exited with exit status: '' @ show_nat n)"
  shows "session_exists ubus i = (if n = 252 then Some False else None)"
  using assms exit_text_252 [of n] by (simp add: session_exists_def)

lemma cli_exit_not_found: "cli_exit code False = 252 \<longleftrightarrow> unat code mod 256 = 4"
proof -
  have "unat code mod 256 < 256" by simp
  then show ?thesis by (cases "unat code mod 256 = 0") (auto simp: cli_exit_def)
qed

definition demo_missing_cli :: bus_env where
  "demo_missing_cli = demo_bus\<lparr>be_mode := ''cli'', be_run := Exited (ExitCode 252) []\<rparr>"

text \<open>
  Both ways to the bus end a vendor session alike.  When the bus answers the check of an
  established session with a status, over the socket or through the exit code the \<open>ubus\<close> program has
  for it, the session is given up exactly for the status \<open>NOT_FOUND\<close>; any other status leaves the
  session and its state as they were.
\<close>

theorem session_end_both_ways:
  assumes "ds_session s = Some v" "vs_checkable v" "\<not> ds_expired s"
    and "cli_exit code False \<noteq> 0"
    and "be_bin e = ''/bin/ubus''" "be_run e = Exited (ExitCode (cli_exit code False)) out"
    and "fst (exec_conclude ''/bin/ubus'' later collect ''session'' (Inl (Status code)) x) = Some answer"
  shows "device_active (\<lambda>_ _ _. answer) s = device_active (\<lambda>service method args. fst (ubus_cli e service method args)) s
    \<and> device_active (\<lambda>_ _ _. answer) s =
        (if unat code mod 256 = 4 then (Some False, s\<lparr>ds_session := None, ds_expired := True\<rparr>) else (None, s))"
proof -
  let ?cli = "\<lambda>service method args. fst (ubus_cli e service method args)"
  have ans: "answer = Inl (''/bin/ubus exited with exit status: '' @ show_nat (cli_exit code False))"
    using assms(7) by (simp add: exec_conclude_def Let_def status_text_exit)
  have cli: "?cli ''session'' ''list'' (jobj m) = answer" for m
    using session_names assms(4,5,6) ans by (simp add: ubus_cli_def jobj_def)
  have "session_exists ubus i = (if unat code mod 256 = 4 then Some False else None)"
    if "\<And>i. ubus ''session'' ''list'' (jobj [(''ubus_rpc_session'', JString i)]) = answer" for ubus i
    using session_error [OF cli_exit_less, of ubus code False i] that ans by (simp add: cli_exit_not_found)
  then show ?thesis using assms(1,2,3) cli by (auto simp: device_active_def)
qed

theorem session_end_both_ways_witness:
  "device_active (\<lambda>service method args. fst (ubus_cli demo_missing_cli service method args)) demo_vendor
     = (Some False, demo_vendor\<lparr>ds_session := None, ds_expired := True\<rparr>)"
proof -
  have v: "ds_session demo_vendor \<noteq> None" "vs_checkable (the (ds_session demo_vendor))" "\<not> ds_expired demo_vendor"
    by code_simp+
  then obtain v where s: "ds_session demo_vendor = Some v" "vs_checkable v" by auto
  have c: "cli_exit not_found False = 252" by code_simp
  have e: "be_bin demo_missing_cli = ''/bin/ubus''"
    "be_run demo_missing_cli = Exited (ExitCode (cli_exit not_found False)) []"
    by (simp_all add: demo_missing_cli_def demo_bus_def c)
  have nf: "unat not_found mod 256 = 4" by (simp add: not_found_def)
  have ok: "cli_exit not_found False \<noteq> 0" using c by simp
  have a: "fst (exec_conclude ''/bin/ubus'' 0 False ''session'' (Inl (Status not_found)) demo_executor)
    = Some (Inl (status_text ''/bin/ubus'' not_found False))"
    by (simp add: exec_conclude_def Let_def)
  note both = session_end_both_ways [OF s v(3) ok e a]
  show ?thesis using trans [OF conjunct1 [OF both, symmetric] conjunct2 [OF both]] nf by simp
qed

section \<open>An address the probe filter lets through\<close>

text \<open>
  The probe URLs of network recovery must name a public host, but a private IPv4 address written
  as an IPv4-mapped IPv6 address is not recognised as private.
\<close>

lemma mapped_private_host_accepted: "public_host ''[::ffff:c0a8:1]''"
  by code_simp

lemma plain_private_host_refused: "\<not> public_host ''192.168.0.1''"
  by code_simp

end
